theory Spec2Isabelle
  imports Main
begin

section \<open>JSON records and paths\<close>

text \<open>
  The repository declares three Step Functions state machines through the CDK. A
  declared state reads and writes the execution record, a JSON value, through
  JSONPath expressions such as \<^verbatim>\<open>$.key\<close>, \<^verbatim>\<open>$.textract.JobId\<close> and
  \<^verbatim>\<open>$.[0].Output\<close>. An object keeps its fields in order, as an association list.
\<close>

datatype json =
    JNull
  | JBool bool
  | JNum int
  | JStr string
  | JArr "json list"
  | JObj "(string \<times> json) list"

datatype seg = Fld string | Idx nat

fun lookup_seg :: "seg \<Rightarrow> json \<Rightarrow> json option" where
  "lookup_seg (Fld k) (JObj kvs) = map_of kvs k"
| "lookup_seg (Idx i) (JArr xs) = (if i < length xs then Some (xs ! i) else None)"
| "lookup_seg _ _ = None"

text \<open>\<open>json_at p j\<close> is the value the path \<open>p\<close> selects in \<open>j\<close>; \<open>[]\<close> is \<^verbatim>\<open>$\<close>.\<close>

fun json_at :: "seg list \<Rightarrow> json \<Rightarrow> json option" where
  "json_at [] j = Some j"
| "json_at (s # p) j = (case lookup_seg s j of None \<Rightarrow> None | Some v \<Rightarrow> json_at p v)"

fun set_field :: "string \<Rightarrow> json \<Rightarrow> (string \<times> json) list \<Rightarrow> (string \<times> json) list" where
  "set_field k v [] = [(k, v)]"
| "set_field k v ((k', v') # kvs) =
     (if k' = k then (k, v) # kvs else (k', v') # set_field k v kvs)"

text \<open>
  \<open>put_at p v j\<close> writes \<open>v\<close> into \<open>j\<close> at the result path \<open>p\<close> (field names only);
  \<open>[]\<close> is \<^verbatim>\<open>$\<close>, where the value replaces the record. Missing intermediate
  objects are created; writing a field into a value that is not an object fails.
\<close>

fun put_at :: "string list \<Rightarrow> json \<Rightarrow> json \<Rightarrow> json option" where
  "put_at [] v j = Some v"
| "put_at (k # p) v (JObj kvs) =
     (case put_at p v (case map_of kvs k of None \<Rightarrow> JObj [] | Some old \<Rightarrow> old) of
        None \<Rightarrow> None
      | Some new \<Rightarrow> Some (JObj (set_field k new kvs)))"
| "put_at (k # p) v _ = None"

section \<open>Payload templates and intrinsic functions\<close>

text \<open>
  \<open>fmt\<close> is \<^verbatim>\<open>States.Format\<close>: every \<^verbatim>\<open>{}\<close> of the template takes the next
  argument; too few or too many arguments fail. Only string arguments are rendered.
\<close>

fun fmt :: "string \<Rightarrow> string list \<Rightarrow> string option" where
  "fmt [] args = (if args = [] then Some [] else None)"
| "fmt [c] args = (if args = [] then Some [c] else None)"
| "fmt (c # d # t) args =
     (if c = CHR ''{'' \<and> d = CHR ''}''
      then (case args of
              [] \<Rightarrow> None
            | a # rest \<Rightarrow> (case fmt t rest of None \<Rightarrow> None | Some s \<Rightarrow> Some (a @ s)))
      else (case fmt (d # t) args of None \<Rightarrow> None | Some s \<Rightarrow> Some (c # s)))"

fun as_string :: "json option \<Rightarrow> string option" where
  "as_string (Some (JStr s)) = Some s"
| "as_string _ = None"

fun all_some :: "'a option list \<Rightarrow> 'a list option" where
  "all_some [] = Some []"
| "all_some (None # xs) = None"
| "all_some (Some x # xs) = (case all_some xs of None \<Rightarrow> None | Some ys \<Rightarrow> Some (x # ys))"

text \<open>
  A template is what \<^verbatim>\<open>parameters\<close> and \<^verbatim>\<open>resultSelector\<close> hold: literals,
  \<^verbatim>\<open>JsonPath.stringAt('$...')\<close> into the state's input, \<^verbatim>\<open>JsonPath.stringAt('$$...')\<close>
  into the context object, \<^verbatim>\<open>States.Format\<close>, and objects of these.
\<close>

datatype tmpl =
    Lit json
  | Path "seg list"
  | Ctx "seg list"
  | Format string "seg list list"
  | Obj "(string \<times> tmpl) list"

fun bind_field :: "string \<times> json option \<Rightarrow> (string \<times> json) option" where
  "bind_field (k, None) = None"
| "bind_field (k, Some v) = Some (k, v)"

primrec eval_tmpl :: "tmpl \<Rightarrow> json \<Rightarrow> json \<Rightarrow> json option" where
  "eval_tmpl (Lit v) cx j = Some v"
| "eval_tmpl (Path p) cx j = json_at p j"
| "eval_tmpl (Ctx p) cx j = json_at p cx"
| "eval_tmpl (Format f ps) cx j =
     (case all_some (map (\<lambda>p. as_string (json_at p j)) ps) of
        None \<Rightarrow> None
      | Some args \<Rightarrow> (case fmt f args of None \<Rightarrow> None | Some s \<Rightarrow> Some (JStr s)))"
| "eval_tmpl (Obj fs) cx j =
     (case all_some (map bind_field (map (map_prod id (\<lambda>t. eval_tmpl t cx j)) fs)) of
        None \<Rightarrow> None
      | Some kvs \<Rightarrow> Some (JObj kvs))"

text \<open>The conditions of a Choice rule that the source uses.\<close>

datatype cond = StringEquals "seg list" string | IsPresent "seg list"

text \<open>
  \<open>None\<close>: the rule compares a variable that the record does not have, which the
  service reports as a runtime error. \<open>IsPresent\<close> never fails and looks at no value.
\<close>

fun eval_cond :: "cond \<Rightarrow> json \<Rightarrow> bool option" where
  "eval_cond (StringEquals p s) j =
     (case json_at p j of None \<Rightarrow> None | Some v \<Rightarrow> Some (v = JStr s))"
| "eval_cond (IsPresent p) j = Some (json_at p j \<noteq> None)"

section \<open>States, as the constructs declare them\<close>

text \<open>
  What a Task state calls: a Lambda function (\<^verbatim>\<open>tasks.LambdaInvoke\<close>), an AWS SDK
  action (\<^verbatim>\<open>tasks.CallAwsService\<close>, service and action) or another state machine
  (\<^verbatim>\<open>tasks.StepFunctionsStartExecution\<close>), each by its name.
\<close>

datatype resource = Lambda string | AwsSdk string string | StartExecution string

text \<open>What the called resource receives: the state's whole input, the part of it at a
  path, or an evaluated parameter object.\<close>

datatype payload = Whole | FromPath "seg list" | Params tmpl

record retrier =
  r_errors :: "string list"
  r_interval :: nat
  r_maxAttempts :: nat
  r_backoff :: nat

record 'n catcher =
  c_errors :: "string list"
  c_next :: 'n
  c_resultPath :: "string list"

record 'n task =
  resource :: resource
  payload :: payload
  resultSelector :: "tmpl option"
  resultPath :: "string list"
  outputPath :: "seg list"
  retry :: "retrier list"
  catch :: "'n catcher list"

text \<open>
  A state, with the name of the state that follows it (\<open>None\<close>: the state ends its
  machine or its branch). \<open>Fail\<close> carries the error and the cause. The branches of a
  \<open>Parallel\<close> are named by their first states.
\<close>

datatype 'n state =
    Pass "tmpl option" "string list" "'n option"
  | Task "'n task" "'n option"
  | Wait nat "'n option"
  | Choice "(cond \<times> 'n) list" "'n option"
  | Fail string string
  | Parallel "'n list" "tmpl option" "'n option"

record 'n machine =
  startAt :: 'n
  states :: "'n \<Rightarrow> 'n state"
  timeoutSeconds :: nat

section \<open>The service that runs a machine\<close>

text \<open>
  The repository only declares the machines; the managed service runs them. The world
  is everything outside the declaration: \<open>invoke w r k req\<close> is what resource \<open>r\<close>
  answers to the request \<open>req\<close> on its \<open>k\<close>-th call of the execution (an error name
  with its cause, or a result), \<open>context_object w\<close> is the context object (\<^verbatim>\<open>$$\<close>), and
  \<open>arrival w\<close> is the order in which the branches of a Parallel state complete.
\<close>

record world =
  invoke :: "resource \<Rightarrow> nat \<Rightarrow> json \<Rightarrow> (string \<times> string) + json"
  context_object :: json
  arrival :: "nat list"

text \<open>
  A running execution: the current state, the execution record, the seconds spent
  waiting so far (time inside a task is not counted), the calls made to each resource,
  the retries made of the current state, and the states entered so far.
\<close>

record 'n config =
  pos :: 'n
  doc :: json
  clock :: nat
  calls :: "resource \<Rightarrow> nat"
  attempts :: nat
  trace :: "'n list"

datatype outcome = Succeeded json | Failed string string | TimedOut

datatype 'n progress = Goto "'n config" | Halt "'n config" outcome | Pending

definition leave :: "'n config \<Rightarrow> json \<Rightarrow> 'n option \<Rightarrow> 'n progress" where
  "leave c out nxt =
     (case nxt of
        None \<Rightarrow> Halt (c\<lparr>doc := out\<rparr>) (Succeeded out)
      | Some s \<Rightarrow> Goto (c\<lparr>pos := s, doc := out, attempts := 0\<rparr>))"

text \<open>An execution that runs longer than the machine's timeout is failed by the service.\<close>

definition sleep :: "nat \<Rightarrow> nat \<Rightarrow> 'n config \<Rightarrow> ('n config \<Rightarrow> 'n progress) \<Rightarrow> 'n progress" where
  "sleep limit secs c k =
     (if limit < clock c + secs then Halt (c\<lparr>clock := limit\<rparr>) TimedOut
      else k (c\<lparr>clock := clock c + secs\<rparr>))"

definition exec_pass :: "world \<Rightarrow> 'n config \<Rightarrow> tmpl option \<Rightarrow> string list \<Rightarrow> 'n option \<Rightarrow> 'n progress" where
  "exec_pass w c ps rp nxt =
     (case (case ps of None \<Rightarrow> Some (doc c) | Some t \<Rightarrow> eval_tmpl t (context_object w) (doc c)) of
        None \<Rightarrow> Halt c (Failed ''States.ParameterPathFailure'' [])
      | Some r \<Rightarrow>
          (case put_at rp r (doc c) of
             None \<Rightarrow> Halt c (Failed ''States.ResultPathMatchFailure'' [])
           | Some out \<Rightarrow> leave c out nxt))"

text \<open>The rules of a Choice are tried in order; \<open>None\<close> is a runtime error.\<close>

fun first_match :: "(cond \<times> 'n) list \<Rightarrow> json \<Rightarrow> 'n option option" where
  "first_match [] j = Some None"
| "first_match ((cd, s) # rules) j =
     (case eval_cond cd j of
        None \<Rightarrow> None
      | Some b \<Rightarrow> (if b then Some (Some s) else first_match rules j))"

definition exec_choice :: "'n config \<Rightarrow> (cond \<times> 'n) list \<Rightarrow> 'n option \<Rightarrow> 'n progress" where
  "exec_choice c rules dflt =
     (case first_match rules (doc c) of
        None \<Rightarrow> Halt c (Failed ''States.Runtime'' [])
      | Some (Some s) \<Rightarrow> Goto (c\<lparr>pos := s, attempts := 0\<rparr>)
      | Some None \<Rightarrow>
          (case dflt of
             None \<Rightarrow> Halt c (Failed ''States.NoChoiceMatched'' [])
           | Some s \<Rightarrow> Goto (c\<lparr>pos := s, attempts := 0\<rparr>)))"

definition task_input :: "payload \<Rightarrow> world \<Rightarrow> json \<Rightarrow> json option" where
  "task_input p w j =
     (case p of
        Whole \<Rightarrow> Some j
      | FromPath q \<Rightarrow> json_at q j
      | Params t \<Rightarrow> eval_tmpl t (context_object w) j)"

text \<open>
  The raw result of a successful call, before the result selector: a Lambda
  invocation wraps the function's payload in a \<^verbatim>\<open>Payload\<close> field, an SDK call gives
  the API response, a synchronous child execution gives a record of its \<^verbatim>\<open>Input\<close>
  and \<^verbatim>\<open>Output\<close>. The metadata fields beside these, which no path of the source
  reads, are left out.
\<close>

definition envelope :: "resource \<Rightarrow> json \<Rightarrow> json \<Rightarrow> json" where
  "envelope r req res =
     (case r of
        Lambda f \<Rightarrow> JObj [(''Payload'', res)]
      | AwsSdk s a \<Rightarrow> res
      | StartExecution sm \<Rightarrow> JObj [(''Input'', req), (''Output'', res)])"

text \<open>Result selector, then result path into the state's input, then output path.\<close>

definition task_output :: "'n task \<Rightarrow> world \<Rightarrow> json \<Rightarrow> json \<Rightarrow> json option" where
  "task_output t w j raw =
     (case (case resultSelector t of None \<Rightarrow> Some raw | Some s \<Rightarrow> eval_tmpl s (context_object w) raw) of
        None \<Rightarrow> None
      | Some r \<Rightarrow>
          (case put_at (resultPath t) r j of
             None \<Rightarrow> None
           | Some j' \<Rightarrow> json_at (outputPath t) j'))"

text \<open>The error of a call whose result cannot be turned into the state's output.\<close>

definition output_error :: "'n task \<Rightarrow> world \<Rightarrow> json \<Rightarrow> json \<Rightarrow> string" where
  "output_error t w j raw =
     (case (case resultSelector t of None \<Rightarrow> Some raw | Some s \<Rightarrow> eval_tmpl s (context_object w) raw) of
        None \<Rightarrow> ''States.ParameterPathFailure''
      | Some r \<Rightarrow>
          (case put_at (resultPath t) r j of
             None \<Rightarrow> ''States.ResultPathMatchFailure''
           | Some j' \<Rightarrow> ''States.OutputPathMatchFailure''))"

definition error_matches :: "string list \<Rightarrow> string \<Rightarrow> bool" where
  "error_matches names e = (e \<in> set names \<or> ''States.ALL'' \<in> set names)"

definition caught :: "'n task \<Rightarrow> 'n config \<Rightarrow> string \<Rightarrow> string \<Rightarrow> 'n progress" where
  "caught t c e cause =
     (case find (\<lambda>h. error_matches (c_errors h) e) (catch t) of
        None \<Rightarrow> Halt c (Failed e cause)
      | Some h \<Rightarrow>
          (case put_at (c_resultPath h) (JObj [(''Error'', JStr e), (''Cause'', JStr cause)]) (doc c) of
             None \<Rightarrow> Halt c (Failed ''States.ResultPathMatchFailure'' [])
           | Some out \<Rightarrow> Goto (c\<lparr>pos := c_next h, doc := out, attempts := 0\<rparr>)))"

text \<open>
  An error of a task goes to the first retrier that names it, while that retrier has
  attempts left, then to the first catcher that names it, and otherwise fails the
  execution with that error.
\<close>

definition on_error :: "nat \<Rightarrow> 'n task \<Rightarrow> 'n config \<Rightarrow> string \<Rightarrow> string \<Rightarrow> 'n progress" where
  "on_error limit t c e cause =
     (case find (\<lambda>r. error_matches (r_errors r) e) (retry t) of
        None \<Rightarrow> caught t c e cause
      | Some r \<Rightarrow>
          (if attempts c < r_maxAttempts r
           then sleep limit (r_interval r * r_backoff r ^ attempts c) c
                  (\<lambda>c'. Goto (c'\<lparr>attempts := Suc (attempts c)\<rparr>))
           else caught t c e cause))"

definition exec_task :: "nat \<Rightarrow> world \<Rightarrow> 'n config \<Rightarrow> 'n task \<Rightarrow> 'n option \<Rightarrow> 'n progress" where
  "exec_task limit w c t nxt =
     (case task_input (payload t) w (doc c) of
        None \<Rightarrow> Halt c (Failed ''States.ParameterPathFailure'' [])
      | Some req \<Rightarrow>
          (let c' = c\<lparr>calls := (calls c)(resource t := Suc (calls c (resource t)))\<rparr> in
           case invoke w (resource t) (calls c (resource t)) req of
             Inl (e, cause) \<Rightarrow> on_error limit t c' e cause
           | Inr res \<Rightarrow>
               (case task_output t w (doc c) (envelope (resource t) req res) of
                  None \<Rightarrow>
                    Halt c' (Failed (output_error t w (doc c) (envelope (resource t) req res)) [])
                | Some out \<Rightarrow> leave c' out nxt)))"

text \<open>
  The branches of a Parallel state run on the state's input and share nothing: each
  starts from the configuration in which the state was entered. They are taken in the
  order in which they complete; each output is stored at the index of its branch. A
  branch that fails fails the state, and the branches still running are stopped.
\<close>

definition branch_start :: "'n config \<Rightarrow> 'n \<Rightarrow> 'n config" where
  "branch_start c b = c\<lparr>pos := b, attempts := 0, trace := []\<rparr>"

fun gather ::
  "('n config \<Rightarrow> ('n config \<times> outcome) option) \<Rightarrow> 'n list \<Rightarrow> 'n config \<Rightarrow> nat list \<Rightarrow>
   'n config \<Rightarrow> json option list \<Rightarrow>
   (('n config \<times> outcome) + ('n config \<times> json option list)) option" where
  "gather sub bs c0 [] c acc = Some (Inr (c, acc))"
| "gather sub bs c0 (i # rest) c acc =
     (if length bs \<le> i then gather sub bs c0 rest c acc
      else
        (case sub (branch_start c0 (bs ! i)) of
           None \<Rightarrow> None
         | Some (c', Succeeded out) \<Rightarrow>
             gather sub bs c0 rest
               (c\<lparr>trace := trace c @ trace c', clock := max (clock c) (clock c')\<rparr>)
               (acc[i := Some out])
         | Some (c', bad) \<Rightarrow>
             Some (Inl (c\<lparr>trace := trace c @ trace c', clock := clock c'\<rparr>, bad))))"

text \<open>
  The result of the state is the array of the branch outputs, in the order of the
  branches; the result selector reads it, and the selected value replaces the record.
  While a branch has not delivered its output the state is not left.
\<close>

definition exec_parallel ::
  "('n config \<Rightarrow> ('n config \<times> outcome) option) \<Rightarrow> world \<Rightarrow> 'n config \<Rightarrow> 'n list \<Rightarrow>
   tmpl option \<Rightarrow> 'n option \<Rightarrow> 'n progress" where
  "exec_parallel sub w c bs sel nxt =
     (case gather sub bs c (arrival w) c (replicate (length bs) None) of
        None \<Rightarrow> Pending
      | Some (Inl (c', bad)) \<Rightarrow> Halt c' bad
      | Some (Inr (c', acc)) \<Rightarrow>
          (case all_some acc of
             None \<Rightarrow> Pending
           | Some outs \<Rightarrow>
               (case (case sel of None \<Rightarrow> Some (JArr outs)
                      | Some t \<Rightarrow> eval_tmpl t (context_object w) (JArr outs)) of
                  None \<Rightarrow> Halt c' (Failed ''States.ParameterPathFailure'' [])
                | Some r \<Rightarrow> leave c' r nxt)))"

definition step ::
  "('n config \<Rightarrow> ('n config \<times> outcome) option) \<Rightarrow> 'n machine \<Rightarrow> world \<Rightarrow> 'n config \<Rightarrow> 'n progress" where
  "step sub m w c =
     (let c1 = c\<lparr>trace := trace c @ [pos c]\<rparr> in
      case states m (pos c) of
        Pass ps rp nxt \<Rightarrow> exec_pass w c1 ps rp nxt
      | Task t nxt \<Rightarrow> exec_task (timeoutSeconds m) w c1 t nxt
      | Wait secs nxt \<Rightarrow> sleep (timeoutSeconds m) secs c1 (\<lambda>c2. leave c2 (doc c2) nxt)
      | Choice rules dflt \<Rightarrow> exec_choice c1 rules dflt
      | Fail e cause \<Rightarrow> Halt c1 (Failed e cause)
      | Parallel bs sel nxt \<Rightarrow> exec_parallel sub w c1 bs sel nxt)"

text \<open>
  \<open>run m w n c\<close> runs at most \<open>n\<close> states from \<open>c\<close>; \<open>None\<close> means that the
  execution has not ended within them.
\<close>

fun run :: "'n machine \<Rightarrow> world \<Rightarrow> nat \<Rightarrow> 'n config \<Rightarrow> ('n config \<times> outcome) option" where
  "run m w 0 c = None"
| "run m w (Suc n) c =
     (case step (\<lambda>b. run m w n b) m w c of
        Goto c' \<Rightarrow> run m w n c'
      | Halt c' out \<Rightarrow> Some (c', out)
      | Pending \<Rightarrow> None)"

definition start :: "'n machine \<Rightarrow> json \<Rightarrow> 'n config" where
  "start m j = \<lparr>pos = startAt m, doc = j, clock = 0, calls = (\<lambda>r. 0), attempts = 0, trace = []\<rparr>"

definition execute :: "'n machine \<Rightarrow> world \<Rightarrow> nat \<Rightarrow> json \<Rightarrow> ('n config \<times> outcome) option" where
  "execute m w n j = run m w n (start m j)"

section \<open>The task constructs of the CDK\<close>

text \<open>
  Each construct turns its props into a Task state. A prop that the source does not
  pass keeps the default written here: no result selector, result path and output
  path \<^verbatim>\<open>$\<close>, the whole state input as a Lambda's payload. The source adds no
  retrier and no catcher to any state (\<^verbatim>\<open>addRetry\<close>, \<^verbatim>\<open>addCatch\<close>), so a state has
  the ones its construct attaches by default: none for an SDK call and for a child
  execution, one retrier for a Lambda invocation.
\<close>

definition CallAwsService ::
  "string \<Rightarrow> string \<Rightarrow> tmpl \<Rightarrow> tmpl option \<Rightarrow> string list \<Rightarrow> 'n task" where
  "CallAwsService service action parameters selector rp =
     \<lparr>resource = AwsSdk service action, payload = Params parameters,
      resultSelector = selector, resultPath = rp, outputPath = [],
      retry = [], catch = []\<rparr>"

text \<open>
  \<^verbatim>\<open>tasks.LambdaInvoke\<close> retries the transient errors of the Lambda service unless
  its prop \<^verbatim>\<open>retryOnServiceExceptions\<close> is false. The source does not pass that prop,
  so every Lambda task carries this retrier: the first retry after 2 seconds, each
  later one after twice the interval before, 6 retries at most.
\<close>

definition lambdaServiceRetry :: retrier where
  "lambdaServiceRetry =
     \<lparr>r_errors = [''Lambda.ServiceException'', ''Lambda.AWSLambdaException'',
                  ''Lambda.SdkClientException''],
      r_interval = 2, r_maxAttempts = 6, r_backoff = 2\<rparr>"

definition LambdaInvoke :: "string \<Rightarrow> string list \<Rightarrow> seg list \<Rightarrow> 'n task" where
  "LambdaInvoke lambdaFunction rp op =
     \<lparr>resource = Lambda lambdaFunction, payload = Whole,
      resultSelector = None, resultPath = rp, outputPath = op,
      retry = [lambdaServiceRetry], catch = []\<rparr>"

definition StepFunctionsStartExecution ::
  "string \<Rightarrow> seg list \<Rightarrow> string list \<Rightarrow> seg list \<Rightarrow> 'n task" where
  "StepFunctionsStartExecution stateMachine inputPath rp op =
     \<lparr>resource = StartExecution stateMachine, payload = FromPath inputPath,
      resultSelector = None, resultPath = rp, outputPath = op,
      retry = [], catch = []\<rparr>"

text \<open>\<^verbatim>\<open>LambdaHelper.getLambdaInvokeTask\<close> (lib/lambda-helper.ts).\<close>

definition getLambdaInvokeTask :: "string \<Rightarrow> 'n task" where
  "getLambdaInvokeTask lambdaFunction =
     LambdaInvoke lambdaFunction [''results''] [Fld ''results'', Fld ''Payload'']"

definition minutes :: "nat \<Rightarrow> nat" where
  "minutes n = 60 * n"

section \<open>The document-analysis job runner\<close>

text \<open>
  \<^verbatim>\<open>AmazonTextractMultiPagesDocumentsStateMachineConstruct\<close>. The states, by the
  ids the source gives them: \<^verbatim>\<open>RunAmazonTextract\<close>, \<^verbatim>\<open>Wait 1 minute\<close>,
  \<^verbatim>\<open>GetDocumentAnalysis\<close>, \<^verbatim>\<open>Check Job Status\<close>, \<^verbatim>\<open>Job Failed\<close>, \<^verbatim>\<open>Job Finish\<close>.
\<close>

datatype tx =
    RunAmazonTextract
  | Wait_1_minute
  | GetDocumentAnalysis
  | Check_Job_Status
  | Job_Failed
  | Job_Finish

definition runAmazonTextract :: "string \<Rightarrow> string \<Rightarrow> tx task" where
  "runAmazonTextract pdfSourceBucket destinationBucket =
     CallAwsService ''textract'' ''startDocumentAnalysis''
       (Obj [(''ClientRequestToken'', Ctx [Fld ''Execution'', Fld ''Name'']),
             (''DocumentLocation'',
                Obj [(''S3Object'',
                   Obj [(''Bucket'', Lit (JStr pdfSourceBucket)),
                        (''Name'', Path [Fld ''key''])])]),
             (''FeatureTypes'', Lit (JArr [JStr ''FORMS'', JStr ''TABLES''])),
             (''JobTag'', Ctx [Fld ''Execution'', Fld ''Name'']),
             (''OutputConfig'',
                Obj [(''S3Bucket'', Lit (JStr destinationBucket)),
                     (''S3Prefix'', Path [Fld ''key''])])])
       (Some (Obj [(''JobId'', Path [Fld ''JobId''])]))
       [''textract'']"

definition getDocumentAnalysis :: "tx task" where
  "getDocumentAnalysis =
     CallAwsService ''textract'' ''getDocumentAnalysis''
       (Obj [(''JobId'', Path [Fld ''textract'', Fld ''JobId'']),
             (''MaxResults'', Lit (JNum 1))])
       (Some (Obj [(''JobStatus'', Path [Fld ''JobStatus''])]))
       [''status'']"

definition jobFailed :: "tx state" where
  "jobFailed = Fail ''DescribeJob returned FAILED'' ''Amazon Textract Job Failed''"

definition jobFinish :: "tx state" where
  "jobFinish =
     Pass (Some (Obj [(''key'', Path [Fld ''key'']),
                      (''JobId'', Path [Fld ''textract'', Fld ''JobId'']),
                      (''textractPrefix'',
                         Format ''{}/{}'' [[Fld ''key''], [Fld ''textract'', Fld ''JobId'']])]))
          [] None"

text \<open>
  The wiring: \<^verbatim>\<open>runAmazonTextract.next(wait).next(getDocumentAnalysis).next(choice)\<close>,
  and the choice's \<^verbatim>\<open>when(FAILED, jobFailed)\<close>, \<^verbatim>\<open>when(SUCCEEDED, jobFinish)\<close>,
  \<^verbatim>\<open>otherwise(wait)\<close>.
\<close>

fun textract_states :: "string \<Rightarrow> string \<Rightarrow> tx \<Rightarrow> tx state" where
  "textract_states s d RunAmazonTextract = Task (runAmazonTextract s d) (Some Wait_1_minute)"
| "textract_states s d Wait_1_minute = Wait (minutes 1) (Some GetDocumentAnalysis)"
| "textract_states s d GetDocumentAnalysis = Task getDocumentAnalysis (Some Check_Job_Status)"
| "textract_states s d Check_Job_Status =
     Choice [(StringEquals [Fld ''status'', Fld ''JobStatus''] ''FAILED'', Job_Failed),
             (StringEquals [Fld ''status'', Fld ''JobStatus''] ''SUCCEEDED'', Job_Finish)]
            (Some Wait_1_minute)"
| "textract_states s d Job_Failed = jobFailed"
| "textract_states s d Job_Finish = jobFinish"

definition textract_machine :: "string \<Rightarrow> string \<Rightarrow> tx machine" where
  "textract_machine pdfSourceBucket destinationBucket =
     \<lparr>startAt = RunAmazonTextract,
      states = textract_states pdfSourceBucket destinationBucket,
      timeoutSeconds = minutes 180\<rparr>"

section \<open>The orientation-correction pipeline\<close>

text \<open>
  \<^verbatim>\<open>CorrectPdfOrientationStateMachineConstruct\<close>. The four Lambda tasks come from
  \<open>getLambdaInvokeTask\<close>; a function is named here by its asset path. The other
  states carry the ids \<^verbatim>\<open>Skip Rotation Choice\<close>, \<^verbatim>\<open>Skip Fixing Rotation\<close> and
  \<^verbatim>\<open>Wait 5 seconds\<close>.
\<close>

datatype orient =
    pdfToImagesTask
  | skipRotationChoice
  | Skip_Fixing_Rotation
  | analyzeDocumentImagesTask
  | correctImageOrientationTask
  | Wait_5_seconds
  | imagesToPdfTask

text \<open>
  The wiring: \<^verbatim>\<open>pdfToImagesTask.next(skipRotationChoice)\<close>; the choice's
  \<^verbatim>\<open>when(Condition.isPresent('$.skipRotation'), Skip Fixing Rotation)\<close> and
  \<^verbatim>\<open>otherwise(analyze.next(correct).next(Wait 5 seconds))\<close>; and
  \<^verbatim>\<open>skipRotationChoice.afterwards().next(imagesToPdfTask)\<close>, which continues both
  open ends, the Pass and the Wait, with the last task.
\<close>

fun orientation_states :: "orient \<Rightarrow> orient state" where
  "orientation_states pdfToImagesTask =
     Task (getLambdaInvokeTask ''pdf-to-Images'') (Some skipRotationChoice)"
| "orientation_states skipRotationChoice =
     Choice [(IsPresent [Fld ''skipRotation''], Skip_Fixing_Rotation)]
            (Some analyzeDocumentImagesTask)"
| "orientation_states Skip_Fixing_Rotation = Pass None [] (Some imagesToPdfTask)"
| "orientation_states analyzeDocumentImagesTask =
     Task (getLambdaInvokeTask ''analyze-document-images'') (Some correctImageOrientationTask)"
| "orientation_states correctImageOrientationTask =
     Task (getLambdaInvokeTask ''correct-image-orientation'') (Some Wait_5_seconds)"
| "orientation_states Wait_5_seconds = Wait 5 (Some imagesToPdfTask)"
| "orientation_states imagesToPdfTask = Task (getLambdaInvokeTask ''images-to-pdf'') None"

definition orientation_machine :: "orient machine" where
  "orientation_machine =
     \<lparr>startAt = pdfToImagesTask, states = orientation_states, timeoutSeconds = minutes 180\<rparr>"

section \<open>The top-level orchestrator\<close>

text \<open>
  \<^verbatim>\<open>AssignmentsTextractStateMachineConstruct\<close>. \<open>getStateMachineExecution\<close> starts a
  child machine and waits for it (\<^verbatim>\<open>IntegrationPattern.RUN_JOB\<close>); its input path
  defaults to \<^verbatim>\<open>$.Input\<close>. A child machine is named by its construct.
\<close>

definition getStateMachineExecution :: "string \<Rightarrow> seg list option \<Rightarrow> 'n task" where
  "getStateMachineExecution stateMachine inputPath =
     StepFunctionsStartExecution stateMachine
       (case inputPath of None \<Rightarrow> [Fld ''Input''] | Some p \<Rightarrow> p)
       [''results''] [Fld ''results'']"

datatype orch =
    StartPass
  | ProcessParallel
  | ScriptsPass
  | StandardAnswerPass
  | ScriptsCorrectPdfOrientationStateMachineExecution
  | AnswerCorrectPdfOrientationStateMachineExecution
  | ScriptsAmazonTextractMultiPagesDocumentsStateMachineExecution
  | AnswerAmazonTextractMultiPagesDocumentsStateMachineExecution
  | ScriptsTransformFormResultStateMachineExecution
  | AnswerTransformFormResultStateMachineExecution
  | GenerateMarkResultStateMachineExecution

definition standardAnswerPass :: "orch state" where
  "standardAnswerPass =
     Pass (Some (Obj [(''key'', Path [Fld ''standardAnswerKey'']),
                      (''skipRotation'', Lit (JBool True))]))
          [''Input'']
          (Some AnswerCorrectPdfOrientationStateMachineExecution)"

definition scriptsPass :: "orch state" where
  "scriptsPass =
     Pass (Some (Obj [(''key'', Path [Fld ''scriptsKey''])]))
          [''Input'']
          (Some ScriptsCorrectPdfOrientationStateMachineExecution)"

text \<open>
  The first \<^verbatim>\<open>parallel.branch(...)\<close> of the source is the scripts chain, the second
  the standard-answer chain; the result selector is
  \<^verbatim>\<open>{'scripts.$': '$.[0].Output', 'standardAnswer.$': '$.[1].Output'}\<close>.
\<close>

definition parallel :: "orch state" where
  "parallel =
     Parallel [ScriptsPass, StandardAnswerPass]
       (Some (Obj [(''scripts'', Path [Idx 0, Fld ''Output'']),
                   (''standardAnswer'', Path [Idx 1, Fld ''Output''])]))
       (Some GenerateMarkResultStateMachineExecution)"

fun orchestrator_states :: "orch \<Rightarrow> orch state" where
  "orchestrator_states StartPass = Pass None [] (Some ProcessParallel)"
| "orchestrator_states ProcessParallel = parallel"
| "orchestrator_states ScriptsPass = scriptsPass"
| "orchestrator_states StandardAnswerPass = standardAnswerPass"
| "orchestrator_states ScriptsCorrectPdfOrientationStateMachineExecution =
     Task (getStateMachineExecution ''CorrectPdfOrientationStateMachineConstruct'' None)
          (Some ScriptsAmazonTextractMultiPagesDocumentsStateMachineExecution)"
| "orchestrator_states AnswerCorrectPdfOrientationStateMachineExecution =
     Task (getStateMachineExecution ''CorrectPdfOrientationStateMachineConstruct'' None)
          (Some AnswerAmazonTextractMultiPagesDocumentsStateMachineExecution)"
| "orchestrator_states ScriptsAmazonTextractMultiPagesDocumentsStateMachineExecution =
     Task (getStateMachineExecution ''AmazonTextractMultiPagesDocumentsStateMachineConstruct'' None)
          (Some ScriptsTransformFormResultStateMachineExecution)"
| "orchestrator_states AnswerAmazonTextractMultiPagesDocumentsStateMachineExecution =
     Task (getStateMachineExecution ''AmazonTextractMultiPagesDocumentsStateMachineConstruct'' None)
          (Some AnswerTransformFormResultStateMachineExecution)"
| "orchestrator_states ScriptsTransformFormResultStateMachineExecution =
     Task (getStateMachineExecution ''TransformFormResultStateMachineConstruct''
             (Some [Fld ''Output'']))
          None"
| "orchestrator_states AnswerTransformFormResultStateMachineExecution =
     Task (getStateMachineExecution ''TransformFormResultStateMachineConstruct''
             (Some [Fld ''Output'']))
          None"
| "orchestrator_states GenerateMarkResultStateMachineExecution =
     Task (getStateMachineExecution ''GenerateMarkResultStateMachineConstruct'' (Some [])) None"

definition orchestrator_machine :: "orch machine" where
  "orchestrator_machine =
     \<lparr>startAt = StartPass, states = orchestrator_states, timeoutSeconds = minutes 180\<rparr>"

section \<open>Observing an execution\<close>

text \<open>
  \<open>advance m w n c\<close> is the execution after its next \<open>n\<close> states, for a machine
  without Parallel states (a Parallel state is not entered).
\<close>

fun advance :: "'n machine \<Rightarrow> world \<Rightarrow> nat \<Rightarrow> 'n config \<Rightarrow> 'n progress" where
  "advance m w 0 c = Goto c"
| "advance m w (Suc n) c =
     (case step (\<lambda>b. None) m w c of
        Goto c' \<Rightarrow> advance m w n c'
      | Halt c' out \<Rightarrow> Halt c' out
      | Pending \<Rightarrow> Pending)"

text \<open>The state and the record of an execution that goes on.\<close>

fun reached :: "'n progress \<Rightarrow> ('n \<times> json) option" where
  "reached (Goto c) = Some (pos c, doc c)"
| "reached (Halt c out) = None"
| "reached Pending = None"

fun is_Parallel :: "'n state \<Rightarrow> bool" where
  "is_Parallel (Parallel bs sel nxt) = True"
| "is_Parallel _ = False"

definition flat :: "'n machine \<Rightarrow> bool" where
  "flat m = (\<forall>s. \<not> is_Parallel (states m s))"

text \<open>
  The request of a status poll for job \<open>jid\<close>, and the status that the \<open>k\<close>-th poll
  of the execution reads (\<open>None\<close>: the call fails or answers without a status).
\<close>

definition poll_request :: "string \<Rightarrow> json" where
  "poll_request jid = JObj [(''JobId'', JStr jid), (''MaxResults'', JNum 1)]"

definition polled :: "world \<Rightarrow> string \<Rightarrow> nat \<Rightarrow> json option" where
  "polled w jid k =
     (case invoke w (resource getDocumentAnalysis) k (poll_request jid) of
        Inl err \<Rightarrow> None
      | Inr r \<Rightarrow> json_at [Fld ''JobStatus''] r)"

text \<open>A status that the runner treats as not final.\<close>

definition pending :: "json option \<Rightarrow> bool" where
  "pending st = (st \<noteq> None \<and> st \<noteq> Some (JStr ''FAILED'') \<and> st \<noteq> Some (JStr ''SUCCEEDED''))"

text \<open>The record of a runner that has submitted job \<open>jid\<close> for the object \<open>key\<close>.\<close>

definition tx_doc :: "string \<Rightarrow> string \<Rightarrow> json \<Rightarrow> bool" where
  "tx_doc key jid d =
     (\<exists>kvs. d = JObj kvs \<and> map_of kvs ''key'' = Some (JStr key)
        \<and> (\<exists>tv. map_of kvs ''textract'' = Some (JObj tv) \<and> map_of tv ''JobId'' = Some (JStr jid)))"

text \<open>The states that a state of the declaration can hand over to.\<close>

fun opt_list :: "'a option \<Rightarrow> 'a list" where
  "opt_list None = []"
| "opt_list (Some x) = [x]"

fun targets :: "'n state \<Rightarrow> 'n list" where
  "targets (Pass ps rp nxt) = opt_list nxt"
| "targets (Task t nxt) = opt_list nxt @ map c_next (catch t)"
| "targets (Wait secs nxt) = opt_list nxt"
| "targets (Choice rules dflt) = map snd rules @ opt_list dflt"
| "targets (Fail e cause) = []"
| "targets (Parallel bs sel nxt) = opt_list nxt"

section \<open>Sample worlds\<close>

text \<open>
  A world for concrete runs: the submission answers with job \<^verbatim>\<open>job-1\<close>, the first
  \<open>n\<close> polls answer \<^verbatim>\<open>IN_PROGRESS\<close> and every later one \<open>final\<close>; a Lambda
  function and a child machine return what they receive.
\<close>

definition sample_world :: "string \<Rightarrow> nat \<Rightarrow> world" where
  "sample_world final n =
     \<lparr>invoke = (\<lambda>r k req.
        case r of
          Lambda f \<Rightarrow> Inr req
        | AwsSdk service action \<Rightarrow>
            (if action = ''startDocumentAnalysis'' then Inr (JObj [(''JobId'', JStr ''job-1'')])
             else Inr (JObj [(''JobStatus'', JStr (if k < n then ''IN_PROGRESS'' else final))]))
        | StartExecution sm \<Rightarrow> Inr req),
      context_object = JObj [(''Execution'', JObj [(''Name'', JStr ''exec-1'')])],
      arrival = [0, 1]\<rparr>"

text \<open>The same world, but every call answers with the result \<open>p\<close>.\<close>

definition answering_world :: "json \<Rightarrow> world" where
  "answering_world p = (sample_world ''SUCCEEDED'' 0)\<lparr>invoke := (\<lambda>r k req. Inr p)\<rparr>"

text \<open>The same world, but resource \<open>bad\<close> raises an error.\<close>

definition failing_world :: "resource \<Rightarrow> world" where
  "failing_world bad =
     (sample_world ''SUCCEEDED'' 0)
       \<lparr>invoke := (\<lambda>r k req.
          if r = bad then Inl (''Boom'', ''it broke'')
          else invoke (sample_world ''SUCCEEDED'' 0) r k req)\<rparr>"

text \<open>
  The same world, but the first call of resource \<open>bad\<close> meets a transient error of
  the Lambda service; every later call answers.
\<close>

definition flaky_world :: "resource \<Rightarrow> world" where
  "flaky_world bad =
     (sample_world ''SUCCEEDED'' 0)
       \<lparr>invoke := (\<lambda>r k req.
          if r = bad \<and> k = 0 then Inl (''Lambda.ServiceException'', ''try again'')
          else invoke (sample_world ''SUCCEEDED'' 0) r k req)\<rparr>"

text \<open>
  An error that the retrier of a Lambda task names, and a call of function \<open>f\<close>
  that fails with such an error.
\<close>

definition transient :: "string \<Rightarrow> bool" where
  "transient e = error_matches (r_errors lambdaServiceRetry) e"

definition fails_transiently :: "world \<Rightarrow> string \<Rightarrow> json \<Rightarrow> nat \<Rightarrow> bool" where
  "fails_transiently w f req k =
     (case invoke w (Lambda f) k req of
        Inl (e, cause) \<Rightarrow> transient e
      | Inr p \<Rightarrow> False)"

section \<open>The analysis service and request tokens\<close>

text \<open>
  The analysis service is outside the repository. It is a parameter here: a function
  from its state and a start request to the job identifier it answers and its new
  state. \<open>honours_token svc\<close> says that \<open>svc\<close> treats the client request token as
  an idempotency token: after a start request, a request with the same token gets the
  same answer and leaves the service's state as it is.
\<close>

definition honours_token :: "('st \<Rightarrow> json \<Rightarrow> string \<times> 'st) \<Rightarrow> bool" where
  "honours_token svc =
     (\<forall>st r1 r2.
        json_at [Fld ''ClientRequestToken''] r1 \<noteq> None
        \<and> json_at [Fld ''ClientRequestToken''] r2 = json_at [Fld ''ClientRequestToken''] r1
        \<longrightarrow> svc (snd (svc st r1)) r2 = svc st r1)"

text \<open>A sample service: a table of the jobs started so far, by token.\<close>

definition token_table_service ::
  "(json option \<times> string) list \<Rightarrow> json \<Rightarrow> string \<times> (json option \<times> string) list" where
  "token_table_service jobs req =
     (let tok = json_at [Fld ''ClientRequestToken''] req in
      case map_of jobs tok of
        Some j \<Rightarrow> (j, jobs)
      | None \<Rightarrow> (let j = ''job-'' @ replicate (length jobs) (CHR ''i'') in (j, jobs @ [(tok, j)])))"

section \<open>The page-split function\<close>

text \<open>
  Modelled from the spec: the page-split function (the Lambda function of the asset
  \<^verbatim>\<open>pdf-to-Images\<close>) is not among the source files. The spec gives the pipeline an
  object key and a skip-rotation flag as input, lets that flag decide the bypass after
  the page split, and describes the payload of a compute step as merged back into the
  execution record. So the payload that the function returns has a
  \<^verbatim>\<open>skipRotation\<close> field exactly when the event that it receives has one.
\<close>

definition page_split_keeps_flag :: "world \<Rightarrow> bool" where
  "page_split_keeps_flag w =
     (\<forall>k e p. invoke w (Lambda ''pdf-to-Images'') k e = Inr p \<longrightarrow>
        (json_at [Fld ''skipRotation''] p \<noteq> None) = (json_at [Fld ''skipRotation''] e \<noteq> None))"

section \<open>Lemmas about records and steps\<close>

lemma map_of_set_field:
  "map_of (set_field k v kvs) k' = (if k' = k then Some v else map_of kvs k')"
  by (induction kvs) auto

lemma step_Pass:
  "states m (pos c) = Pass ps rp nxt \<Longrightarrow>
   step sub m w c = exec_pass w (c\<lparr>trace := trace c @ [pos c]\<rparr>) ps rp nxt"
  by (simp add: step_def)

lemma step_Task:
  "states m (pos c) = Task t nxt \<Longrightarrow>
   step sub m w c = exec_task (timeoutSeconds m) w (c\<lparr>trace := trace c @ [pos c]\<rparr>) t nxt"
  by (simp add: step_def)

lemma step_Wait:
  "states m (pos c) = Wait secs nxt \<Longrightarrow>
   step sub m w c =
     sleep (timeoutSeconds m) secs (c\<lparr>trace := trace c @ [pos c]\<rparr>) (\<lambda>c2. leave c2 (doc c2) nxt)"
  by (simp add: step_def)

lemma step_Choice:
  "states m (pos c) = Choice rules dflt \<Longrightarrow>
   step sub m w c = exec_choice (c\<lparr>trace := trace c @ [pos c]\<rparr>) rules dflt"
  by (simp add: step_def)

lemma step_Fail:
  "states m (pos c) = Fail e cause \<Longrightarrow>
   step sub m w c = Halt (c\<lparr>trace := trace c @ [pos c]\<rparr>) (Failed e cause)"
  by (simp add: step_def)

lemma step_flat: "flat m \<Longrightarrow> step sub m w c = step sub' m w c"
  by (cases "states m (pos c)") (auto simp: flat_def step_def dest: spec[of _ "pos c"])

lemma run_advance:
  "flat m \<Longrightarrow>
   run m w (k + n) c =
     (case advance m w k c of
        Goto c' \<Rightarrow> run m w n c'
      | Halt c' out \<Rightarrow> Some (c', out)
      | Pending \<Rightarrow> None)"
proof (induction k arbitrary: c)
  case 0
  then show ?case by simp
next
  case (Suc k)
  have s: "step (\<lambda>b. run m w (k + n) b) m w c = step (\<lambda>b. None) m w c"
    using Suc.prems by (rule step_flat)
  show ?case
    using Suc by (simp add: s split: progress.splits)
qed

lemma advance_add:
  "advance m w (a + b) c =
     (case advance m w a c of
        Goto c' \<Rightarrow> advance m w b c'
      | Halt c' out \<Rightarrow> Halt c' out
      | Pending \<Rightarrow> Pending)"
  by (induction a arbitrary: c) (auto split: progress.splits)

lemma flat_textract: "flat (textract_machine s d)"
  unfolding flat_def
proof
  fix x show "\<not> is_Parallel (states (textract_machine s d) x)"
    by (cases x) (simp_all add: textract_machine_def jobFailed_def jobFinish_def)
qed

lemma tx_poll_request:
  "tx_doc key jid d \<Longrightarrow> task_input (payload getDocumentAnalysis) w d = Some (poll_request jid)"
  by (auto simp: tx_doc_def task_input_def getDocumentAnalysis_def CallAwsService_def poll_request_def)

lemma tx_poll_output:
  assumes "tx_doc key jid d" "json_at [Fld ''JobStatus''] r = Some v"
  shows "\<exists>d'. task_output getDocumentAnalysis w d r = Some d' \<and> tx_doc key jid d'
            \<and> json_at [Fld ''status'', Fld ''JobStatus''] d' = Some v"
  using assms
  by (auto simp: tx_doc_def task_output_def getDocumentAnalysis_def CallAwsService_def
        map_of_set_field split: option.splits)

lemma tx_choice:
  "json_at [Fld ''status'', Fld ''JobStatus''] d = Some v \<Longrightarrow>
   first_match [(StringEquals [Fld ''status'', Fld ''JobStatus''] ''FAILED'', Job_Failed),
             (StringEquals [Fld ''status'', Fld ''JobStatus''] ''SUCCEEDED'', Job_Finish)] d
   = Some (if v = JStr ''FAILED'' then Some Job_Failed
           else if v = JStr ''SUCCEEDED'' then Some Job_Finish else None)"
  by (auto split: option.splits)

lemma tx_wait_poll:
  assumes p: "pos c = Wait_1_minute" and d: "tx_doc key jid (doc c)"
    and st: "polled w jid (calls c (resource getDocumentAnalysis)) = Some v"
    and t: "clock c + 60 \<le> 10800"
  shows "\<exists>c'. advance (textract_machine s dd) w 2 c = Goto c'
           \<and> pos c' = Check_Job_Status \<and> tx_doc key jid (doc c')
           \<and> json_at [Fld ''status'', Fld ''JobStatus''] (doc c') = Some v
           \<and> clock c' = clock c + 60
           \<and> calls c' = (calls c)(resource getDocumentAnalysis := Suc (calls c (resource getDocumentAnalysis)))
           \<and> trace c' = trace c @ [Wait_1_minute, GetDocumentAnalysis]"
proof -
  let ?M = "textract_machine s dd"
  let ?G = "resource getDocumentAnalysis"
  define c1 where "c1 = c\<lparr>trace := trace c @ [Wait_1_minute], clock := clock c + 60, pos := GetDocumentAnalysis, attempts := 0\<rparr>"
  have s1: "step (\<lambda>b. None) ?M w c = Goto c1"
    using p t by (simp add: step_def textract_machine_def minutes_def sleep_def leave_def c1_def)
  obtain r where r: "invoke w ?G (calls c ?G) (poll_request jid) = Inr r"
    and rv: "json_at [Fld ''JobStatus''] r = Some v"
    using st by (auto simp: polled_def split: sum.splits)
  obtain d' where o: "task_output getDocumentAnalysis w (doc c) r = Some d'"
    and d': "tx_doc key jid d'" and sv: "json_at [Fld ''status'', Fld ''JobStatus''] d' = Some v"
    using tx_poll_output[OF d rv] by blast
  define c2 where "c2 = c1\<lparr>trace := trace c1 @ [GetDocumentAnalysis],
      calls := (calls c)(?G := Suc (calls c ?G)), pos := Check_Job_Status, doc := d', attempts := 0\<rparr>"
  have e: "envelope ?G (poll_request jid) r = r"
    by (simp add: envelope_def getDocumentAnalysis_def CallAwsService_def)
  have s2: "step (\<lambda>b. None) ?M w c1 = Goto c2"
    using tx_poll_request[OF d, of w] r o e
    by (simp add: step_def textract_machine_def exec_task_def leave_def c1_def c2_def Let_def)
  have "advance ?M w 2 c = Goto c2"
    by (simp add: numeral_2_eq_2 s1 s2)
  then show ?thesis
    using d' sv by (auto simp: c2_def c1_def)
qed


lemma tx_iter:
  assumes p: "pos c = Wait_1_minute" and d: "tx_doc key jid (doc c)"
    and st: "pending (polled w jid (calls c (resource getDocumentAnalysis)))"
    and t: "clock c + 60 \<le> 10800"
  shows "\<exists>c'. advance (textract_machine s dd) w 3 c = Goto c'
           \<and> pos c' = Wait_1_minute \<and> tx_doc key jid (doc c')
           \<and> clock c' = clock c + 60
           \<and> calls c' = (calls c)(resource getDocumentAnalysis := Suc (calls c (resource getDocumentAnalysis)))
           \<and> trace c' = trace c @ [Wait_1_minute, GetDocumentAnalysis, Check_Job_Status]"
proof -
  let ?M = "textract_machine s dd"
  obtain v where v: "polled w jid (calls c (resource getDocumentAnalysis)) = Some v"
    and nf: "v \<noteq> JStr ''FAILED''" and ns: "v \<noteq> JStr ''SUCCEEDED''"
    using st by (auto simp: pending_def)
  obtain c2 where a2: "advance ?M w 2 c = Goto c2" and p2: "pos c2 = Check_Job_Status"
    and d2: "tx_doc key jid (doc c2)"
    and s2: "json_at [Fld ''status'', Fld ''JobStatus''] (doc c2) = Some v"
    and k2: "clock c2 = clock c + 60"
    and l2: "calls c2 = (calls c)(resource getDocumentAnalysis := Suc (calls c (resource getDocumentAnalysis)))"
    and t2: "trace c2 = trace c @ [Wait_1_minute, GetDocumentAnalysis]"
    using tx_wait_poll[OF p d v t, of s dd] by blast
  define c3 where "c3 = c2\<lparr>trace := trace c2 @ [Check_Job_Status], pos := Wait_1_minute, attempts := 0\<rparr>"
  have fm: "first_match [(StringEquals [Fld ''status'', Fld ''JobStatus''] ''FAILED'', Job_Failed),
             (StringEquals [Fld ''status'', Fld ''JobStatus''] ''SUCCEEDED'', Job_Finish)] (doc c2)
        = Some None"
    unfolding tx_choice[OF s2] using nf ns by simp
  have s3: "step (\<lambda>b. None) ?M w c2 = Goto c3"
    using p2
    by (simp add: step_def textract_machine_def exec_choice_def c3_def fm del: first_match.simps)
  have "advance ?M w (2 + 1) c = Goto c3"
    unfolding advance_add by (simp add: a2 s3)
  then show ?thesis
    using d2 k2 l2 t2 by (auto simp: c3_def)
qed

lemma tx_loop:
  assumes "pos c = Wait_1_minute" and "tx_doc key jid (doc c)"
    and "\<forall>i<k. pending (polled w jid (calls c (resource getDocumentAnalysis) + i))"
    and "clock c + 60 * k \<le> 10800"
  shows "\<exists>c'. advance (textract_machine s dd) w (3 * k) c = Goto c'
           \<and> pos c' = Wait_1_minute \<and> tx_doc key jid (doc c')
           \<and> clock c' = clock c + 60 * k
           \<and> calls c' = (calls c)(resource getDocumentAnalysis := calls c (resource getDocumentAnalysis) + k)"
  using assms
proof (induction k arbitrary: c)
  case 0
  then show ?case by simp
next
  case (Suc k)
  let ?G = "resource getDocumentAnalysis"
  have "pending (polled w jid (calls c ?G))"
    using Suc.prems(3) by (metis add.right_neutral zero_less_Suc)
  moreover have "clock c + 60 \<le> 10800" using Suc.prems(4) by simp
  ultimately obtain c1 where a1: "advance (textract_machine s dd) w 3 c = Goto c1"
    and p1: "pos c1 = Wait_1_minute" and d1: "tx_doc key jid (doc c1)"
    and k1: "clock c1 = clock c + 60"
    and l1: "calls c1 = (calls c)(?G := Suc (calls c ?G))"
    using tx_iter[OF Suc.prems(1) Suc.prems(2), of w s dd] by blast
  have pend: "\<forall>i<k. pending (polled w jid (calls c1 ?G + i))"
  proof (intro allI impI)
    fix i assume "i < k"
    then have "Suc i < Suc k" by simp
    with Suc.prems(3) have "pending (polled w jid (calls c ?G + Suc i))"
      by blast
    then show "pending (polled w jid (calls c1 ?G + i))"
      by (simp add: l1)
  qed
  have tm: "clock c1 + 60 * k \<le> 10800" using Suc.prems(4) k1 by simp
  obtain c' where a': "advance (textract_machine s dd) w (3 * k) c1 = Goto c'"
    and p': "pos c' = Wait_1_minute" and d': "tx_doc key jid (doc c')"
    and k': "clock c' = clock c1 + 60 * k"
    and l': "calls c' = (calls c1)(?G := calls c1 ?G + k)"
    using Suc.IH[OF p1 d1 pend tm] by blast
  have "advance (textract_machine s dd) w (3 * Suc k) c
      = advance (textract_machine s dd) w (3 + 3 * k) c"
    by simp
  also have "\<dots> = Goto c'"
    unfolding advance_add by (simp add: a1 a')
  finally show ?case
    using p' d' k' l' k1 l1 by auto
qed

lemma tx_submit:
  assumes key: "json_at [Fld ''key''] input = Some (JStr key)"
    and req: "task_input (payload (runAmazonTextract s dd)) w input = Some req"
    and sub: "invoke w (resource (runAmazonTextract s dd)) 0 req = Inr resp"
    and jid: "json_at [Fld ''JobId''] resp = Some (JStr jid)"
  shows "\<exists>c'. advance (textract_machine s dd) w 1 (start (textract_machine s dd) input) = Goto c'
           \<and> pos c' = Wait_1_minute \<and> tx_doc key jid (doc c')
           \<and> clock c' = 0
           \<and> calls c' = (\<lambda>r. 0)(resource (runAmazonTextract s dd) := 1)
           \<and> trace c' = [RunAmazonTextract]"
proof -
  obtain kvs where i: "input = JObj kvs" and k: "map_of kvs ''key'' = Some (JStr key)"
    using key by (cases input) (auto split: option.splits)
  have o: "task_output (runAmazonTextract s dd) w input (envelope (resource (runAmazonTextract s dd)) req resp)
      = Some (JObj (set_field ''textract'' (JObj [(''JobId'', JStr jid)]) kvs))"
    using jid i
    by (simp add: task_output_def runAmazonTextract_def CallAwsService_def envelope_def split: option.splits)
  have d: "tx_doc key jid (JObj (set_field ''textract'' (JObj [(''JobId'', JStr jid)]) kvs))"
    using k by (simp add: tx_doc_def map_of_set_field)
  show ?thesis
    using req sub o d
    by (simp add: start_def step_def textract_machine_def exec_task_def leave_def Let_def)
qed

lemma res_neq: "resource (runAmazonTextract s dd) \<noteq> resource getDocumentAnalysis"
  by (simp add: runAmazonTextract_def getDocumentAnalysis_def CallAwsService_def)

lemma tx_finish_doc:
  "tx_doc key jid d \<Longrightarrow>
   eval_tmpl (Obj [(''key'', Path [Fld ''key'']),
                   (''JobId'', Path [Fld ''textract'', Fld ''JobId'']),
                   (''textractPrefix'',
                      Format ''{}/{}'' [[Fld ''key''], [Fld ''textract'', Fld ''JobId'']])]) cx d
   = Some (JObj [(''key'', JStr key), (''JobId'', JStr jid),
                 (''textractPrefix'', JStr (key @ ''/'' @ jid))])"
  by (auto simp: tx_doc_def)

lemma tx_end:
  assumes p: "pos c = Wait_1_minute" and d: "tx_doc key jid (doc c)"
    and st: "polled w jid (calls c (resource getDocumentAnalysis)) = Some v"
    and v: "v = JStr ''FAILED'' \<or> v = JStr ''SUCCEEDED''"
    and t: "clock c + 60 \<le> 10800"
  shows "\<exists>c'. advance (textract_machine s dd) w 4 c =
             Halt c' (if v = JStr ''FAILED''
                      then Failed ''DescribeJob returned FAILED'' ''Amazon Textract Job Failed''
                      else Succeeded (JObj [(''key'', JStr key), (''JobId'', JStr jid),
                                            (''textractPrefix'', JStr (key @ ''/'' @ jid))]))
           \<and> clock c' = clock c + 60
           \<and> calls c' = (calls c)(resource getDocumentAnalysis := Suc (calls c (resource getDocumentAnalysis)))"
proof -
  let ?M = "textract_machine s dd"
  obtain c2 where a2: "advance ?M w 2 c = Goto c2" and p2: "pos c2 = Check_Job_Status"
    and d2: "tx_doc key jid (doc c2)"
    and s2: "json_at [Fld ''status'', Fld ''JobStatus''] (doc c2) = Some v"
    and k2: "clock c2 = clock c + 60"
    and l2: "calls c2 = (calls c)(resource getDocumentAnalysis := Suc (calls c (resource getDocumentAnalysis)))"
    using tx_wait_poll[OF p d st t, of s dd] by blast
  define c3 where "c3 = c2\<lparr>trace := trace c2 @ [Check_Job_Status],
     pos := (if v = JStr ''FAILED'' then Job_Failed else Job_Finish), attempts := 0\<rparr>"
  have fm: "first_match [(StringEquals [Fld ''status'', Fld ''JobStatus''] ''FAILED'', Job_Failed),
             (StringEquals [Fld ''status'', Fld ''JobStatus''] ''SUCCEEDED'', Job_Finish)] (doc c2)
        = Some (Some (if v = JStr ''FAILED'' then Job_Failed else Job_Finish))"
    unfolding tx_choice[OF s2] using v by auto
  have s3: "step (\<lambda>b. None) ?M w c2 = Goto c3"
    using p2
    by (simp add: step_def textract_machine_def exec_choice_def c3_def fm del: first_match.simps)
  have d3: "tx_doc key jid (doc c3)" using d2 by (simp add: c3_def)
  have s4: "\<exists>c4. step (\<lambda>b. None) ?M w c3 =
             Halt c4 (if v = JStr ''FAILED''
                      then Failed ''DescribeJob returned FAILED'' ''Amazon Textract Job Failed''
                      else Succeeded (JObj [(''key'', JStr key), (''JobId'', JStr jid),
                                            (''textractPrefix'', JStr (key @ ''/'' @ jid))]))
          \<and> clock c4 = clock c3 \<and> calls c4 = calls c3"
  proof (cases "v = JStr ''FAILED''")
    case True
    then show ?thesis
      by (simp add: step_def textract_machine_def c3_def jobFailed_def)
  next
    case False
    then have "pos c3 = Job_Finish" by (simp add: c3_def)
    then show ?thesis
      using False tx_finish_doc[OF d3, of "context_object w"]
      by (simp add: step_def textract_machine_def jobFinish_def exec_pass_def leave_def
            del: eval_tmpl.simps)
  qed
  then obtain c4 where s4': "step (\<lambda>b. None) ?M w c3 =
             Halt c4 (if v = JStr ''FAILED''
                      then Failed ''DescribeJob returned FAILED'' ''Amazon Textract Job Failed''
                      else Succeeded (JObj [(''key'', JStr key), (''JobId'', JStr jid),
                                            (''textractPrefix'', JStr (key @ ''/'' @ jid))]))"
    and k4: "clock c4 = clock c3" and l4: "calls c4 = calls c3"
    by blast
  have b2: "advance ?M w 2 c2 = Halt c4 (if v = JStr ''FAILED''
                      then Failed ''DescribeJob returned FAILED'' ''Amazon Textract Job Failed''
                      else Succeeded (JObj [(''key'', JStr key), (''JobId'', JStr jid),
                                            (''textractPrefix'', JStr (key @ ''/'' @ jid))]))"
    by (simp add: numeral_2_eq_2 s3 s4')
  have "advance ?M w (2 + 2) c = Halt c4 (if v = JStr ''FAILED''
                      then Failed ''DescribeJob returned FAILED'' ''Amazon Textract Job Failed''
                      else Succeeded (JObj [(''key'', JStr key), (''JobId'', JStr jid),
                                            (''textractPrefix'', JStr (key @ ''/'' @ jid))]))"
    by (simp only: advance_add a2 b2 progress.case)
  moreover have "(4::nat) = 2 + 2" by simp
  ultimately have "advance ?M w 4 c = Halt c4 (if v = JStr ''FAILED''
                      then Failed ''DescribeJob returned FAILED'' ''Amazon Textract Job Failed''
                      else Succeeded (JObj [(''key'', JStr key), (''JobId'', JStr jid),
                                            (''textractPrefix'', JStr (key @ ''/'' @ jid))]))"
    by (simp only:)
  then show ?thesis
    using k4 l4 k2 l2 by (auto simp: c3_def)
qed

lemma tx_run:
  assumes key: "json_at [Fld ''key''] input = Some (JStr key)"
    and req: "task_input (payload (runAmazonTextract s dd)) w input = Some req"
    and sub: "invoke w (resource (runAmazonTextract s dd)) 0 req = Inr resp"
    and jid: "json_at [Fld ''JobId''] resp = Some (JStr jid)"
    and pend: "\<forall>i<n. pending (polled w jid i)"
    and fin: "polled w jid n = Some v" "v = JStr ''FAILED'' \<or> v = JStr ''SUCCEEDED''"
    and time: "Suc n \<le> 180"
  shows "\<exists>c. execute (textract_machine s dd) w (3 * n + 5 + extra) input =
             Some (c, if v = JStr ''FAILED''
                      then Failed ''DescribeJob returned FAILED'' ''Amazon Textract Job Failed''
                      else Succeeded (JObj [(''key'', JStr key), (''JobId'', JStr jid),
                                            (''textractPrefix'', JStr (key @ ''/'' @ jid))]))
           \<and> clock c = minutes (Suc n)
           \<and> calls c (resource (runAmazonTextract s dd)) = 1
           \<and> calls c (resource getDocumentAnalysis) = Suc n"
proof -
  let ?M = "textract_machine s dd"
  let ?G = "resource getDocumentAnalysis"
  let ?out = "if v = JStr ''FAILED''
                      then Failed ''DescribeJob returned FAILED'' ''Amazon Textract Job Failed''
                      else Succeeded (JObj [(''key'', JStr key), (''JobId'', JStr jid),
                                            (''textractPrefix'', JStr (key @ ''/'' @ jid))])"
  obtain c1 where a1: "advance ?M w 1 (start ?M input) = Goto c1"
    and p1: "pos c1 = Wait_1_minute" and d1: "tx_doc key jid (doc c1)" and k1: "clock c1 = 0"
    and l1: "calls c1 = (\<lambda>r. 0)(resource (runAmazonTextract s dd) := 1)"
    using tx_submit[OF key req sub jid] by blast
  have g1: "calls c1 ?G = 0" using res_neq[of s dd] by (simp add: l1)
  have pend1: "\<forall>i<n. pending (polled w jid (calls c1 ?G + i))" using pend g1 by simp
  have t1: "clock c1 + 60 * n \<le> 10800" using time k1 by simp
  obtain c2 where a2: "advance ?M w (3 * n) c1 = Goto c2"
    and p2: "pos c2 = Wait_1_minute" and d2: "tx_doc key jid (doc c2)"
    and k2: "clock c2 = clock c1 + 60 * n"
    and l2: "calls c2 = (calls c1)(?G := calls c1 ?G + n)"
    using tx_loop[OF p1 d1 pend1 t1, of s dd] by blast
  have g2: "calls c2 ?G = n" using g1 by (simp add: l2)
  have st: "polled w jid (calls c2 ?G) = Some v" using fin(1) g2 by simp
  have t2: "clock c2 + 60 \<le> 10800" using time k1 k2 by simp
  obtain c3 where a3: "advance ?M w 4 c2 = Halt c3 ?out"
    and k3: "clock c3 = clock c2 + 60"
    and l3: "calls c3 = (calls c2)(?G := Suc (calls c2 ?G))"
    using tx_end[OF p2 d2 st fin(2) t2, of s dd] by blast
  have adv: "advance ?M w (1 + (3 * n + 4)) (start ?M input) = Halt c3 ?out"
    by (simp only: advance_add a1 a2 a3 progress.case)
  have r: "run ?M w ((1 + (3 * n + 4)) + extra) (start ?M input) = Some (c3, ?out)"
    by (simp only: run_advance[OF flat_textract] adv progress.case)
  have e: "3 * n + 5 + extra = (1 + (3 * n + 4)) + extra" by simp
  have "execute ?M w (3 * n + 5 + extra) input = Some (c3, ?out)"
    unfolding execute_def e by (rule r)
  moreover have "clock c3 = minutes (Suc n)" using k3 k2 k1 by (simp add: minutes_def)
  moreover have "calls c3 (resource (runAmazonTextract s dd)) = 1"
    using res_neq[of s dd] by (simp add: l3 l2 l1)
  moreover have "calls c3 ?G = Suc n" using g2 by (simp add: l3)
  ultimately show ?thesis by blast
qed

section \<open>The claims about the job runner\<close>

text \<open>
  C2. When the submission returns job \<open>jid\<close>, the first \<open>n\<close> polls read a status
  that is not final and poll \<open>n\<close> reads \<^verbatim>\<open>SUCCEEDED\<close> within the machine's timeout,
  the runner ends successfully, and its result is the record of the input key, the job
  identifier and the prefix \<^verbatim>\<open><key>/<jobId>\<close>. Every budget of at least \<open>3n + 5\<close>
  states gives this result.
\<close>

theorem textract_succeeded:
  assumes "json_at [Fld ''key''] input = Some (JStr key)"
    and "task_input (payload (runAmazonTextract s d)) w input = Some req"
    and "invoke w (resource (runAmazonTextract s d)) 0 req = Inr resp"
    and "json_at [Fld ''JobId''] resp = Some (JStr jid)"
    and "\<forall>i<n. pending (polled w jid i)"
    and "polled w jid n = Some (JStr ''SUCCEEDED'')"
    and "minutes (Suc n) \<le> timeoutSeconds (textract_machine s d)"
  shows "\<exists>c. execute (textract_machine s d) w (3 * n + 5 + extra) input =
           Some (c, Succeeded (JObj [(''key'', JStr key), (''JobId'', JStr jid),
                                     (''textractPrefix'', JStr (key @ ''/'' @ jid))]))"
proof -
  have t: "Suc n \<le> 180"
    using assms(7) by (simp add: minutes_def textract_machine_def)
  have v: "JStr ''SUCCEEDED'' = JStr ''FAILED'' \<or> JStr ''SUCCEEDED'' = JStr ''SUCCEEDED''"
    by simp
  from tx_run[OF assms(1-6) v t, of extra] show ?thesis
    by auto
qed

theorem textract_succeeded_witness:
  "\<exists>c. execute (textract_machine ''src'' ''dst'') (sample_world ''SUCCEEDED'' 2) 11
          (JObj [(''key'', JStr ''a.pdf'')]) =
        Some (c, Succeeded (JObj [(''key'', JStr ''a.pdf''), (''JobId'', JStr ''job-1''),
                                  (''textractPrefix'', JStr ''a.pdf/job-1'')]))"
proof -
  let ?w = "sample_world ''SUCCEEDED'' 2"
  let ?i = "JObj [(''key'', JStr ''a.pdf'')]"
  define req where "req = the (task_input (payload (runAmazonTextract ''src'' ''dst'')) ?w ?i)"
  have h1: "json_at [Fld ''key''] ?i = Some (JStr ''a.pdf'')" by simp
  have h2: "task_input (payload (runAmazonTextract ''src'' ''dst'')) ?w ?i = Some req"
    by (simp add: req_def task_input_def runAmazonTextract_def CallAwsService_def sample_world_def)
  have h3: "invoke ?w (resource (runAmazonTextract ''src'' ''dst'')) 0 req
      = Inr (JObj [(''JobId'', JStr ''job-1'')])"
    by (simp add: sample_world_def runAmazonTextract_def CallAwsService_def)
  have h4: "json_at [Fld ''JobId''] (JObj [(''JobId'', JStr ''job-1'')]) = Some (JStr ''job-1'')"
    by simp
  have h5: "\<forall>i<2. pending (polled ?w ''job-1'' i)"
    by (simp add: pending_def polled_def sample_world_def getDocumentAnalysis_def CallAwsService_def)
  have h6: "polled ?w ''job-1'' 2 = Some (JStr ''SUCCEEDED'')"
    by (simp add: polled_def sample_world_def getDocumentAnalysis_def CallAwsService_def)
  have h7: "minutes (Suc 2) \<le> timeoutSeconds (textract_machine ''src'' ''dst'')"
    by (simp add: minutes_def textract_machine_def)
  show ?thesis
    using textract_succeeded[OF h1 h2 h3 h4 h5 h6 h7, of 0] by simp
qed

text \<open>
  C3. When poll \<open>n\<close> reads \<^verbatim>\<open>FAILED\<close>, however many polls came before it, the
  execution ends in the Fail state with the fixed error and cause; the job has been
  submitted once and polled \<open>n + 1\<close> times.
\<close>

theorem textract_failed:
  assumes "json_at [Fld ''key''] input = Some (JStr key)"
    and "task_input (payload (runAmazonTextract s d)) w input = Some req"
    and "invoke w (resource (runAmazonTextract s d)) 0 req = Inr resp"
    and "json_at [Fld ''JobId''] resp = Some (JStr jid)"
    and "\<forall>i<n. pending (polled w jid i)"
    and "polled w jid n = Some (JStr ''FAILED'')"
    and "minutes (Suc n) \<le> timeoutSeconds (textract_machine s d)"
  shows "\<exists>c. execute (textract_machine s d) w (3 * n + 5 + extra) input =
           Some (c, Failed ''DescribeJob returned FAILED'' ''Amazon Textract Job Failed'')
         \<and> calls c (resource (runAmazonTextract s d)) = 1
         \<and> calls c (resource getDocumentAnalysis) = Suc n"
proof -
  have t: "Suc n \<le> 180"
    using assms(7) by (simp add: minutes_def textract_machine_def)
  have v: "JStr ''FAILED'' = JStr ''FAILED'' \<or> JStr ''FAILED'' = JStr ''SUCCEEDED''"
    by simp
  from tx_run[OF assms(1-6) v t, of extra] show ?thesis
    by auto
qed

theorem textract_failed_witness:
  "\<exists>c. execute (textract_machine ''src'' ''dst'') (sample_world ''FAILED'' 3) 14
          (JObj [(''key'', JStr ''a.pdf'')]) =
        Some (c, Failed ''DescribeJob returned FAILED'' ''Amazon Textract Job Failed'')
      \<and> calls c (resource (runAmazonTextract ''src'' ''dst'')) = 1
      \<and> calls c (resource getDocumentAnalysis) = 4"
proof -
  let ?w = "sample_world ''FAILED'' 3"
  let ?i = "JObj [(''key'', JStr ''a.pdf'')]"
  define req where "req = the (task_input (payload (runAmazonTextract ''src'' ''dst'')) ?w ?i)"
  have h1: "json_at [Fld ''key''] ?i = Some (JStr ''a.pdf'')" by simp
  have h2: "task_input (payload (runAmazonTextract ''src'' ''dst'')) ?w ?i = Some req"
    by (simp add: req_def task_input_def runAmazonTextract_def CallAwsService_def sample_world_def)
  have h3: "invoke ?w (resource (runAmazonTextract ''src'' ''dst'')) 0 req
      = Inr (JObj [(''JobId'', JStr ''job-1'')])"
    by (simp add: sample_world_def runAmazonTextract_def CallAwsService_def)
  have h4: "json_at [Fld ''JobId''] (JObj [(''JobId'', JStr ''job-1'')]) = Some (JStr ''job-1'')"
    by simp
  have h5: "\<forall>i<3. pending (polled ?w ''job-1'' i)"
    by (simp add: pending_def polled_def sample_world_def getDocumentAnalysis_def CallAwsService_def)
  have h6: "polled ?w ''job-1'' 3 = Some (JStr ''FAILED'')"
    by (simp add: polled_def sample_world_def getDocumentAnalysis_def CallAwsService_def)
  have h7: "minutes (Suc 3) \<le> timeoutSeconds (textract_machine ''src'' ''dst'')"
    by (simp add: minutes_def textract_machine_def)
  show ?thesis
    using textract_failed[OF h1 h2 h3 h4 h5 h6 h7, of 0] by simp
qed

lemma tx_wait:
  assumes "pos c = Wait_1_minute"
  shows "advance (textract_machine s d) w 1 c =
     (if timeoutSeconds (textract_machine s d) < clock c + minutes 1
      then Halt (c\<lparr>trace := trace c @ [Wait_1_minute], clock := timeoutSeconds (textract_machine s d)\<rparr>) TimedOut
      else Goto (c\<lparr>trace := trace c @ [Wait_1_minute], clock := clock c + minutes 1,
                   pos := GetDocumentAnalysis, attempts := 0\<rparr>))"
  using assms by (simp add: step_def textract_machine_def sleep_def leave_def)

text \<open>
  C5. The wait of the runner lasts one minute and its timeout is 180 minutes. After
  the submission, as long as the polls so far have read a status that is not final,
  the next poll is made one minute after the one before it: poll \<open>k\<close> is made when
  \<open>k + 1\<close> minutes have been waited. When the first 180 polls read no final status,
  the next wait passes the timeout and the execution ends timed out.
\<close>

theorem textract_polls_every_minute:
  assumes "json_at [Fld ''key''] input = Some (JStr key)"
    and "task_input (payload (runAmazonTextract s d)) w input = Some req"
    and "invoke w (resource (runAmazonTextract s d)) 0 req = Inr resp"
    and "json_at [Fld ''JobId''] resp = Some (JStr jid)"
    and "\<forall>i<k. pending (polled w jid i)"
  shows "states (textract_machine s d) Wait_1_minute = Wait (minutes 1) (Some GetDocumentAnalysis)
       \<and> timeoutSeconds (textract_machine s d) = minutes 180
       \<and> (if minutes (Suc k) \<le> timeoutSeconds (textract_machine s d)
          then \<exists>c. advance (textract_machine s d) w (3 * k + 2) (start (textract_machine s d) input) = Goto c
                 \<and> pos c = GetDocumentAnalysis \<and> clock c = minutes (Suc k)
                 \<and> calls c (resource getDocumentAnalysis) = k
          else \<exists>c. execute (textract_machine s d) w (542 + extra) input = Some (c, TimedOut)
                 \<and> calls c (resource getDocumentAnalysis) = 180)"
proof -
  let ?M = "textract_machine s d"
  let ?G = "resource getDocumentAnalysis"
  obtain c1 where a1: "advance ?M w 1 (start ?M input) = Goto c1"
    and p1: "pos c1 = Wait_1_minute" and d1: "tx_doc key jid (doc c1)" and k1: "clock c1 = 0"
    and l1: "calls c1 = (\<lambda>r. 0)(resource (runAmazonTextract s d) := 1)"
    using tx_submit[OF assms(1-4)] by blast
  have g1: "calls c1 ?G = 0" using res_neq[of s d] by (simp add: l1)
  have lim: "timeoutSeconds ?M = 10800" by (simp add: textract_machine_def minutes_def)
  have A: "\<exists>c. advance ?M w (3 * k + 2) (start ?M input) = Goto c
                 \<and> pos c = GetDocumentAnalysis \<and> clock c = minutes (Suc k)
                 \<and> calls c ?G = k"
    if le: "minutes (Suc k) \<le> timeoutSeconds ?M"
  proof -
    have t1: "clock c1 + 60 * k \<le> 10800" using le k1 by (simp add: lim minutes_def)
    have pend1: "\<forall>i<k. pending (polled w jid (calls c1 ?G + i))" using assms(5) g1 by simp
    obtain c2 where a2: "advance ?M w (3 * k) c1 = Goto c2"
      and p2: "pos c2 = Wait_1_minute"
      and k2: "clock c2 = clock c1 + 60 * k"
      and l2: "calls c2 = (calls c1)(?G := calls c1 ?G + k)"
      using tx_loop[OF p1 d1 pend1 t1, of s d] by blast
    have n2: "\<not> timeoutSeconds ?M < clock c2 + minutes 1"
      using le k1 k2 by (simp add: lim minutes_def)
    define c3 where "c3 = c2\<lparr>trace := trace c2 @ [Wait_1_minute], clock := clock c2 + minutes 1,
                   pos := GetDocumentAnalysis, attempts := 0\<rparr>"
    have a3: "advance ?M w 1 c2 = Goto c3"
      unfolding tx_wait[OF p2] c3_def using n2 by simp
    have "advance ?M w (1 + (3 * k + 1)) (start ?M input) = Goto c3"
      by (simp only: advance_add a1 a2 a3 progress.case)
    moreover have "3 * k + 2 = 1 + (3 * k + 1)" by simp
    ultimately have "advance ?M w (3 * k + 2) (start ?M input) = Goto c3" by (simp only:)
    moreover have "pos c3 = GetDocumentAnalysis" by (simp add: c3_def)
    moreover have "clock c3 = minutes (Suc k)" using k1 k2 by (simp add: c3_def minutes_def)
    moreover have "calls c3 ?G = k" using g1 by (simp add: c3_def l2)
    ultimately show ?thesis by blast
  qed
  have B: "\<exists>c. execute ?M w (542 + extra) input = Some (c, TimedOut) \<and> calls c ?G = 180"
    if gt: "\<not> minutes (Suc k) \<le> timeoutSeconds ?M"
  proof -
    have k180: "180 \<le> k" using gt by (simp add: lim minutes_def)
    have t1: "clock c1 + 60 * 180 \<le> 10800" using k1 by simp
    have pend1: "\<forall>i<180. pending (polled w jid (calls c1 ?G + i))"
      using assms(5) g1 k180 by simp
    obtain c2 where a2: "advance ?M w (3 * 180) c1 = Goto c2"
      and p2: "pos c2 = Wait_1_minute"
      and k2: "clock c2 = clock c1 + 60 * 180"
      and l2: "calls c2 = (calls c1)(?G := calls c1 ?G + 180)"
      using tx_loop[OF p1 d1 pend1 t1, of s d] by blast
    have n2: "timeoutSeconds ?M < clock c2 + minutes 1"
      using k1 k2 by (simp add: lim minutes_def)
    define c3 where "c3 = c2\<lparr>trace := trace c2 @ [Wait_1_minute], clock := timeoutSeconds ?M\<rparr>"
    have a3: "advance ?M w 1 c2 = Halt c3 TimedOut"
      unfolding tx_wait[OF p2] c3_def using n2 by simp
    have adv: "advance ?M w (1 + (3 * 180 + 1)) (start ?M input) = Halt c3 TimedOut"
      by (simp only: advance_add a1 a2 a3 progress.case)
    have r: "run ?M w ((1 + (3 * 180 + 1)) + extra) (start ?M input) = Some (c3, TimedOut)"
      by (simp only: run_advance[OF flat_textract] adv progress.case)
    have e: "542 + extra = (1 + (3 * 180 + 1)) + extra" by simp
    have "execute ?M w (542 + extra) input = Some (c3, TimedOut)"
      unfolding execute_def e by (rule r)
    moreover have "calls c3 ?G = 180" using g1 by (simp add: c3_def l2)
    ultimately show ?thesis by blast
  qed
  have "states ?M Wait_1_minute = Wait (minutes 1) (Some GetDocumentAnalysis)"
    by (simp add: textract_machine_def)
  moreover have "timeoutSeconds ?M = minutes 180" by (simp add: textract_machine_def)
  ultimately show ?thesis using A B by presburger
qed

theorem textract_polls_every_minute_witness:
  "(\<exists>c. advance (textract_machine ''src'' ''dst'') (sample_world ''SUCCEEDED'' 7) 23
          (start (textract_machine ''src'' ''dst'') (JObj [(''key'', JStr ''a.pdf'')])) = Goto c
        \<and> pos c = GetDocumentAnalysis \<and> clock c = minutes 8
        \<and> calls c (resource getDocumentAnalysis) = 7)
   \<and> (\<exists>c. execute (textract_machine ''src'' ''dst'') (sample_world ''SUCCEEDED'' 200) 542
          (JObj [(''key'', JStr ''a.pdf'')]) = Some (c, TimedOut)
        \<and> calls c (resource getDocumentAnalysis) = 180)"
proof -
  let ?i = "JObj [(''key'', JStr ''a.pdf'')]"
  have h1: "json_at [Fld ''key''] ?i = Some (JStr ''a.pdf'')" by simp
  have h4: "json_at [Fld ''JobId''] (JObj [(''JobId'', JStr ''job-1'')]) = Some (JStr ''job-1'')"
    by simp
  have A: "\<exists>c. advance (textract_machine ''src'' ''dst'') (sample_world ''SUCCEEDED'' 7) 23
          (start (textract_machine ''src'' ''dst'') ?i) = Goto c
        \<and> pos c = GetDocumentAnalysis \<and> clock c = minutes 8
        \<and> calls c (resource getDocumentAnalysis) = 7"
  proof -
    let ?w = "sample_world ''SUCCEEDED'' 7"
    define req where "req = the (task_input (payload (runAmazonTextract ''src'' ''dst'')) ?w ?i)"
    have h2: "task_input (payload (runAmazonTextract ''src'' ''dst'')) ?w ?i = Some req"
      by (simp add: req_def task_input_def runAmazonTextract_def CallAwsService_def sample_world_def)
    have h3: "invoke ?w (resource (runAmazonTextract ''src'' ''dst'')) 0 req
        = Inr (JObj [(''JobId'', JStr ''job-1'')])"
      by (simp add: sample_world_def runAmazonTextract_def CallAwsService_def)
    have h5: "\<forall>i<7. pending (polled ?w ''job-1'' i)"
      by (simp add: pending_def polled_def sample_world_def getDocumentAnalysis_def CallAwsService_def)
    show ?thesis
      using textract_polls_every_minute[OF h1 h2 h3 h4 h5, of 0]
      by (simp add: minutes_def textract_machine_def)
  qed
  have B: "\<exists>c. execute (textract_machine ''src'' ''dst'') (sample_world ''SUCCEEDED'' 200) 542
          ?i = Some (c, TimedOut)
        \<and> calls c (resource getDocumentAnalysis) = 180"
  proof -
    let ?w = "sample_world ''SUCCEEDED'' 200"
    define req where "req = the (task_input (payload (runAmazonTextract ''src'' ''dst'')) ?w ?i)"
    have h2: "task_input (payload (runAmazonTextract ''src'' ''dst'')) ?w ?i = Some req"
      by (simp add: req_def task_input_def runAmazonTextract_def CallAwsService_def sample_world_def)
    have h3: "invoke ?w (resource (runAmazonTextract ''src'' ''dst'')) 0 req
        = Inr (JObj [(''JobId'', JStr ''job-1'')])"
      by (simp add: sample_world_def runAmazonTextract_def CallAwsService_def)
    have h5: "\<forall>i<200. pending (polled ?w ''job-1'' i)"
      by (simp add: pending_def polled_def sample_world_def getDocumentAnalysis_def CallAwsService_def)
    show ?thesis
      using textract_polls_every_minute[OF h1 h2 h3 h4 h5, of 0]
      by (simp add: minutes_def textract_machine_def)
  qed
  show ?thesis using A B by blast
qed

lemma token_table_honours: "honours_token token_table_service"
  by (auto simp: honours_token_def token_table_service_def Let_def split: option.splits)

lemma submit_request_fields:
  assumes "task_input (payload (runAmazonTextract s d)) w input = Some req"
  shows "json_at [Fld ''ClientRequestToken''] req = json_at [Fld ''Execution'', Fld ''Name''] (context_object w)"
    and "json_at [Fld ''JobTag''] req = json_at [Fld ''Execution'', Fld ''Name''] (context_object w)"
    and "json_at [Fld ''Execution'', Fld ''Name''] (context_object w) \<noteq> None"
  using assms
  by (auto simp: task_input_def runAmazonTextract_def CallAwsService_def split: option.splits)

text \<open>
  C10. The start request of the submission step carries the execution's name, read
  from the context object, both as \<^verbatim>\<open>ClientRequestToken\<close> and as \<^verbatim>\<open>JobTag\<close>, whatever
  the input. Two submissions of one execution therefore carry the same token, and a
  service that honours the token answers the second with the job of the first and
  starts nothing new.
\<close>

theorem submission_is_idempotent:
  assumes "task_input (payload (runAmazonTextract s d)) w input1 = Some r1"
    and "task_input (payload (runAmazonTextract s d)) w input2 = Some r2"
    and "honours_token svc"
  shows "json_at [Fld ''ClientRequestToken''] r1 = json_at [Fld ''Execution'', Fld ''Name''] (context_object w)
       \<and> json_at [Fld ''JobTag''] r1 = json_at [Fld ''Execution'', Fld ''Name''] (context_object w)
       \<and> json_at [Fld ''Execution'', Fld ''Name''] (context_object w) \<noteq> None
       \<and> svc (snd (svc st r1)) r2 = svc st r1"
proof -
  note f1 = submit_request_fields[OF assms(1)]
  note f2 = submit_request_fields[OF assms(2)]
  have "json_at [Fld ''ClientRequestToken''] r1 \<noteq> None" using f1(1) f1(3) by simp
  moreover have "json_at [Fld ''ClientRequestToken''] r2 = json_at [Fld ''ClientRequestToken''] r1"
    using f1(1) f2(1) by simp
  ultimately have "svc (snd (svc st r1)) r2 = svc st r1"
    using assms(3) unfolding honours_token_def by blast
  then show ?thesis using f1 by simp
qed

theorem submission_is_idempotent_witness:
  "token_table_service
     (snd (token_table_service []
        (the (task_input (payload (runAmazonTextract ''src'' ''dst'')) (sample_world ''SUCCEEDED'' 0)
           (JObj [(''key'', JStr ''a.pdf'')])))))
     (the (task_input (payload (runAmazonTextract ''src'' ''dst'')) (sample_world ''SUCCEEDED'' 0)
           (JObj [(''key'', JStr ''b.pdf'')])))
   = (''job-'', [(Some (JStr ''exec-1''), ''job-'')])"
proof -
  let ?w = "sample_world ''SUCCEEDED'' 0"
  let ?t = "payload (runAmazonTextract ''src'' ''dst'')"
  define r1 where "r1 = the (task_input ?t ?w (JObj [(''key'', JStr ''a.pdf'')]))"
  define r2 where "r2 = the (task_input ?t ?w (JObj [(''key'', JStr ''b.pdf'')]))"
  have h1: "task_input ?t ?w (JObj [(''key'', JStr ''a.pdf'')]) = Some r1"
    by (simp add: r1_def task_input_def runAmazonTextract_def CallAwsService_def sample_world_def)
  have h2: "task_input ?t ?w (JObj [(''key'', JStr ''b.pdf'')]) = Some r2"
    by (simp add: r2_def task_input_def runAmazonTextract_def CallAwsService_def sample_world_def)
  have first: "token_table_service [] r1 = (''job-'', [(Some (JStr ''exec-1''), ''job-'')])"
    by (simp add: r1_def token_table_service_def task_input_def runAmazonTextract_def
        CallAwsService_def sample_world_def Let_def)
  show ?thesis
    using submission_is_idempotent[OF h1 h2 token_table_honours, of "[]"] first
    by (simp add: r1_def r2_def)
qed

text \<open>
  C6, as amended. The runner starts at the submission, which no state leads back to.
  The submission hands over to the wait (not to the poll), the wait to the poll, the
  poll to the choice; the choice goes to the Fail state when the status is
  \<^verbatim>\<open>FAILED\<close>, to the final Pass when it is \<^verbatim>\<open>SUCCEEDED\<close>, and back to the wait for
  any other status. The Fail state and the final Pass are the only states without a
  successor.
\<close>

theorem textract_transitions:
  "startAt (textract_machine s d) = RunAmazonTextract
   \<and> (\<forall>x. RunAmazonTextract \<notin> set (targets (states (textract_machine s d) x)))
   \<and> targets (states (textract_machine s d) RunAmazonTextract) = [Wait_1_minute]
   \<and> targets (states (textract_machine s d) Wait_1_minute) = [GetDocumentAnalysis]
   \<and> targets (states (textract_machine s d) GetDocumentAnalysis) = [Check_Job_Status]
   \<and> targets (states (textract_machine s d) Check_Job_Status) = [Job_Failed, Job_Finish, Wait_1_minute]
   \<and> (\<forall>x. (targets (states (textract_machine s d) x) = []) = (x = Job_Failed \<or> x = Job_Finish))
   \<and> (pos c = Check_Job_Status \<and> json_at [Fld ''status'', Fld ''JobStatus''] (doc c) = Some v \<longrightarrow>
        step sub (textract_machine s d) w c =
          Goto (c\<lparr>trace := trace c @ [Check_Job_Status],
                  pos := (if v = JStr ''FAILED'' then Job_Failed
                          else if v = JStr ''SUCCEEDED'' then Job_Finish else Wait_1_minute),
                  attempts := 0\<rparr>))"
proof -
  let ?M = "textract_machine s d"
  have t: "\<And>x. targets (states ?M x) =
      (case x of RunAmazonTextract \<Rightarrow> [Wait_1_minute] | Wait_1_minute \<Rightarrow> [GetDocumentAnalysis]
       | GetDocumentAnalysis \<Rightarrow> [Check_Job_Status]
       | Check_Job_Status \<Rightarrow> [Job_Failed, Job_Finish, Wait_1_minute]
       | Job_Failed \<Rightarrow> [] | Job_Finish \<Rightarrow> [])"
    subgoal for x
      by (cases x) (simp_all add: textract_machine_def runAmazonTextract_def getDocumentAnalysis_def
          CallAwsService_def jobFailed_def jobFinish_def)
    done
  have a: "\<forall>x. RunAmazonTextract \<notin> set (targets (states ?M x))"
  proof
    fix x show "RunAmazonTextract \<notin> set (targets (states ?M x))"
      unfolding t by (cases x) simp_all
  qed
  have b: "\<forall>x. (targets (states ?M x) = []) = (x = Job_Failed \<or> x = Job_Finish)"
  proof
    fix x show "(targets (states ?M x) = []) = (x = Job_Failed \<or> x = Job_Finish)"
      unfolding t by (cases x) simp_all
  qed
  have c: "step sub ?M w c =
          Goto (c\<lparr>trace := trace c @ [Check_Job_Status],
                  pos := (if v = JStr ''FAILED'' then Job_Failed
                          else if v = JStr ''SUCCEEDED'' then Job_Finish else Wait_1_minute),
                  attempts := 0\<rparr>)"
    if p: "pos c = Check_Job_Status" and sv: "json_at [Fld ''status'', Fld ''JobStatus''] (doc c) = Some v"
  proof -
    have fm: "first_match [(StringEquals [Fld ''status'', Fld ''JobStatus''] ''FAILED'', Job_Failed),
             (StringEquals [Fld ''status'', Fld ''JobStatus''] ''SUCCEEDED'', Job_Finish)] (doc c)
        = Some (if v = JStr ''FAILED'' then Some Job_Failed
           else if v = JStr ''SUCCEEDED'' then Some Job_Finish else None)"
      by (rule tx_choice[OF sv])
    show ?thesis
      using p
      by (simp add: step_def textract_machine_def exec_choice_def fm del: first_match.simps)
  qed
  have "startAt ?M = RunAmazonTextract" by (simp add: textract_machine_def)
  then show ?thesis using a b c by (simp add: t)
qed

theorem textract_transitions_witness:
  "step (\<lambda>b. None) (textract_machine ''src'' ''dst'') (sample_world ''SUCCEEDED'' 0)
     \<lparr>pos = Check_Job_Status, doc = JObj [(''status'', JObj [(''JobStatus'', JStr ''IN_PROGRESS'')])],
      clock = 60, calls = (\<lambda>r. 0), attempts = 0, trace = []\<rparr>
   = Goto \<lparr>pos = Wait_1_minute, doc = JObj [(''status'', JObj [(''JobStatus'', JStr ''IN_PROGRESS'')])],
      clock = 60, calls = (\<lambda>r. 0), attempts = 0, trace = [Check_Job_Status]\<rparr>"
  using textract_transitions[of "''src''" "''dst''"
      "\<lparr>pos = Check_Job_Status, doc = JObj [(''status'', JObj [(''JobStatus'', JStr ''IN_PROGRESS'')])],
      clock = 60, calls = (\<lambda>r. 0), attempts = 0, trace = []\<rparr>" "JStr ''IN_PROGRESS''"
      "\<lambda>b. None" "sample_world ''SUCCEEDED'' 0"]
  by simp

text \<open>
  The claim C6 as stated fails: the state entered after the submission is the wait,
  and the poll is not among the submission's successors.
\<close>

theorem submit_is_followed_by_wait:
  "targets (states (textract_machine ''src'' ''dst'') RunAmazonTextract) = [Wait_1_minute]
   \<and> GetDocumentAnalysis \<notin> set (targets (states (textract_machine ''src'' ''dst'') RunAmazonTextract))
   \<and> map_option fst
        (reached (advance (textract_machine ''src'' ''dst'') (sample_world ''SUCCEEDED'' 0) 1
           (start (textract_machine ''src'' ''dst'') (JObj [(''key'', JStr ''a.pdf'')]))))
       = Some Wait_1_minute"
  by (simp add: textract_machine_def runAmazonTextract_def CallAwsService_def start_def step_def
      exec_task_def task_input_def task_output_def envelope_def sample_world_def leave_def)

lemma lambda_task_step:
  assumes "states m (pos c) = Task (getLambdaInvokeTask f) nxt"
    and "doc c = JObj kvs"
    and "invoke w (Lambda f) (calls c (Lambda f)) (JObj kvs) = Inr p"
  shows "step sub m w c =
     leave (c\<lparr>trace := trace c @ [pos c],
              calls := (calls c)(Lambda f := Suc (calls c (Lambda f)))\<rparr>) p nxt"
  using assms
  by (simp add: step_def exec_task_def getLambdaInvokeTask_def LambdaInvoke_def task_input_def
      task_output_def envelope_def map_of_set_field)

lemma task_error_step:
  assumes "states m (pos c) = Task t nxt"
    and "retry t = []" and "catch t = []"
    and "task_input (payload t) w (doc c) = Some req"
    and "invoke w (resource t) (calls c (resource t)) req = Inl (e, cause)"
  shows "step sub m w c =
     Halt (c\<lparr>trace := trace c @ [pos c],
             calls := (calls c)(resource t := Suc (calls c (resource t)))\<rparr>) (Failed e cause)"
  using assms
  by (simp add: step_def exec_task_def on_error_def caught_def)

lemma flat_orientation: "flat orientation_machine"
  unfolding flat_def
proof
  fix x show "\<not> is_Parallel (states orientation_machine x)"
    by (cases x) (simp_all add: orientation_machine_def)
qed

lemma advance_Suc_Goto:
  "step (\<lambda>b. None) m w c = Goto c' \<Longrightarrow> advance m w (Suc n) c = advance m w n c'"
  by simp

section \<open>The claims about the compute steps and the orientation pipeline\<close>

text \<open>
  C7, as amended. A step built by \<open>getLambdaInvokeTask\<close> writes the result of the
  invocation into the execution record at the fixed result path \<^verbatim>\<open>$.results\<close>, and
  then narrows its output to \<^verbatim>\<open>$.results.Payload\<close>: the record that the next state
  receives is exactly the payload that the function returned. A field of the record
  before the step is in the record after it only if the payload carries it.
\<close>

theorem lambda_step_output:
  assumes "states m (pos c) = Task (getLambdaInvokeTask f) nxt"
    and "doc c = JObj kvs"
    and "invoke w (Lambda f) (calls c (Lambda f)) (doc c) = Inr p"
  shows "put_at (resultPath (getLambdaInvokeTask f)) (JObj [(''Payload'', p)]) (doc c)
           = Some (JObj (set_field ''results'' (JObj [(''Payload'', p)]) kvs))
       \<and> task_output (getLambdaInvokeTask f) w (doc c) (envelope (Lambda f) (doc c) p) = Some p
       \<and> step sub m w c =
           leave (c\<lparr>trace := trace c @ [pos c],
                    calls := (calls c)(Lambda f := Suc (calls c (Lambda f)))\<rparr>) p nxt"
proof -
  have "step sub m w c =
           leave (c\<lparr>trace := trace c @ [pos c],
                    calls := (calls c)(Lambda f := Suc (calls c (Lambda f)))\<rparr>) p nxt"
    using lambda_task_step[OF assms(1,2)] assms(3) assms(2) by simp
  then show ?thesis
    using assms(2)
    by (simp add: getLambdaInvokeTask_def LambdaInvoke_def task_output_def envelope_def
        map_of_set_field)
qed

theorem lambda_step_output_witness:
  "step (\<lambda>b. None) orientation_machine (sample_world ''SUCCEEDED'' 0)
      (start orientation_machine (JObj [(''key'', JStr ''a.pdf'')]))
   = Goto \<lparr>pos = skipRotationChoice, doc = JObj [(''key'', JStr ''a.pdf'')], clock = 0,
           calls = (\<lambda>r. 0)(Lambda ''pdf-to-Images'' := 1), attempts = 0,
           trace = [pdfToImagesTask]\<rparr>"
proof -
  let ?c = "start orientation_machine (JObj [(''key'', JStr ''a.pdf'')])"
  let ?w = "sample_world ''SUCCEEDED'' 0"
  have h1: "states orientation_machine (pos ?c)
      = Task (getLambdaInvokeTask ''pdf-to-Images'') (Some skipRotationChoice)"
    by (simp add: start_def orientation_machine_def)
  have h2: "doc ?c = JObj [(''key'', JStr ''a.pdf'')]" by (simp add: start_def)
  have h3: "invoke ?w (Lambda ''pdf-to-Images'') (calls ?c (Lambda ''pdf-to-Images'')) (doc ?c)
      = Inr (JObj [(''key'', JStr ''a.pdf'')])"
    by (simp add: start_def sample_world_def)
  have "step (\<lambda>b. None) orientation_machine ?w ?c =
      leave (?c\<lparr>trace := trace ?c @ [pos ?c],
                calls := (calls ?c)(Lambda ''pdf-to-Images'' := Suc (calls ?c (Lambda ''pdf-to-Images'')))\<rparr>)
        (JObj [(''key'', JStr ''a.pdf'')]) (Some skipRotationChoice)"
    using lambda_step_output[OF h1 h2 h3, of "\<lambda>b. None"] by blast
  then show ?thesis
    by (simp add: leave_def start_def orientation_machine_def)
qed

text \<open>
  The claim C7 as stated fails: when the page-split function answers with a payload
  that has no \<^verbatim>\<open>key\<close> field, the record after the step has lost the input's key.
\<close>

theorem lambda_step_drops_record:
  "reached (advance orientation_machine (answering_world (JObj [(''images'', JArr [])])) 1
      (start orientation_machine (JObj [(''key'', JStr ''a.pdf'')])))
     = Some (skipRotationChoice, JObj [(''images'', JArr [])])
   \<and> json_at [Fld ''key''] (JObj [(''key'', JStr ''a.pdf'')]) = Some (JStr ''a.pdf'')
   \<and> json_at [Fld ''key''] (JObj [(''images'', JArr [])]) = None"
  by (simp add: start_def orientation_machine_def step_def exec_task_def getLambdaInvokeTask_def
      LambdaInvoke_def task_input_def task_output_def envelope_def leave_def answering_world_def)

lemma orientation_bypass:
  assumes "pos c = skipRotationChoice" and "json_at [Fld ''skipRotation''] (doc c) \<noteq> None"
  shows "advance orientation_machine w 2 c =
     Goto (c\<lparr>trace := trace c @ [skipRotationChoice, Skip_Fixing_Rotation],
             pos := imagesToPdfTask, attempts := 0\<rparr>)"
proof -
  define c1 where "c1 = c\<lparr>trace := trace c @ [skipRotationChoice], pos := Skip_Fixing_Rotation, attempts := 0\<rparr>"
  have s1: "step (\<lambda>b. None) orientation_machine w c = Goto c1"
    using assms by (auto simp: step_def orientation_machine_def exec_choice_def c1_def)
  have s2: "step (\<lambda>b. None) orientation_machine w c1 =
      Goto (c\<lparr>trace := trace c @ [skipRotationChoice, Skip_Fixing_Rotation],
             pos := imagesToPdfTask, attempts := 0\<rparr>)"
    by (simp add: step_def orientation_machine_def exec_pass_def leave_def c1_def)
  show ?thesis
    by (simp add: numeral_2_eq_2 s1 s2)
qed

lemma orientation_detect_first:
  assumes "pos c = skipRotationChoice" and "json_at [Fld ''skipRotation''] (doc c) = None"
  shows "advance orientation_machine w 1 c =
     Goto (c\<lparr>trace := trace c @ [skipRotationChoice],
             pos := analyzeDocumentImagesTask, attempts := 0\<rparr>)"
  using assms by (auto simp: step_def orientation_machine_def exec_choice_def)

lemma orientation_correct_path:
  assumes p: "pos c = skipRotationChoice" and n: "json_at [Fld ''skipRotation''] (doc c) = None"
    and d: "doc c = JObj kvs"
    and a: "invoke w (Lambda ''analyze-document-images'') (calls c (Lambda ''analyze-document-images''))
              (JObj kvs) = Inr (JObj kvs')"
    and r: "invoke w (Lambda ''correct-image-orientation'') (calls c (Lambda ''correct-image-orientation''))
              (JObj kvs') = Inr q"
    and t: "clock c + 5 \<le> timeoutSeconds orientation_machine"
  shows "advance orientation_machine w 4 c =
     Goto (c\<lparr>trace := trace c @ [skipRotationChoice, analyzeDocumentImagesTask,
                                  correctImageOrientationTask, Wait_5_seconds],
             calls := (calls c)
               (Lambda ''analyze-document-images'' := Suc (calls c (Lambda ''analyze-document-images'')),
                Lambda ''correct-image-orientation'' := Suc (calls c (Lambda ''correct-image-orientation''))),
             doc := q, clock := clock c + 5, pos := imagesToPdfTask, attempts := 0\<rparr>)"
proof -
  let ?A = "Lambda ''analyze-document-images''"
  let ?C = "Lambda ''correct-image-orientation''"
  define c1 where "c1 = c\<lparr>trace := trace c @ [skipRotationChoice],
             pos := analyzeDocumentImagesTask, attempts := 0\<rparr>"
  have a1: "advance orientation_machine w 1 c = Goto c1"
    unfolding c1_def by (rule orientation_detect_first[OF p n])
  define c2 where "c2 = c1\<lparr>trace := trace c1 @ [analyzeDocumentImagesTask],
      calls := (calls c)(?A := Suc (calls c ?A)), doc := JObj kvs',
      pos := correctImageOrientationTask, attempts := 0\<rparr>"
  have s2: "step (\<lambda>b. None) orientation_machine w c1 = Goto c2"
  proof -
    have "states orientation_machine (pos c1)
        = Task (getLambdaInvokeTask ''analyze-document-images'') (Some correctImageOrientationTask)"
      by (simp add: c1_def orientation_machine_def)
    moreover have "doc c1 = JObj kvs" by (simp add: c1_def d)
    moreover have "invoke w ?A (calls c1 ?A) (JObj kvs) = Inr (JObj kvs')"
      using a by (simp add: c1_def)
    ultimately have "step (\<lambda>b. None) orientation_machine w c1 =
        leave (c1\<lparr>trace := trace c1 @ [pos c1], calls := (calls c1)(?A := Suc (calls c1 ?A))\<rparr>)
          (JObj kvs') (Some correctImageOrientationTask)"
      by (rule lambda_task_step)
    then show ?thesis by (simp add: leave_def c2_def c1_def)
  qed
  define c3 where "c3 = c2\<lparr>trace := trace c2 @ [correctImageOrientationTask],
      calls := (calls c2)(?C := Suc (calls c ?C)), doc := q,
      pos := Wait_5_seconds, attempts := 0\<rparr>"
  have s3: "step (\<lambda>b. None) orientation_machine w c2 = Goto c3"
  proof -
    have "states orientation_machine (pos c2)
        = Task (getLambdaInvokeTask ''correct-image-orientation'') (Some Wait_5_seconds)"
      by (simp add: c2_def orientation_machine_def)
    moreover have "doc c2 = JObj kvs'" by (simp add: c2_def)
    moreover have "invoke w ?C (calls c2 ?C) (JObj kvs') = Inr q"
      using r by (simp add: c2_def)
    ultimately have "step (\<lambda>b. None) orientation_machine w c2 =
        leave (c2\<lparr>trace := trace c2 @ [pos c2], calls := (calls c2)(?C := Suc (calls c2 ?C))\<rparr>)
          q (Some Wait_5_seconds)"
      by (rule lambda_task_step)
    then show ?thesis by (simp add: leave_def c3_def c2_def)
  qed
  define c4 where "c4 = c3\<lparr>trace := trace c3 @ [Wait_5_seconds], clock := clock c + 5,
      pos := imagesToPdfTask, attempts := 0\<rparr>"
  have s4: "step (\<lambda>b. None) orientation_machine w c3 = Goto c4"
    using t
    by (simp add: step_def orientation_machine_def sleep_def leave_def c4_def c3_def c2_def c1_def)
  have b: "advance orientation_machine w 3 c1 = Goto c4"
    by (simp add: numeral_3_eq_3 s2 s3 s4)
  have "advance orientation_machine w (1 + 3) c = Goto c4"
    by (simp only: advance_add a1 b progress.case)
  moreover have "(4::nat) = 1 + 3" by simp
  ultimately have "advance orientation_machine w 4 c = Goto c4" by (simp only:)
  then show ?thesis
    by (simp add: c4_def c3_def c2_def c1_def)
qed

text \<open>
  C1, as amended. The choice looks at the record that the page-split step hands over,
  and only at whether it has a \<^verbatim>\<open>skipRotation\<close> field, not at the field's value. When
  the field is there (true, false or anything else), the next states are the choice
  and the empty Pass, and the recombination step is next: no detection, no correction,
  no wait, no call and no time spent. When the field is not there, the state after
  the choice is the detection step; when detection and correction succeed, these two,
  then the 5-second wait, run before the recombination step.
\<close>

theorem skip_rotation_choice:
  assumes "pos c = skipRotationChoice"
  shows "(json_at [Fld ''skipRotation''] (doc c) \<noteq> None \<longrightarrow>
            advance orientation_machine w 2 c =
              Goto (c\<lparr>trace := trace c @ [skipRotationChoice, Skip_Fixing_Rotation],
                      pos := imagesToPdfTask, attempts := 0\<rparr>))
       \<and> (json_at [Fld ''skipRotation''] (doc c) = None \<longrightarrow>
            advance orientation_machine w 1 c =
              Goto (c\<lparr>trace := trace c @ [skipRotationChoice],
                      pos := analyzeDocumentImagesTask, attempts := 0\<rparr>)
            \<and> (doc c = JObj kvs
               \<and> invoke w (Lambda ''analyze-document-images'')
                    (calls c (Lambda ''analyze-document-images'')) (JObj kvs) = Inr (JObj kvs')
               \<and> invoke w (Lambda ''correct-image-orientation'')
                    (calls c (Lambda ''correct-image-orientation'')) (JObj kvs') = Inr q
               \<and> clock c + 5 \<le> timeoutSeconds orientation_machine \<longrightarrow>
               advance orientation_machine w 4 c =
                 Goto (c\<lparr>trace := trace c @ [skipRotationChoice, analyzeDocumentImagesTask,
                                              correctImageOrientationTask, Wait_5_seconds],
                         calls := (calls c)
                           (Lambda ''analyze-document-images'' :=
                              Suc (calls c (Lambda ''analyze-document-images'')),
                            Lambda ''correct-image-orientation'' :=
                              Suc (calls c (Lambda ''correct-image-orientation''))),
                         doc := q, clock := clock c + 5, pos := imagesToPdfTask,
                         attempts := 0\<rparr>)))"
  using orientation_bypass[OF assms, of w] orientation_detect_first[OF assms, of w]
    orientation_correct_path[OF assms, of kvs w kvs' q]
  by blast


theorem skip_rotation_choice_witness:
  "advance orientation_machine (sample_world ''SUCCEEDED'' 0) 2
      \<lparr>pos = skipRotationChoice,
       doc = JObj [(''key'', JStr ''a.pdf''), (''skipRotation'', JBool True)],
       clock = 0, calls = (\<lambda>r. 0), attempts = 0, trace = [pdfToImagesTask]\<rparr>
    = Goto \<lparr>pos = imagesToPdfTask,
            doc = JObj [(''key'', JStr ''a.pdf''), (''skipRotation'', JBool True)],
            clock = 0, calls = (\<lambda>r. 0), attempts = 0,
            trace = [pdfToImagesTask, skipRotationChoice, Skip_Fixing_Rotation]\<rparr>
   \<and> advance orientation_machine (sample_world ''SUCCEEDED'' 0) 4
      \<lparr>pos = skipRotationChoice, doc = JObj [(''key'', JStr ''s.pdf'')],
       clock = 0, calls = (\<lambda>r. 0), attempts = 0, trace = [pdfToImagesTask]\<rparr>
    = Goto \<lparr>pos = imagesToPdfTask, doc = JObj [(''key'', JStr ''s.pdf'')],
            clock = 5,
            calls = (\<lambda>r. 0)(Lambda ''analyze-document-images'' := 1,
                              Lambda ''correct-image-orientation'' := 1),
            attempts = 0,
            trace = [pdfToImagesTask, skipRotationChoice, analyzeDocumentImagesTask,
                     correctImageOrientationTask, Wait_5_seconds]\<rparr>"
proof -
  let ?w = "sample_world ''SUCCEEDED'' 0"
  let ?c1 = "\<lparr>pos = skipRotationChoice,
       doc = JObj [(''key'', JStr ''a.pdf''), (''skipRotation'', JBool True)],
       clock = 0, calls = (\<lambda>r. 0), attempts = 0, trace = [pdfToImagesTask]\<rparr>"
  let ?c2 = "\<lparr>pos = skipRotationChoice, doc = JObj [(''key'', JStr ''s.pdf'')],
       clock = 0, calls = (\<lambda>r. 0), attempts = 0, trace = [pdfToImagesTask]\<rparr>"
  have p1: "pos ?c1 = skipRotationChoice" by simp
  have p2: "pos ?c2 = skipRotationChoice" by simp
  have A: "advance orientation_machine ?w 2 ?c1
    = Goto \<lparr>pos = imagesToPdfTask,
            doc = JObj [(''key'', JStr ''a.pdf''), (''skipRotation'', JBool True)],
            clock = 0, calls = (\<lambda>r. 0), attempts = 0,
            trace = [pdfToImagesTask, skipRotationChoice, Skip_Fixing_Rotation]\<rparr>"
    using skip_rotation_choice[OF p1, of ?w] by simp
  have B: "advance orientation_machine ?w 4 ?c2
    = Goto \<lparr>pos = imagesToPdfTask, doc = JObj [(''key'', JStr ''s.pdf'')],
            clock = 5,
            calls = (\<lambda>r. 0)(Lambda ''analyze-document-images'' := 1,
                              Lambda ''correct-image-orientation'' := 1),
            attempts = 0,
            trace = [pdfToImagesTask, skipRotationChoice, analyzeDocumentImagesTask,
                     correctImageOrientationTask, Wait_5_seconds]\<rparr>"
    using skip_rotation_choice[OF p2, of ?w "[(''key'', JStr ''s.pdf'')]" "[(''key'', JStr ''s.pdf'')]"
        "JObj [(''key'', JStr ''s.pdf'')]"]
    by (simp add: sample_world_def orientation_machine_def minutes_def)
  show ?thesis using A B by (rule conjI)
qed

text \<open>
  The claim C1 as stated fails for the flag \<^verbatim>\<open>false\<close>: with a page-split function
  that returns its event, the input \<^verbatim>\<open>{key, skipRotation: false}\<close> goes through the
  bypass, and detection, correction and wait do not run.
\<close>

theorem skip_rotation_false_bypasses:
  "map_option (trace \<circ> fst)
     (execute orientation_machine (sample_world ''SUCCEEDED'' 0) 4
        (JObj [(''key'', JStr ''a.pdf''), (''skipRotation'', JBool False)]))
   = Some [pdfToImagesTask, skipRotationChoice, Skip_Fixing_Rotation, imagesToPdfTask]"
proof -
  let ?w = "sample_world ''SUCCEEDED'' 0"
  let ?d = "JObj [(''key'', JStr ''a.pdf''), (''skipRotation'', JBool False)]"
  let ?M = "orientation_machine"
  define c1 where "c1 = \<lparr>pos = skipRotationChoice, doc = ?d, clock = 0,
      calls = (\<lambda>r. 0)(Lambda ''pdf-to-Images'' := 1), attempts = 0, trace = [pdfToImagesTask]\<rparr>"
  have a1: "advance ?M ?w 1 (start ?M ?d) = Goto c1"
    by (simp add: c1_def start_def orientation_machine_def step_def exec_task_def
        getLambdaInvokeTask_def LambdaInvoke_def task_input_def task_output_def envelope_def
        leave_def sample_world_def)
  have a2: "advance ?M ?w 2 c1 =
      Goto (c1\<lparr>trace := trace c1 @ [skipRotationChoice, Skip_Fixing_Rotation],
             pos := imagesToPdfTask, attempts := 0\<rparr>)"
    by (rule orientation_bypass) (simp_all add: c1_def)
  define c3 where "c3 = c1\<lparr>trace := trace c1 @ [skipRotationChoice, Skip_Fixing_Rotation],
             pos := imagesToPdfTask, attempts := 0\<rparr>"
  have a3: "advance ?M ?w 1 c3 =
      Halt (c3\<lparr>trace := trace c3 @ [imagesToPdfTask],
               calls := (calls c3)(Lambda ''images-to-pdf'' := 1)\<rparr>) (Succeeded ?d)"
    by (simp add: c3_def c1_def orientation_machine_def step_def exec_task_def
        getLambdaInvokeTask_def LambdaInvoke_def task_input_def task_output_def envelope_def
        leave_def sample_world_def)
  have adv: "advance ?M ?w (1 + (2 + 1)) (start ?M ?d) =
      Halt (c3\<lparr>trace := trace c3 @ [imagesToPdfTask],
               calls := (calls c3)(Lambda ''images-to-pdf'' := 1)\<rparr>) (Succeeded ?d)"
    by (simp only: advance_add a1 a2 a3 c3_def[symmetric] progress.case)
  have "run ?M ?w ((1 + (2 + 1)) + 0) (start ?M ?d) =
      Some (c3\<lparr>trace := trace c3 @ [imagesToPdfTask],
               calls := (calls c3)(Lambda ''images-to-pdf'' := 1)\<rparr>, Succeeded ?d)"
    by (simp only: run_advance[OF flat_orientation] adv progress.case)
  then have "execute ?M ?w 4 ?d =
      Some (c3\<lparr>trace := trace c3 @ [imagesToPdfTask],
               calls := (calls c3)(Lambda ''images-to-pdf'' := 1)\<rparr>, Succeeded ?d)"
    by (simp add: execute_def)
  then show ?thesis
    by (simp add: c3_def c1_def)
qed

section \<open>The claims about the orchestrator\<close>

lemma branch_start_trace [simp]: "branch_start (c\<lparr>trace := t\<rparr>) b = branch_start c b"
  by (simp add: branch_start_def)

lemma parallel_join:
  assumes p: "pos c = ProcessParallel"
    and b0: "sub (branch_start c ScriptsPass) = Some (c0, Succeeded o0)"
    and b1: "sub (branch_start c StandardAnswerPass) = Some (c1, Succeeded o1)"
    and x0: "json_at [Fld ''Output''] o0 = Some x0"
    and x1: "json_at [Fld ''Output''] o1 = Some x1"
    and ar: "arrival w = [0, 1] \<or> arrival w = [1, 0]"
  shows "\<exists>c'. step sub orchestrator_machine w c = Goto c'
           \<and> pos c' = GenerateMarkResultStateMachineExecution
           \<and> doc c' = JObj [(''scripts'', x0), (''standardAnswer'', x1)]"
  using ar
proof
  assume "arrival w = [0, 1]"
  then show ?thesis
    using p b0 b1 x0 x1
    by (simp add: step_def orchestrator_machine_def parallel_def exec_parallel_def leave_def
        split: option.splits)
next
  assume "arrival w = [1, 0]"
  then show ?thesis
    using p b0 b1 x0 x1
    by (simp add: step_def orchestrator_machine_def parallel_def exec_parallel_def leave_def
        split: option.splits)
qed


text \<open>
  C4. When both branches of the Parallel state end successfully, the state is left
  for the mark-generation step with the record
  \<^verbatim>\<open>{scripts: <Output of branch 0>, standardAnswer: <Output of branch 1>}\<close>, where
  branch 0 is the scripts chain and branch 1 the standard-answer chain, and the Output
  of a branch is the \<^verbatim>\<open>Output\<close> field of the record that its last child execution
  leaves. The record is the same whichever branch completes first.
\<close>

theorem fan_in_is_positional:
  assumes "pos c = ProcessParallel"
    and "run orchestrator_machine w n (branch_start c ScriptsPass) = Some (c0, Succeeded o0)"
    and "run orchestrator_machine w n (branch_start c StandardAnswerPass) = Some (c1, Succeeded o1)"
    and "json_at [Fld ''Output''] o0 = Some x0"
    and "json_at [Fld ''Output''] o1 = Some x1"
    and "arrival w = [0, 1] \<or> arrival w = [1, 0]"
  shows "\<exists>c'. run orchestrator_machine w (Suc n) c = run orchestrator_machine w n c'
           \<and> pos c' = GenerateMarkResultStateMachineExecution
           \<and> doc c' = JObj [(''scripts'', x0), (''standardAnswer'', x1)]"
proof -
  obtain c' where "step (\<lambda>b. run orchestrator_machine w n b) orchestrator_machine w c = Goto c'"
    and "pos c' = GenerateMarkResultStateMachineExecution"
    and "doc c' = JObj [(''scripts'', x0), (''standardAnswer'', x1)]"
    using parallel_join[OF assms(1), of "\<lambda>b. run orchestrator_machine w n b", OF assms(2-6)]
    by blast
  then show ?thesis by auto
qed

lemma sample_branch_scripts:
  "\<exists>c0. run orchestrator_machine ((sample_world ''SUCCEEDED'' 0)\<lparr>arrival := [1, 0]\<rparr>) 4
      (branch_start
         \<lparr>pos = ProcessParallel,
          doc = JObj [(''scriptsKey'', JStr ''s.pdf''), (''standardAnswerKey'', JStr ''a.pdf'')],
          clock = 0, calls = (\<lambda>r. 0), attempts = 0, trace = [StartPass]\<rparr> ScriptsPass)
    = Some (c0, Succeeded (JObj [(''Input'', JObj [(''key'', JStr ''s.pdf'')]),
                                 (''Output'', JObj [(''key'', JStr ''s.pdf'')])]))"
  by (simp add: eval_nat_numeral branch_start_def step_def orchestrator_machine_def scriptsPass_def
      exec_pass_def exec_task_def leave_def task_input_def task_output_def envelope_def
      getStateMachineExecution_def StepFunctionsStartExecution_def sample_world_def)

lemma sample_branch_answer:
  "\<exists>c1. run orchestrator_machine ((sample_world ''SUCCEEDED'' 0)\<lparr>arrival := [1, 0]\<rparr>) 4
      (branch_start
         \<lparr>pos = ProcessParallel,
          doc = JObj [(''scriptsKey'', JStr ''s.pdf''), (''standardAnswerKey'', JStr ''a.pdf'')],
          clock = 0, calls = (\<lambda>r. 0), attempts = 0, trace = [StartPass]\<rparr> StandardAnswerPass)
    = Some (c1, Succeeded (JObj [(''Input'', JObj [(''key'', JStr ''a.pdf''), (''skipRotation'', JBool True)]),
                                 (''Output'', JObj [(''key'', JStr ''a.pdf''), (''skipRotation'', JBool True)])]))"
  by (simp add: eval_nat_numeral branch_start_def step_def orchestrator_machine_def standardAnswerPass_def
      exec_pass_def exec_task_def leave_def task_input_def task_output_def envelope_def
      getStateMachineExecution_def StepFunctionsStartExecution_def sample_world_def)

theorem fan_in_is_positional_witness:
  "\<exists>c'. run orchestrator_machine ((sample_world ''SUCCEEDED'' 0)\<lparr>arrival := [1, 0]\<rparr>) 5
         \<lparr>pos = ProcessParallel,
          doc = JObj [(''scriptsKey'', JStr ''s.pdf''), (''standardAnswerKey'', JStr ''a.pdf'')],
          clock = 0, calls = (\<lambda>r. 0), attempts = 0, trace = [StartPass]\<rparr>
        = run orchestrator_machine ((sample_world ''SUCCEEDED'' 0)\<lparr>arrival := [1, 0]\<rparr>) 4 c'
      \<and> pos c' = GenerateMarkResultStateMachineExecution
      \<and> doc c' = JObj [(''scripts'', JObj [(''key'', JStr ''s.pdf'')]),
                       (''standardAnswer'', JObj [(''key'', JStr ''a.pdf''), (''skipRotation'', JBool True)])]"
proof -
  let ?w = "(sample_world ''SUCCEEDED'' 0)\<lparr>arrival := [1, 0]\<rparr>"
  let ?c = "\<lparr>pos = ProcessParallel,
          doc = JObj [(''scriptsKey'', JStr ''s.pdf''), (''standardAnswerKey'', JStr ''a.pdf'')],
          clock = 0, calls = (\<lambda>r. 0), attempts = 0, trace = [StartPass]\<rparr>"
  obtain c0 where h2: "run orchestrator_machine ?w 4 (branch_start ?c ScriptsPass)
    = Some (c0, Succeeded (JObj [(''Input'', JObj [(''key'', JStr ''s.pdf'')]),
                                 (''Output'', JObj [(''key'', JStr ''s.pdf'')])]))"
    using sample_branch_scripts by blast
  obtain c1 where h3: "run orchestrator_machine ?w 4 (branch_start ?c StandardAnswerPass)
    = Some (c1, Succeeded (JObj [(''Input'', JObj [(''key'', JStr ''a.pdf''), (''skipRotation'', JBool True)]),
                                 (''Output'', JObj [(''key'', JStr ''a.pdf''), (''skipRotation'', JBool True)])]))"
    using sample_branch_answer by blast
  have h1: "pos ?c = ProcessParallel" by simp
  have h4: "json_at [Fld ''Output''] (JObj [(''Input'', JObj [(''key'', JStr ''s.pdf'')]),
                                 (''Output'', JObj [(''key'', JStr ''s.pdf'')])])
      = Some (JObj [(''key'', JStr ''s.pdf'')])" by simp
  have h5: "json_at [Fld ''Output''] (JObj [(''Input'', JObj [(''key'', JStr ''a.pdf''), (''skipRotation'', JBool True)]),
                                 (''Output'', JObj [(''key'', JStr ''a.pdf''), (''skipRotation'', JBool True)])])
      = Some (JObj [(''key'', JStr ''a.pdf''), (''skipRotation'', JBool True)])" by simp
  have h6: "arrival ?w = [0, 1] \<or> arrival ?w = [1, 0]" by simp
  have "(5::nat) = Suc 4" by simp
  then show ?thesis
    using fan_in_is_positional[OF h1 h2 h3 h4 h5 h6] by (simp only:)
qed

section \<open>The claims about retries and failures\<close>

text \<open>The retrier of a Lambda task, and a step of a task that raises an error.\<close>

lemma retry_facts:
  "r_maxAttempts lambdaServiceRetry = 6"
  "r_interval lambdaServiceRetry = 2"
  "r_backoff lambdaServiceRetry = 2"
  by (simp_all add: lambdaServiceRetry_def)

lemma lambda_handlers:
  "retry (getLambdaInvokeTask f) = [lambdaServiceRetry] \<and> catch (getLambdaInvokeTask f) = []"
  by (simp add: getLambdaInvokeTask_def LambdaInvoke_def)

lemma lambda_call:
  "resource (getLambdaInvokeTask f) = Lambda f"
  "task_input (payload (getLambdaInvokeTask f)) w j = Some j"
  by (simp_all add: getLambdaInvokeTask_def LambdaInvoke_def task_input_def)

lemma retried_error_step:
  assumes "states m (pos c) = Task t nxt"
    and "retry t = [lambdaServiceRetry]" and "catch t = []"
    and "task_input (payload t) w (doc c) = Some req"
    and "invoke w (resource t) (calls c (resource t)) req = Inl (e, cause)"
  shows "step sub m w c =
     (if transient e \<and> attempts c < 6
      then (if timeoutSeconds m < clock c + 2 * 2 ^ attempts c
            then Halt (c\<lparr>trace := trace c @ [pos c],
                         calls := (calls c)(resource t := Suc (calls c (resource t))),
                         clock := timeoutSeconds m\<rparr>) TimedOut
            else Goto (c\<lparr>trace := trace c @ [pos c],
                         calls := (calls c)(resource t := Suc (calls c (resource t))),
                         clock := clock c + 2 * 2 ^ attempts c,
                         attempts := Suc (attempts c)\<rparr>))
      else Halt (c\<lparr>trace := trace c @ [pos c],
                   calls := (calls c)(resource t := Suc (calls c (resource t)))\<rparr>)
             (Failed e cause))"
  using assms
  by (simp add: step_def exec_task_def on_error_def caught_def sleep_def transient_def
      retry_facts Let_def)

lemma lambda_error_step:
  assumes s: "states m (pos c) = Task (getLambdaInvokeTask f) nxt"
    and i: "invoke w (Lambda f) (calls c (Lambda f)) (doc c) = Inl (e, cause)"
  shows "step sub m w c =
     (if transient e \<and> attempts c < 6
      then (if timeoutSeconds m < clock c + 2 * 2 ^ attempts c
            then Halt (c\<lparr>trace := trace c @ [pos c],
                         calls := (calls c)(Lambda f := Suc (calls c (Lambda f))),
                         clock := timeoutSeconds m\<rparr>) TimedOut
            else Goto (c\<lparr>trace := trace c @ [pos c],
                         calls := (calls c)(Lambda f := Suc (calls c (Lambda f))),
                         clock := clock c + 2 * 2 ^ attempts c,
                         attempts := Suc (attempts c)\<rparr>))
      else Halt (c\<lparr>trace := trace c @ [pos c],
                   calls := (calls c)(Lambda f := Suc (calls c (Lambda f)))\<rparr>)
             (Failed e cause))"
proof -
  have h: "retry (getLambdaInvokeTask f :: 'a task) = [lambdaServiceRetry]"
    "catch (getLambdaInvokeTask f :: 'a task) = []"
    by (simp_all add: getLambdaInvokeTask_def LambdaInvoke_def)
  have ti: "task_input (payload (getLambdaInvokeTask f :: 'a task)) w (doc c) = Some (doc c)"
    by (rule lambda_call)
  have iv: "invoke w (resource (getLambdaInvokeTask f :: 'a task))
      (calls c (resource (getLambdaInvokeTask f :: 'a task))) (doc c) = Inl (e, cause)"
    using i by (simp add: lambda_call)
  show ?thesis
    using retried_error_step[OF s h ti iv, of sub] by (simp add: lambda_call)
qed

text \<open>One entry of a Lambda task: it fails, it is left, or it is entered again.\<close>

lemma lambda_task_once:
  assumes s: "states m (pos c) = Task (getLambdaInvokeTask f) nxt"
    and d: "doc c = JObj kvs"
  shows "(\<exists>c' out. step sub m w c = Halt c' out \<and> trace c' = trace c @ [pos c])
       \<or> (\<exists>c' i. step sub m w c = Goto c' \<and> nxt = Some (pos c')
             \<and> invoke w (Lambda f) i (JObj kvs) = Inr (doc c') \<and> trace c' = trace c @ [pos c])
       \<or> (attempts c < 6
            \<and> (\<exists>c'. step sub m w c = Goto c' \<and> pos c' = pos c \<and> doc c' = doc c
                  \<and> attempts c' = Suc (attempts c) \<and> trace c' = trace c @ [pos c]))"
proof (cases "invoke w (Lambda f) (calls c (Lambda f)) (JObj kvs)")
  case (Inl err)
  obtain e cause where err: "err = (e, cause)" by (cases err)
  have i: "invoke w (Lambda f) (calls c (Lambda f)) (doc c) = Inl (e, cause)"
    using Inl err d by simp
  show ?thesis
    unfolding lambda_error_step[OF s i] by simp
next
  case (Inr p)
  have st: "step sub m w c =
     leave (c\<lparr>trace := trace c @ [pos c],
              calls := (calls c)(Lambda f := Suc (calls c (Lambda f)))\<rparr>) p nxt"
    using s d Inr by (rule lambda_task_step)
  show ?thesis
  proof (cases nxt)
    case None
    then show ?thesis unfolding st by (simp add: leave_def)
  next
    case (Some nx)
    have "invoke w (Lambda f) (calls c (Lambda f)) (JObj kvs) = Inr p" by (rule Inr)
    then show ?thesis unfolding st using Some by (auto simp: leave_def)
  qed
qed

text \<open>
  A Lambda task is settled within seven entries: the retrier allows six retries.
\<close>

lemma lambda_task_settles:
  assumes "states m (pos c) = Task (getLambdaInvokeTask f) nxt"
    and "doc c = JObj kvs"
    and "attempts c + n = 6"
  shows "\<exists>k. 1 \<le> k \<and> k \<le> Suc n \<and>
     ((\<exists>c' out. advance m w k c = Halt c' out \<and> set (trace c') \<subseteq> insert (pos c) (set (trace c)))
      \<or> (\<exists>c' i. advance m w k c = Goto c' \<and> nxt = Some (pos c')
            \<and> invoke w (Lambda f) i (JObj kvs) = Inr (doc c')
            \<and> set (trace c') \<subseteq> insert (pos c) (set (trace c))))"
  using assms
proof (induction n arbitrary: c)
  case 0
  from lambda_task_once[OF "0.prems"(1,2), of "\<lambda>b. None" w] "0.prems"(3)
  consider
    (halt) c' out where "step (\<lambda>b. None) m w c = Halt c' out" "trace c' = trace c @ [pos c]"
  | (left) c' i where "step (\<lambda>b. None) m w c = Goto c'" "nxt = Some (pos c')"
      "invoke w (Lambda f) i (JObj kvs) = Inr (doc c')" "trace c' = trace c @ [pos c]"
    by auto
  then show ?case
  proof cases
    case halt
    then have "advance m w 1 c = Halt c' out" "set (trace c') \<subseteq> insert (pos c) (set (trace c))"
      by auto
    then show ?thesis by (intro exI[of _ 1]) auto
  next
    case left
    then have "advance m w 1 c = Goto c'" "set (trace c') \<subseteq> insert (pos c) (set (trace c))"
      by auto
    with left(2,3) show ?thesis by (intro exI[of _ 1]) auto
  qed
next
  case (Suc n)
  from lambda_task_once[OF Suc.prems(1,2), of "\<lambda>b. None" w]
  consider
    (halt) c' out where "step (\<lambda>b. None) m w c = Halt c' out" "trace c' = trace c @ [pos c]"
  | (left) c' i where "step (\<lambda>b. None) m w c = Goto c'" "nxt = Some (pos c')"
      "invoke w (Lambda f) i (JObj kvs) = Inr (doc c')" "trace c' = trace c @ [pos c]"
  | (again) c' where "step (\<lambda>b. None) m w c = Goto c'" "pos c' = pos c" "doc c' = doc c"
      "attempts c' = Suc (attempts c)" "trace c' = trace c @ [pos c]"
    by auto
  then show ?case
  proof cases
    case halt
    then have "advance m w 1 c = Halt c' out" "set (trace c') \<subseteq> insert (pos c) (set (trace c))"
      by auto
    then show ?thesis by (intro exI[of _ 1]) auto
  next
    case left
    then have "advance m w 1 c = Goto c'" "set (trace c') \<subseteq> insert (pos c) (set (trace c))"
      by auto
    with left(2,3) show ?thesis by (intro exI[of _ 1]) auto
  next
    case again
    have s': "states m (pos c') = Task (getLambdaInvokeTask f) nxt"
      using Suc.prems(1) again(2) by simp
    have d': "doc c' = JObj kvs" using Suc.prems(2) again(3) by simp
    have a': "attempts c' + n = 6" using Suc.prems(3) again(4) by simp
    from Suc.IH[OF s' d' a'] obtain k where k: "1 \<le> k" "k \<le> Suc n"
      and alt: "(\<exists>c'' out. advance m w k c' = Halt c'' out
                   \<and> set (trace c'') \<subseteq> insert (pos c') (set (trace c')))
        \<or> (\<exists>c'' i. advance m w k c' = Goto c'' \<and> nxt = Some (pos c'')
              \<and> invoke w (Lambda f) i (JObj kvs) = Inr (doc c'')
              \<and> set (trace c'') \<subseteq> insert (pos c') (set (trace c')))"
      by blast
    have adv: "advance m w (Suc k) c = advance m w k c'"
      using again(1) by simp
    have tr: "insert (pos c') (set (trace c')) = insert (pos c) (set (trace c))"
      using again(2,5) by auto
    show ?thesis
      using k alt unfolding tr adv[symmetric]
      by (intro exI[of _ "Suc k"]) auto
  qed
qed


text \<open>
  A Lambda task whose first \<open>r\<close> calls fail with transient errors and whose next
  call answers is left after \<open>r + 1\<close> entries, when the time allows the retries.
\<close>

lemma lambda_retry_chain:
  assumes "states m (pos c) = Task (getLambdaInvokeTask f) (Some nx)"
    and "doc c = JObj kvs"
    and "\<forall>i<r. fails_transiently w f (JObj kvs) (calls c (Lambda f) + i)"
    and "invoke w (Lambda f) (calls c (Lambda f) + r) (JObj kvs) = Inr p"
    and "attempts c + r \<le> 6"
    and "clock c + 2 ^ (attempts c + r + 1) \<le> timeoutSeconds m + 2 ^ (attempts c + 1)"
  shows "\<exists>c'. advance m w (Suc r) c = Goto c' \<and> pos c' = nx \<and> doc c' = p \<and> attempts c' = 0
       \<and> trace c' = trace c @ replicate (Suc r) (pos c)
       \<and> calls c' = (calls c)(Lambda f := calls c (Lambda f) + Suc r)
       \<and> clock c' + 2 ^ (attempts c + 1) = clock c + 2 ^ (attempts c + r + 1)"
  using assms
proof (induction r arbitrary: c)
  case 0
  have i: "invoke w (Lambda f) (calls c (Lambda f)) (JObj kvs) = Inr p"
    using "0.prems"(4) by simp
  have "step (\<lambda>b. None) m w c =
     leave (c\<lparr>trace := trace c @ [pos c],
              calls := (calls c)(Lambda f := Suc (calls c (Lambda f)))\<rparr>) p (Some nx)"
    using "0.prems"(1,2) i by (rule lambda_task_step)
  then show ?case by (simp add: leave_def fun_eq_iff)
next
  case (Suc r)
  define P where "P = (2::nat) ^ (attempts c + 1)"
  define Q where "Q = (2::nat) ^ (attempts c + r + 2)"
  have PQ: "P + P \<le> Q"
  proof -
    have "(2::nat) ^ (attempts c + 2) \<le> 2 ^ (attempts c + r + 2)"
      by (rule power_increasing) simp_all
    then show ?thesis by (simp add: P_def Q_def)
  qed
  have P2: "2 * 2 ^ attempts c = P" by (simp add: P_def)
  have tm: "clock c + Q \<le> timeoutSeconds m + P"
    using Suc.prems(6) by (simp add: P_def Q_def)
  have ft: "fails_transiently w f (JObj kvs) (calls c (Lambda f))"
    using Suc.prems(3) by (metis add.right_neutral zero_less_Suc)
  then obtain e cause where
    i: "invoke w (Lambda f) (calls c (Lambda f)) (JObj kvs) = Inl (e, cause)" and te: "transient e"
    by (auto simp: fails_transiently_def split: sum.splits)
  have i': "invoke w (Lambda f) (calls c (Lambda f)) (doc c) = Inl (e, cause)"
    using i Suc.prems(2) by simp
  have at: "attempts c < 6" using Suc.prems(5) by simp
  have nt: "\<not> timeoutSeconds m < clock c + 2 * 2 ^ attempts c"
    unfolding P2 using tm PQ by simp
  define c1 where "c1 = c\<lparr>trace := trace c @ [pos c],
                         calls := (calls c)(Lambda f := Suc (calls c (Lambda f))),
                         clock := clock c + 2 * 2 ^ attempts c,
                         attempts := Suc (attempts c)\<rparr>"
  have st: "step (\<lambda>b. None) m w c = Goto c1"
    unfolding lambda_error_step[OF Suc.prems(1) i'] c1_def using te at nt by simp
  have s1: "states m (pos c1) = Task (getLambdaInvokeTask f) (Some nx)"
    using Suc.prems(1) by (simp add: c1_def)
  have d1: "doc c1 = JObj kvs" using Suc.prems(2) by (simp add: c1_def)
  have k1: "calls c1 (Lambda f) = Suc (calls c (Lambda f))" by (simp add: c1_def)
  have f1: "\<forall>i<r. fails_transiently w f (JObj kvs) (calls c1 (Lambda f) + i)"
  proof (intro allI impI)
    fix i assume "i < r"
    then have "Suc i < Suc r" by simp
    then have "fails_transiently w f (JObj kvs) (calls c (Lambda f) + Suc i)"
      using Suc.prems(3) by blast
    then show "fails_transiently w f (JObj kvs) (calls c1 (Lambda f) + i)"
      by (simp add: k1)
  qed
  have o1: "invoke w (Lambda f) (calls c1 (Lambda f) + r) (JObj kvs) = Inr p"
    using Suc.prems(4) by (simp add: k1)
  have a1: "attempts c1 + r \<le> 6" using Suc.prems(5) by (simp add: c1_def)
  have e1: "(2::nat) ^ (attempts c1 + r + 1) = Q" "(2::nat) ^ (attempts c1 + 1) = P + P"
    by (simp_all add: c1_def P_def Q_def)
  have cl1: "clock c1 = clock c + P" by (simp add: c1_def P2)
  have t1: "clock c1 + 2 ^ (attempts c1 + r + 1) \<le> timeoutSeconds m + 2 ^ (attempts c1 + 1)"
    unfolding e1 cl1 using tm by simp
  from Suc.IH[OF s1 d1 f1 o1 a1 t1] obtain c' where
    adv: "advance m w (Suc r) c1 = Goto c'" and r1: "pos c' = nx" "doc c' = p" "attempts c' = 0"
    and tr: "trace c' = trace c1 @ replicate (Suc r) (pos c1)"
    and ca: "calls c' = (calls c1)(Lambda f := calls c1 (Lambda f) + Suc r)"
    and cl: "clock c' + 2 ^ (attempts c1 + 1) = clock c1 + 2 ^ (attempts c1 + r + 1)"
    by blast
  have adv': "advance m w (Suc (Suc r)) c = Goto c'"
    using st adv by (simp del: advance.simps add: advance.simps(2)[of m w "Suc r" c])
  have tr': "trace c' = trace c @ replicate (Suc (Suc r)) (pos c)"
    using tr by (simp add: c1_def replicate_append_same)
  have ca': "calls c' = (calls c)(Lambda f := calls c (Lambda f) + Suc (Suc r))"
    using ca by (simp add: c1_def)
  have "clock c' + (P + P) = clock c + P + Q" using cl unfolding e1 cl1 .
  then have cl': "clock c' + 2 ^ (attempts c + 1) = clock c + 2 ^ (attempts c + Suc r + 1)"
    by (simp add: P_def Q_def)
  show ?case using adv' r1 tr' ca' cl' by blast
qed

lemma run_mono:
  assumes "flat m" and "run m w n c = Some r"
  shows "run m w (n + k) c = Some r"
proof -
  have "run m w (n + 0) c = Some r" using assms(2) by simp
  then have "(case advance m w n c of Goto c' \<Rightarrow> run m w 0 c' | Halt c' out \<Rightarrow> Some (c', out)
               | Pending \<Rightarrow> None) = Some r"
    by (simp only: run_advance[OF assms(1)])
  then obtain c' out where "advance m w n c = Halt c' out" "r = (c', out)"
    by (auto split: progress.splits)
  then show ?thesis
    by (simp only: run_advance[OF assms(1)] progress.case)
qed

lemma has_field_obj: "json_at [Fld k] j \<noteq> None \<Longrightarrow> \<exists>kvs. j = JObj kvs"
  by (cases j) auto

text \<open>
  With the flag in its input the pipeline ends within sixteen states: at most seven
  entries of the page split, the choice, the empty pass and at most seven entries of
  the recombination.
\<close>

lemma orientation_flagged_run:
  assumes kf: "page_split_keeps_flag w"
    and fl: "json_at [Fld ''skipRotation''] (JObj kvs) \<noteq> None"
  shows "\<exists>c out. execute orientation_machine w (16 + extra) (JObj kvs) = Some (c, out)
           \<and> analyzeDocumentImagesTask \<notin> set (trace c)
           \<and> correctImageOrientationTask \<notin> set (trace c)"
proof -
  define c0 where "c0 = start orientation_machine (JObj kvs)"
  have s0: "states orientation_machine (pos c0)
      = Task (getLambdaInvokeTask ''pdf-to-Images'') (Some skipRotationChoice)"
    by (simp add: c0_def start_def orientation_machine_def)
  have d0: "doc c0 = JObj kvs" by (simp add: c0_def start_def)
  have a0: "attempts c0 + 6 = 6" by (simp add: c0_def start_def)
  have t0: "insert (pos c0) (set (trace c0)) = {pdfToImagesTask}"
    by (simp add: c0_def start_def orientation_machine_def)
  have "\<exists>k. 1 \<le> k \<and> k \<le> Suc 6 \<and>
     ((\<exists>c' out. advance orientation_machine w k c0 = Halt c' out
          \<and> set (trace c') \<subseteq> insert (pos c0) (set (trace c0)))
      \<or> (\<exists>c' i. advance orientation_machine w k c0 = Goto c' \<and> Some skipRotationChoice = Some (pos c')
            \<and> invoke w (Lambda ''pdf-to-Images'') i (JObj kvs) = Inr (doc c')
            \<and> set (trace c') \<subseteq> insert (pos c0) (set (trace c0))))"
    by (rule lambda_task_settles[OF s0 d0 a0])
  then obtain k where k1: "1 \<le> k" and k2: "k \<le> Suc 6"
    and alt0: "(\<exists>c' out. advance orientation_machine w k c0 = Halt c' out
          \<and> set (trace c') \<subseteq> insert (pos c0) (set (trace c0)))
      \<or> (\<exists>c' i. advance orientation_machine w k c0 = Goto c' \<and> Some skipRotationChoice = Some (pos c')
            \<and> invoke w (Lambda ''pdf-to-Images'') i (JObj kvs) = Inr (doc c')
            \<and> set (trace c') \<subseteq> insert (pos c0) (set (trace c0)))"
    by blast
  have k: "1 \<le> k" "k \<le> 7" using k1 k2 by simp_all
  have alt: "(\<exists>c' out. advance orientation_machine w k c0 = Halt c' out
                 \<and> set (trace c') \<subseteq> {pdfToImagesTask})
      \<or> (\<exists>c' i. advance orientation_machine w k c0 = Goto c' \<and> skipRotationChoice = pos c'
            \<and> invoke w (Lambda ''pdf-to-Images'') i (JObj kvs) = Inr (doc c')
            \<and> set (trace c') \<subseteq> {pdfToImagesTask})"
    using alt0 unfolding t0 by simp
  from alt show ?thesis
  proof
    assume "\<exists>c' out. advance orientation_machine w k c0 = Halt c' out
                 \<and> set (trace c') \<subseteq> {pdfToImagesTask}"
    then obtain c' out where h: "advance orientation_machine w k c0 = Halt c' out"
      and tr: "set (trace c') \<subseteq> {pdfToImagesTask}" by blast
    have "run orientation_machine w (k + (16 + extra - k)) c0 = Some (c', out)"
      by (simp only: run_advance[OF flat_orientation] h progress.case)
    moreover have "k + (16 + extra - k) = 16 + extra" using k by simp
    ultimately have "execute orientation_machine w (16 + extra) (JObj kvs) = Some (c', out)"
      by (simp only: execute_def c0_def)
    then show ?thesis using tr by auto
  next
    assume "\<exists>c' i. advance orientation_machine w k c0 = Goto c' \<and> skipRotationChoice = pos c'
            \<and> invoke w (Lambda ''pdf-to-Images'') i (JObj kvs) = Inr (doc c')
            \<and> set (trace c') \<subseteq> {pdfToImagesTask}"
    then obtain c1 i where h1: "advance orientation_machine w k c0 = Goto c1"
      and p1: "pos c1 = skipRotationChoice"
      and iv: "invoke w (Lambda ''pdf-to-Images'') i (JObj kvs) = Inr (doc c1)"
      and tr1: "set (trace c1) \<subseteq> {pdfToImagesTask}" by auto
    have pf: "json_at [Fld ''skipRotation''] (doc c1) \<noteq> None"
      using kf iv fl unfolding page_split_keeps_flag_def by blast
    then obtain pk where pk: "doc c1 = JObj pk" using has_field_obj by blast
    define c3 where "c3 = c1\<lparr>trace := trace c1 @ [skipRotationChoice, Skip_Fixing_Rotation],
             pos := imagesToPdfTask, attempts := 0\<rparr>"
    have h2: "advance orientation_machine w 2 c1 = Goto c3"
      unfolding c3_def by (rule orientation_bypass[OF p1 pf])
    have s3: "states orientation_machine (pos c3) = Task (getLambdaInvokeTask ''images-to-pdf'') None"
      by (simp add: c3_def orientation_machine_def)
    have d3: "doc c3 = JObj pk" by (simp add: c3_def pk)
    have a3: "attempts c3 + 6 = 6" by (simp add: c3_def)
    have t3: "insert (pos c3) (set (trace c3))
        \<subseteq> {pdfToImagesTask, skipRotationChoice, Skip_Fixing_Rotation, imagesToPdfTask}"
      using tr1 by (auto simp: c3_def)
    have "\<exists>j. 1 \<le> j \<and> j \<le> Suc 6 \<and>
       ((\<exists>c' out. advance orientation_machine w j c3 = Halt c' out
            \<and> set (trace c') \<subseteq> insert (pos c3) (set (trace c3)))
        \<or> (\<exists>c' i. advance orientation_machine w j c3 = Goto c' \<and> None = Some (pos c')
              \<and> invoke w (Lambda ''images-to-pdf'') i (JObj pk) = Inr (doc c')
              \<and> set (trace c') \<subseteq> insert (pos c3) (set (trace c3))))"
      by (rule lambda_task_settles[OF s3 d3 a3])
    then obtain j c' out where j1: "1 \<le> j" and j2: "j \<le> Suc 6"
      and h3: "advance orientation_machine w j c3 = Halt c' out"
      and tr3: "set (trace c') \<subseteq> insert (pos c3) (set (trace c3))"
      by blast
    have j: "1 \<le> j" "j \<le> 7" using j1 j2 by simp_all
    have adv: "advance orientation_machine w (k + (2 + j)) c0 = Halt c' out"
      by (simp only: advance_add h1 h2 h3 progress.case)
    have "run orientation_machine w (k + (2 + j) + (16 + extra - (k + (2 + j)))) c0 = Some (c', out)"
      by (simp only: run_advance[OF flat_orientation] adv progress.case)
    moreover have "k + (2 + j) + (16 + extra - (k + (2 + j))) = 16 + extra" using k j by simp
    ultimately have "execute orientation_machine w (16 + extra) (JObj kvs) = Some (c', out)"
      by (simp only: execute_def c0_def)
    moreover have "analyzeDocumentImagesTask \<notin> set (trace c')"
      "correctImageOrientationTask \<notin> set (trace c')"
      using tr3 t3 by auto
    ultimately show ?thesis by blast
  qed
qed

lemma orientation_flagged_trace:
  assumes kf: "page_split_keeps_flag w"
    and fl: "json_at [Fld ''skipRotation''] (JObj kvs) \<noteq> None"
    and ex: "execute orientation_machine w n (JObj kvs) = Some (c, out)"
  shows "analyzeDocumentImagesTask \<notin> set (trace c) \<and> correctImageOrientationTask \<notin> set (trace c)"
proof -
  obtain c' out' where e: "execute orientation_machine w (16 + n) (JObj kvs) = Some (c', out')"
    and t: "analyzeDocumentImagesTask \<notin> set (trace c')" "correctImageOrientationTask \<notin> set (trace c')"
    using orientation_flagged_run[OF kf fl, of n] by blast
  have "run orientation_machine w (n + 16) (start orientation_machine (JObj kvs)) = Some (c, out)"
    using ex unfolding execute_def by (rule run_mono[OF flat_orientation])
  moreover have "n + 16 = 16 + n" by simp
  ultimately have "execute orientation_machine w (16 + n) (JObj kvs) = Some (c, out)"
    by (simp only: execute_def)
  with e have "c' = c" by simp
  with t show ?thesis by simp
qed

text \<open>
  Without the flag: the page split is left after \<open>rp\<close> retried calls, then the
  choice hands over to the detection step.
\<close>

lemma orientation_unflagged_run:
  assumes kf: "page_split_keeps_flag w"
    and fl: "json_at [Fld ''skipRotation''] (JObj kvs) = None"
    and rp: "rp \<le> 6"
    and ft: "\<forall>i<rp. fails_transiently w ''pdf-to-Images'' (JObj kvs) i"
    and ok: "invoke w (Lambda ''pdf-to-Images'') rp (JObj kvs) = Inr p"
  shows "\<exists>c. advance orientation_machine w (rp + 2) (start orientation_machine (JObj kvs)) = Goto c
           \<and> pos c = analyzeDocumentImagesTask \<and> doc c = p \<and> attempts c = 0
           \<and> trace c = replicate (Suc rp) pdfToImagesTask @ [skipRotationChoice]
           \<and> calls c (Lambda ''analyze-document-images'') = 0
           \<and> clock c + 2 = 2 ^ (rp + 1)"
proof -
  define c0 where "c0 = start orientation_machine (JObj kvs)"
  have s0: "states orientation_machine (pos c0)
      = Task (getLambdaInvokeTask ''pdf-to-Images'') (Some skipRotationChoice)"
    by (simp add: c0_def start_def orientation_machine_def)
  have d0: "doc c0 = JObj kvs" by (simp add: c0_def start_def)
  have f0: "\<forall>i<rp. fails_transiently w ''pdf-to-Images'' (JObj kvs)
              (calls c0 (Lambda ''pdf-to-Images'') + i)"
    using ft by (simp add: c0_def start_def)
  have o0: "invoke w (Lambda ''pdf-to-Images'') (calls c0 (Lambda ''pdf-to-Images'') + rp) (JObj kvs)
      = Inr p"
    using ok by (simp add: c0_def start_def)
  have a0: "attempts c0 + rp \<le> 6" using rp by (simp add: c0_def start_def)
  have "(2::nat) ^ (rp + 1) \<le> 2 ^ 7" using rp by (intro power_increasing) simp_all
  then have pw: "(2::nat) ^ (rp + 1) \<le> 128" by simp
  have t0: "clock c0 + 2 ^ (attempts c0 + rp + 1)
      \<le> timeoutSeconds orientation_machine + 2 ^ (attempts c0 + 1)"
    using pw by (simp add: c0_def start_def orientation_machine_def minutes_def)
  from lambda_retry_chain[OF s0 d0 f0 o0 a0 t0] obtain c1 where
    h1: "advance orientation_machine w (Suc rp) c0 = Goto c1"
    and p1: "pos c1 = skipRotationChoice" and d1: "doc c1 = p" and at1: "attempts c1 = 0"
    and tr1: "trace c1 = trace c0 @ replicate (Suc rp) (pos c0)"
    and ca1: "calls c1 = (calls c0)(Lambda ''pdf-to-Images'' := calls c0 (Lambda ''pdf-to-Images'') + Suc rp)"
    and cl1: "clock c1 + 2 ^ (attempts c0 + 1) = clock c0 + 2 ^ (attempts c0 + rp + 1)"
    by blast
  have pf: "json_at [Fld ''skipRotation''] (doc c1) = None"
    using kf ok fl d1 unfolding page_split_keeps_flag_def by blast
  define c2 where "c2 = c1\<lparr>trace := trace c1 @ [skipRotationChoice],
             pos := analyzeDocumentImagesTask, attempts := 0\<rparr>"
  have h2: "advance orientation_machine w 1 c1 = Goto c2"
    unfolding c2_def by (rule orientation_detect_first[OF p1 pf])
  have "advance orientation_machine w (Suc rp + 1) c0 = Goto c2"
    by (simp only: advance_add h1 h2 progress.case)
  moreover have "Suc rp + 1 = rp + 2" by simp
  ultimately have adv: "advance orientation_machine w (rp + 2) c0 = Goto c2"
    by (simp only:)
  have "trace c2 = replicate (Suc rp) pdfToImagesTask @ [skipRotationChoice]"
    using tr1 by (simp add: c2_def c0_def start_def orientation_machine_def)
  moreover have "calls c2 (Lambda ''analyze-document-images'') = 0"
    using ca1 by (simp add: c2_def c0_def start_def)
  moreover have "clock c2 + 2 = 2 ^ (rp + 1)"
    using cl1 by (simp add: c2_def c0_def start_def)
  ultimately show ?thesis
    using adv d1 unfolding c0_def by (intro exI[of _ c2]) (simp add: c2_def)
qed

text \<open>Then detection is left after \<open>rd\<close> retried calls, and correction follows.\<close>

lemma orientation_unflagged_correct:
  assumes kf: "page_split_keeps_flag w"
    and fl: "json_at [Fld ''skipRotation''] (JObj kvs) = None"
    and rp: "rp \<le> 6"
    and ft: "\<forall>i<rp. fails_transiently w ''pdf-to-Images'' (JObj kvs) i"
    and ok: "invoke w (Lambda ''pdf-to-Images'') rp (JObj kvs) = Inr (JObj pk)"
    and rd: "rd \<le> 6"
    and fd: "\<forall>i<rd. fails_transiently w ''analyze-document-images'' (JObj pk) i"
    and an: "invoke w (Lambda ''analyze-document-images'') rd (JObj pk) = Inr q"
  shows "\<exists>c. advance orientation_machine w (rp + rd + 3) (start orientation_machine (JObj kvs)) = Goto c
           \<and> pos c = correctImageOrientationTask \<and> doc c = q
           \<and> trace c = replicate (Suc rp) pdfToImagesTask @ [skipRotationChoice]
                 @ replicate (Suc rd) analyzeDocumentImagesTask"
proof -
  obtain c2 where a2: "advance orientation_machine w (rp + 2) (start orientation_machine (JObj kvs)) = Goto c2"
    and p2: "pos c2 = analyzeDocumentImagesTask" and d2: "doc c2 = JObj pk" and at2: "attempts c2 = 0"
    and t2: "trace c2 = replicate (Suc rp) pdfToImagesTask @ [skipRotationChoice]"
    and k2: "calls c2 (Lambda ''analyze-document-images'') = 0"
    and cl2: "clock c2 + 2 = 2 ^ (rp + 1)"
    using orientation_unflagged_run[OF kf fl rp ft ok] by blast
  have s: "states orientation_machine (pos c2)
      = Task (getLambdaInvokeTask ''analyze-document-images'') (Some correctImageOrientationTask)"
    by (simp add: p2 orientation_machine_def)
  have f2: "\<forall>i<rd. fails_transiently w ''analyze-document-images'' (JObj pk)
              (calls c2 (Lambda ''analyze-document-images'') + i)"
    using fd by (simp add: k2)
  have o2: "invoke w (Lambda ''analyze-document-images'')
      (calls c2 (Lambda ''analyze-document-images'') + rd) (JObj pk) = Inr q"
    using an by (simp add: k2)
  have a: "attempts c2 + rd \<le> 6" using rd by (simp add: at2)
  have "(2::nat) ^ (rp + 1) \<le> 2 ^ 7" using rp by (intro power_increasing) simp_all
  then have pw1: "(2::nat) ^ (rp + 1) \<le> 128" by simp
  have "(2::nat) ^ (rd + 1) \<le> 2 ^ 7" using rd by (intro power_increasing) simp_all
  then have pw2: "(2::nat) ^ (rd + 1) \<le> 128" by simp
  have cb: "clock c2 \<le> 128" using cl2 pw1 by simp
  have t: "clock c2 + 2 ^ (attempts c2 + rd + 1)
      \<le> timeoutSeconds orientation_machine + 2 ^ (attempts c2 + 1)"
    using cb pw2 by (simp add: at2 orientation_machine_def minutes_def)
  from lambda_retry_chain[OF s d2 f2 o2 a t] obtain c3 where
    h3: "advance orientation_machine w (Suc rd) c2 = Goto c3"
    and p3: "pos c3 = correctImageOrientationTask" and d3: "doc c3 = q"
    and tr3: "trace c3 = trace c2 @ replicate (Suc rd) (pos c2)"
    by blast
  define n2 where "n2 = rp + 2"
  have a2': "advance orientation_machine w n2 (start orientation_machine (JObj kvs)) = Goto c2"
    using a2 by (simp only: n2_def)
  have "advance orientation_machine w (n2 + Suc rd) (start orientation_machine (JObj kvs)) = Goto c3"
    by (simp only: advance_add a2' h3 progress.case)
  moreover have "n2 + Suc rd = rp + rd + 3" by (simp add: n2_def)
  ultimately have "advance orientation_machine w (rp + rd + 3) (start orientation_machine (JObj kvs)) = Goto c3"
    by (simp only:)
  then show ?thesis
    using p3 d3 tr3 t2 p2 by (intro exI[of _ c3]) simp
qed


lemma answer_pass_step:
  assumes "pos c = StandardAnswerPass" and "doc c = JObj kvs"
    and "map_of kvs ''standardAnswerKey'' = Some a"
  shows "step sub orchestrator_machine w c =
     Goto (c\<lparr>trace := trace c @ [StandardAnswerPass],
             pos := AnswerCorrectPdfOrientationStateMachineExecution,
             doc := JObj (set_field ''Input'' (JObj [(''key'', a), (''skipRotation'', JBool True)]) kvs),
             attempts := 0\<rparr>)"
  using assms
  by (simp add: step_def orchestrator_machine_def standardAnswerPass_def exec_pass_def leave_def)

lemma scripts_pass_step:
  assumes "pos c = ScriptsPass" and "doc c = JObj kvs"
    and "map_of kvs ''scriptsKey'' = Some s"
  shows "step sub orchestrator_machine w c =
     Goto (c\<lparr>trace := trace c @ [ScriptsPass],
             pos := ScriptsCorrectPdfOrientationStateMachineExecution,
             doc := JObj (set_field ''Input'' (JObj [(''key'', s)]) kvs),
             attempts := 0\<rparr>)"
  using assms
  by (simp add: step_def orchestrator_machine_def scriptsPass_def exec_pass_def leave_def)

lemma child_input:
  "task_input (payload (getStateMachineExecution sm None)) w (JObj (set_field ''Input'' v kvs)) = Some v"
  by (simp add: getStateMachineExecution_def StepFunctionsStartExecution_def task_input_def
      map_of_set_field)

text \<open>
  C9. The Pass state of the standard-answer branch hands the orientation pipeline the
  input \<^verbatim>\<open>{key, skipRotation: true}\<close>; the Pass state of the scripts branch hands it
  \<^verbatim>\<open>{key}\<close>, without the field. With a page-split function that keeps the field,
  the pipeline on the standard-answer input ends within sixteen states, whatever its
  functions answer and however often they are retried, and no execution of it that
  ends has entered the detection or the correction step. On the scripts input, when
  the page split answers after at most six retried calls, the state after the choice
  is the detection step; when detection then answers after at most six retried calls,
  the correction step follows.
\<close>

theorem standard_answer_skips_rotation:
  assumes "doc c = JObj kvs"
    and "map_of kvs ''standardAnswerKey'' = Some a"
    and "map_of kvs ''scriptsKey'' = Some s"
    and "page_split_keeps_flag w"
  shows "(pos c = StandardAnswerPass \<longrightarrow>
           (\<exists>c'. step sub orchestrator_machine w c = Goto c'
              \<and> states orchestrator_machine (pos c') =
                  Task (getStateMachineExecution ''CorrectPdfOrientationStateMachineConstruct'' None)
                       (Some AnswerAmazonTextractMultiPagesDocumentsStateMachineExecution)
              \<and> task_input (payload (getStateMachineExecution
                     ''CorrectPdfOrientationStateMachineConstruct'' None)) w (doc c')
                  = Some (JObj [(''key'', a), (''skipRotation'', JBool True)])))
       \<and> (pos c = ScriptsPass \<longrightarrow>
           (\<exists>c'. step sub orchestrator_machine w c = Goto c'
              \<and> states orchestrator_machine (pos c') =
                  Task (getStateMachineExecution ''CorrectPdfOrientationStateMachineConstruct'' None)
                       (Some ScriptsAmazonTextractMultiPagesDocumentsStateMachineExecution)
              \<and> task_input (payload (getStateMachineExecution
                     ''CorrectPdfOrientationStateMachineConstruct'' None)) w (doc c')
                  = Some (JObj [(''key'', s)])))
       \<and> (\<exists>c' out. execute orientation_machine w (16 + extra)
                       (JObj [(''key'', a), (''skipRotation'', JBool True)]) = Some (c', out)
              \<and> analyzeDocumentImagesTask \<notin> set (trace c')
              \<and> correctImageOrientationTask \<notin> set (trace c'))
       \<and> (\<forall>n c' out. execute orientation_machine w n
                       (JObj [(''key'', a), (''skipRotation'', JBool True)]) = Some (c', out)
              \<longrightarrow> analyzeDocumentImagesTask \<notin> set (trace c')
                \<and> correctImageOrientationTask \<notin> set (trace c'))
       \<and> (rp \<le> 6
          \<and> (\<forall>i<rp. fails_transiently w ''pdf-to-Images'' (JObj [(''key'', s)]) i)
          \<and> invoke w (Lambda ''pdf-to-Images'') rp (JObj [(''key'', s)]) = Inr p \<longrightarrow>
           (\<exists>c'. advance orientation_machine w (rp + 2)
                    (start orientation_machine (JObj [(''key'', s)])) = Goto c'
              \<and> pos c' = analyzeDocumentImagesTask
              \<and> trace c' = replicate (Suc rp) pdfToImagesTask @ [skipRotationChoice]))
       \<and> (rp \<le> 6
          \<and> (\<forall>i<rp. fails_transiently w ''pdf-to-Images'' (JObj [(''key'', s)]) i)
          \<and> invoke w (Lambda ''pdf-to-Images'') rp (JObj [(''key'', s)]) = Inr (JObj pk)
          \<and> rd \<le> 6
          \<and> (\<forall>i<rd. fails_transiently w ''analyze-document-images'' (JObj pk) i)
          \<and> invoke w (Lambda ''analyze-document-images'') rd (JObj pk) = Inr q \<longrightarrow>
           (\<exists>c'. advance orientation_machine w (rp + rd + 3)
                    (start orientation_machine (JObj [(''key'', s)])) = Goto c'
              \<and> pos c' = correctImageOrientationTask
              \<and> trace c' = replicate (Suc rp) pdfToImagesTask @ [skipRotationChoice]
                    @ replicate (Suc rd) analyzeDocumentImagesTask))"
proof -
  have A: "\<exists>c'. step sub orchestrator_machine w c = Goto c'
              \<and> states orchestrator_machine (pos c') =
                  Task (getStateMachineExecution ''CorrectPdfOrientationStateMachineConstruct'' None)
                       (Some AnswerAmazonTextractMultiPagesDocumentsStateMachineExecution)
              \<and> task_input (payload (getStateMachineExecution
                     ''CorrectPdfOrientationStateMachineConstruct'' None)) w (doc c')
                  = Some (JObj [(''key'', a), (''skipRotation'', JBool True)])"
    if "pos c = StandardAnswerPass"
    unfolding answer_pass_step[OF that assms(1,2)]
    by (simp add: orchestrator_machine_def child_input)
  have B: "\<exists>c'. step sub orchestrator_machine w c = Goto c'
              \<and> states orchestrator_machine (pos c') =
                  Task (getStateMachineExecution ''CorrectPdfOrientationStateMachineConstruct'' None)
                       (Some ScriptsAmazonTextractMultiPagesDocumentsStateMachineExecution)
              \<and> task_input (payload (getStateMachineExecution
                     ''CorrectPdfOrientationStateMachineConstruct'' None)) w (doc c')
                  = Some (JObj [(''key'', s)])"
    if "pos c = ScriptsPass"
    unfolding scripts_pass_step[OF that assms(1,3)]
    by (simp add: orchestrator_machine_def child_input)
  have fl: "json_at [Fld ''skipRotation''] (JObj [(''key'', a), (''skipRotation'', JBool True)]) \<noteq> None"
    by simp
  have nf: "json_at [Fld ''skipRotation''] (JObj [(''key'', s)]) = None" by simp
  have C: "\<exists>c' out. execute orientation_machine w (16 + extra)
                       (JObj [(''key'', a), (''skipRotation'', JBool True)]) = Some (c', out)
              \<and> analyzeDocumentImagesTask \<notin> set (trace c')
              \<and> correctImageOrientationTask \<notin> set (trace c')"
    by (rule orientation_flagged_run[OF assms(4) fl])
  have I: "\<forall>n c' out. execute orientation_machine w n
                       (JObj [(''key'', a), (''skipRotation'', JBool True)]) = Some (c', out)
              \<longrightarrow> analyzeDocumentImagesTask \<notin> set (trace c')
                \<and> correctImageOrientationTask \<notin> set (trace c')"
    using orientation_flagged_trace[OF assms(4) fl] by blast
  have D: "\<exists>c'. advance orientation_machine w (rp + 2)
                    (start orientation_machine (JObj [(''key'', s)])) = Goto c'
              \<and> pos c' = analyzeDocumentImagesTask
              \<and> trace c' = replicate (Suc rp) pdfToImagesTask @ [skipRotationChoice]"
    if r: "rp \<le> 6"
      and ft: "\<forall>i<rp. fails_transiently w ''pdf-to-Images'' (JObj [(''key'', s)]) i"
      and ok: "invoke w (Lambda ''pdf-to-Images'') rp (JObj [(''key'', s)]) = Inr p"
    using orientation_unflagged_run[OF assms(4) nf r ft ok] by blast
  have E: "\<exists>c'. advance orientation_machine w (rp + rd + 3)
                    (start orientation_machine (JObj [(''key'', s)])) = Goto c'
              \<and> pos c' = correctImageOrientationTask
              \<and> trace c' = replicate (Suc rp) pdfToImagesTask @ [skipRotationChoice]
                    @ replicate (Suc rd) analyzeDocumentImagesTask"
    if r: "rp \<le> 6"
      and ft: "\<forall>i<rp. fails_transiently w ''pdf-to-Images'' (JObj [(''key'', s)]) i"
      and ok: "invoke w (Lambda ''pdf-to-Images'') rp (JObj [(''key'', s)]) = Inr (JObj pk)"
      and r': "rd \<le> 6"
      and fd: "\<forall>i<rd. fails_transiently w ''analyze-document-images'' (JObj pk) i"
      and an: "invoke w (Lambda ''analyze-document-images'') rd (JObj pk) = Inr q"
    using orientation_unflagged_correct[OF assms(4) nf r ft ok r' fd an] by blast
  show ?thesis
    apply (intro conjI impI)
    subgoal by (rule A)
    subgoal by (rule B)
    subgoal by (rule C)
    subgoal by (rule I)
    subgoal by (rule D) blast+
    subgoal by (rule E) blast+
    done
qed

lemma flaky_keeps_flag: "page_split_keeps_flag (flaky_world bad)"
  by (simp add: page_split_keeps_flag_def flaky_world_def sample_world_def)

lemma service_exception_transient: "transient ''Lambda.ServiceException''"
  by (simp add: transient_def error_matches_def lambdaServiceRetry_def)

theorem standard_answer_skips_rotation_witness:
  "(\<exists>c'. step (\<lambda>b. None) orchestrator_machine (flaky_world (Lambda ''pdf-to-Images''))
            \<lparr>pos = StandardAnswerPass,
             doc = JObj [(''scriptsKey'', JStr ''s.pdf''), (''standardAnswerKey'', JStr ''a.pdf'')],
             clock = 0, calls = (\<lambda>r. 0), attempts = 0, trace = []\<rparr> = Goto c'
         \<and> task_input (payload (getStateMachineExecution
                ''CorrectPdfOrientationStateMachineConstruct'' None))
              (flaky_world (Lambda ''pdf-to-Images'')) (doc c')
             = Some (JObj [(''key'', JStr ''a.pdf''), (''skipRotation'', JBool True)]))
   \<and> (\<exists>c' out. execute orientation_machine (flaky_world (Lambda ''pdf-to-Images'')) 16
                   (JObj [(''key'', JStr ''a.pdf''), (''skipRotation'', JBool True)]) = Some (c', out)
          \<and> analyzeDocumentImagesTask \<notin> set (trace c')
          \<and> correctImageOrientationTask \<notin> set (trace c'))
   \<and> (\<exists>c'. advance orientation_machine (flaky_world (Lambda ''pdf-to-Images'')) 3
              (start orientation_machine (JObj [(''key'', JStr ''s.pdf'')])) = Goto c'
          \<and> pos c' = analyzeDocumentImagesTask
          \<and> trace c' = [pdfToImagesTask, pdfToImagesTask, skipRotationChoice])
   \<and> (\<exists>c'. advance orientation_machine (flaky_world (Lambda ''pdf-to-Images'')) 4
              (start orientation_machine (JObj [(''key'', JStr ''s.pdf'')])) = Goto c'
          \<and> pos c' = correctImageOrientationTask
          \<and> trace c' = [pdfToImagesTask, pdfToImagesTask, skipRotationChoice,
                         analyzeDocumentImagesTask])"
proof -
  let ?w = "flaky_world (Lambda ''pdf-to-Images'')"
  let ?kvs = "[(''scriptsKey'', JStr ''s.pdf''), (''standardAnswerKey'', JStr ''a.pdf'')]"
  let ?c = "\<lparr>pos = StandardAnswerPass, doc = JObj ?kvs,
             clock = 0, calls = (\<lambda>r. 0), attempts = 0, trace = []\<rparr>"
  let ?s = "JObj [(''key'', JStr ''s.pdf'')]"
  have h1: "doc ?c = JObj ?kvs" by simp
  have h2: "map_of ?kvs ''standardAnswerKey'' = Some (JStr ''a.pdf'')" by simp
  have h3: "map_of ?kvs ''scriptsKey'' = Some (JStr ''s.pdf'')" by simp
  note T = standard_answer_skips_rotation[OF h1 h2 h3 flaky_keeps_flag[of "Lambda ''pdf-to-Images''"],
        where sub="\<lambda>b. None" and extra=0 and rp=1 and rd=0 and p="?s"
        and pk="[(''key'', JStr ''s.pdf'')]" and q="?s"]
  have r1: "(1::nat) \<le> 6" by simp
  have r0: "(0::nat) \<le> 6" by simp
  have f1: "\<forall>i<1. fails_transiently ?w ''pdf-to-Images'' ?s i"
    using service_exception_transient
    by (simp add: fails_transiently_def flaky_world_def)
  have f0: "\<forall>i<0. fails_transiently ?w ''analyze-document-images'' ?s i" by simp
  have o1: "invoke ?w (Lambda ''pdf-to-Images'') 1 ?s = Inr ?s"
    by (simp add: flaky_world_def sample_world_def)
  have o0: "invoke ?w (Lambda ''analyze-document-images'') 0 ?s = Inr ?s"
    by (simp add: flaky_world_def sample_world_def)
  have p: "pos ?c = StandardAnswerPass" by simp
  have W1: "\<exists>c'. step (\<lambda>b. None) orchestrator_machine ?w ?c = Goto c'
         \<and> task_input (payload (getStateMachineExecution
                ''CorrectPdfOrientationStateMachineConstruct'' None)) ?w (doc c')
             = Some (JObj [(''key'', JStr ''a.pdf''), (''skipRotation'', JBool True)])"
    using T p by blast
  have "\<exists>c' out. execute orientation_machine ?w (16 + 0)
                   (JObj [(''key'', JStr ''a.pdf''), (''skipRotation'', JBool True)]) = Some (c', out)
          \<and> analyzeDocumentImagesTask \<notin> set (trace c')
          \<and> correctImageOrientationTask \<notin> set (trace c')"
    using T by blast
  then have W2: "\<exists>c' out. execute orientation_machine ?w 16
                   (JObj [(''key'', JStr ''a.pdf''), (''skipRotation'', JBool True)]) = Some (c', out)
          \<and> analyzeDocumentImagesTask \<notin> set (trace c')
          \<and> correctImageOrientationTask \<notin> set (trace c')"
    by simp
  have "\<exists>c'. advance orientation_machine ?w (1 + 2) (start orientation_machine ?s) = Goto c'
          \<and> pos c' = analyzeDocumentImagesTask
          \<and> trace c' = replicate (Suc 1) pdfToImagesTask @ [skipRotationChoice]"
    using T r1 f1 o1 by blast
  moreover have "(1::nat) + 2 = 3" by simp
  moreover have "replicate (Suc 1) pdfToImagesTask @ [skipRotationChoice]
      = [pdfToImagesTask, pdfToImagesTask, skipRotationChoice]" by simp
  ultimately have W3: "\<exists>c'. advance orientation_machine ?w 3 (start orientation_machine ?s) = Goto c'
          \<and> pos c' = analyzeDocumentImagesTask
          \<and> trace c' = [pdfToImagesTask, pdfToImagesTask, skipRotationChoice]"
    by (simp only:)
  have "\<exists>c'. advance orientation_machine ?w (1 + 0 + 3) (start orientation_machine ?s) = Goto c'
          \<and> pos c' = correctImageOrientationTask
          \<and> trace c' = replicate (Suc 1) pdfToImagesTask @ [skipRotationChoice]
                @ replicate (Suc 0) analyzeDocumentImagesTask"
    using T r1 f1 o1 r0 f0 o0 by blast
  moreover have "(1::nat) + 0 + 3 = 4" by simp
  moreover have "replicate (Suc 1) pdfToImagesTask @ [skipRotationChoice]
                @ replicate (Suc 0) analyzeDocumentImagesTask
      = [pdfToImagesTask, pdfToImagesTask, skipRotationChoice, analyzeDocumentImagesTask]" by simp
  ultimately have W4: "\<exists>c'. advance orientation_machine ?w 4 (start orientation_machine ?s) = Goto c'
          \<and> pos c' = correctImageOrientationTask
          \<and> trace c' = [pdfToImagesTask, pdfToImagesTask, skipRotationChoice,
                         analyzeDocumentImagesTask]"
    by (simp only:)
  show ?thesis using W1 W2 W3 W4 by blast
qed


lemma orientation_handlers:
  "states orientation_machine x = Task t nxt \<Longrightarrow> retry t = [lambdaServiceRetry] \<and> catch t = []"
  by (cases x) (auto simp: orientation_machine_def getLambdaInvokeTask_def LambdaInvoke_def)

lemma orchestrator_no_handlers:
  "states orchestrator_machine y = Task t nxt \<Longrightarrow> retry t = [] \<and> catch t = []"
  by (cases y)
     (auto simp: orchestrator_machine_def parallel_def scriptsPass_def standardAnswerPass_def
        getStateMachineExecution_def StepFunctionsStartExecution_def)

lemma parallel_fails:
  assumes p: "pos c = ProcessParallel"
    and ar: "arrival w = [0, 1] \<or> arrival w = [1, 0]"
    and b0: "sub (branch_start c ScriptsPass) = Some (c0, out0)"
    and b1: "sub (branch_start c StandardAnswerPass) = Some (c1, out1)"
    and bad: "out0 = Failed e cause \<or> out1 = Failed e cause"
  shows "\<exists>c' out. step sub orchestrator_machine w c = Halt c' out
           \<and> (out = out0 \<or> out = out1) \<and> (\<forall>j. out \<noteq> Succeeded j)"
  using ar
proof
  assume "arrival w = [0, 1]"
  then show ?thesis
    using p b0 b1 bad
    by (cases out0; cases out1)
       (simp_all add: step_def orchestrator_machine_def parallel_def exec_parallel_def)
next
  assume "arrival w = [1, 0]"
  then show ?thesis
    using p b0 b1 bad
    by (cases out0; cases out1)
       (simp_all add: step_def orchestrator_machine_def parallel_def exec_parallel_def)
qed

text \<open>
  C8, as amended. No Task state of the orientation pipeline or of the orchestrator
  has a catcher, and the source gives none a retrier; the tasks of the orchestrator
  have no retrier at all, while each Lambda task of the pipeline has the one retrier
  that its construct attaches by default. So an error of a Lambda task that this
  retrier does not name, or that comes when its six retries are used up, ends the
  execution there, failed with that error and its cause; an error that it names is
  retried after a pause of 2, 4, 8, ... seconds (the execution times out if the pause
  passes the machine's timeout), and the execution goes on from the same state. An
  error of a task of the orchestrator always ends the execution, failed with it. When
  a branch of the Parallel state ends failed, the execution ends with the outcome of
  a branch that did not succeed, whichever branch completes first: the output of a
  branch that succeeded is not kept.
\<close>

theorem step_error_fails_execution:
  "(states orientation_machine x = Task t nxt \<longrightarrow> retry t = [lambdaServiceRetry] \<and> catch t = [])
   \<and> (states orchestrator_machine y = Task t' nxt' \<longrightarrow> retry t' = [] \<and> catch t' = [])
   \<and> (states orientation_machine (pos c) = Task u nxu
       \<and> task_input (payload u) w (doc c) = Some req
       \<and> invoke w (resource u) (calls c (resource u)) req = Inl (e, cause)
       \<and> (\<not> transient e \<or> 6 \<le> attempts c) \<longrightarrow>
         run orientation_machine w (Suc n) c =
           Some (c\<lparr>trace := trace c @ [pos c],
                   calls := (calls c)(resource u := Suc (calls c (resource u)))\<rparr>,
                 Failed e cause))
   \<and> (states orientation_machine (pos c) = Task u nxu
       \<and> task_input (payload u) w (doc c) = Some req
       \<and> invoke w (resource u) (calls c (resource u)) req = Inl (e, cause)
       \<and> transient e \<and> attempts c < 6 \<longrightarrow>
         run orientation_machine w (Suc n) c =
           (if timeoutSeconds orientation_machine < clock c + 2 * 2 ^ attempts c
            then Some (c\<lparr>trace := trace c @ [pos c],
                        calls := (calls c)(resource u := Suc (calls c (resource u))),
                        clock := timeoutSeconds orientation_machine\<rparr>,
                      TimedOut)
            else run orientation_machine w n
                   (c\<lparr>trace := trace c @ [pos c],
                      calls := (calls c)(resource u := Suc (calls c (resource u))),
                      clock := clock c + 2 * 2 ^ attempts c,
                      attempts := Suc (attempts c)\<rparr>)))
   \<and> (states orchestrator_machine (pos c') = Task u' nxu'
       \<and> task_input (payload u') w (doc c') = Some req'
       \<and> invoke w (resource u') (calls c' (resource u')) req' = Inl (e, cause) \<longrightarrow>
         run orchestrator_machine w (Suc n) c' =
           Some (c'\<lparr>trace := trace c' @ [pos c'],
                    calls := (calls c')(resource u' := Suc (calls c' (resource u')))\<rparr>,
                 Failed e cause))
   \<and> (pos c' = ProcessParallel
       \<and> (arrival w = [0, 1] \<or> arrival w = [1, 0])
       \<and> run orchestrator_machine w n (branch_start c' ScriptsPass) = Some (bs, outs)
       \<and> run orchestrator_machine w n (branch_start c' StandardAnswerPass) = Some (ba, outa)
       \<and> (outs = Failed e cause \<or> outa = Failed e cause) \<longrightarrow>
         (\<exists>c'' out. run orchestrator_machine w (Suc n) c' = Some (c'', out)
            \<and> (out = outs \<or> out = outa) \<and> (\<forall>j. out \<noteq> Succeeded j)))"
proof -
  have A: "run orientation_machine w (Suc n) c =
           Some (c\<lparr>trace := trace c @ [pos c],
                   calls := (calls c)(resource u := Suc (calls c (resource u)))\<rparr>,
                 Failed e cause)"
    if s: "states orientation_machine (pos c) = Task u nxu"
      and i: "task_input (payload u) w (doc c) = Some req"
      and r: "invoke w (resource u) (calls c (resource u)) req = Inl (e, cause)"
      and x: "\<not> transient e \<or> 6 \<le> attempts c"
  proof -
    have h: "retry u = [lambdaServiceRetry]" "catch u = []"
      using orientation_handlers[OF s] by simp_all
    have "\<not> (transient e \<and> attempts c < 6)" using x by auto
    then have "step (\<lambda>b. run orientation_machine w n b) orientation_machine w c =
        Halt (c\<lparr>trace := trace c @ [pos c],
                calls := (calls c)(resource u := Suc (calls c (resource u)))\<rparr>) (Failed e cause)"
      unfolding retried_error_step[OF s h i r] by (rule if_not_P)
    then show ?thesis by simp
  qed
  have R: "run orientation_machine w (Suc n) c =
           (if timeoutSeconds orientation_machine < clock c + 2 * 2 ^ attempts c
            then Some (c\<lparr>trace := trace c @ [pos c],
                        calls := (calls c)(resource u := Suc (calls c (resource u))),
                        clock := timeoutSeconds orientation_machine\<rparr>,
                      TimedOut)
            else run orientation_machine w n
                   (c\<lparr>trace := trace c @ [pos c],
                      calls := (calls c)(resource u := Suc (calls c (resource u))),
                      clock := clock c + 2 * 2 ^ attempts c,
                      attempts := Suc (attempts c)\<rparr>))"
    if s: "states orientation_machine (pos c) = Task u nxu"
      and i: "task_input (payload u) w (doc c) = Some req"
      and r: "invoke w (resource u) (calls c (resource u)) req = Inl (e, cause)"
      and x: "transient e" "attempts c < 6"
  proof -
    have h: "retry u = [lambdaServiceRetry]" "catch u = []"
      using orientation_handlers[OF s] by simp_all
    show ?thesis
      using x by (simp add: retried_error_step[OF s h i r])
  qed
  have B: "run orchestrator_machine w (Suc n) c' =
           Some (c'\<lparr>trace := trace c' @ [pos c'],
                    calls := (calls c')(resource u' := Suc (calls c' (resource u')))\<rparr>,
                 Failed e cause)"
    if s: "states orchestrator_machine (pos c') = Task u' nxu'"
      and i: "task_input (payload u') w (doc c') = Some req'"
      and r: "invoke w (resource u') (calls c' (resource u')) req' = Inl (e, cause)"
  proof -
    have h: "retry u' = []" "catch u' = []" using orchestrator_no_handlers[OF s] by simp_all
    show ?thesis
      by (simp add: task_error_step[OF s h i r])
  qed
  have C: "\<exists>c'' out. run orchestrator_machine w (Suc n) c' = Some (c'', out)
            \<and> (out = outs \<or> out = outa) \<and> (\<forall>j. out \<noteq> Succeeded j)"
    if p: "pos c' = ProcessParallel"
      and ar: "arrival w = [0, 1] \<or> arrival w = [1, 0]"
      and r0: "run orchestrator_machine w n (branch_start c' ScriptsPass) = Some (bs, outs)"
      and r1: "run orchestrator_machine w n (branch_start c' StandardAnswerPass) = Some (ba, outa)"
      and bad: "outs = Failed e cause \<or> outa = Failed e cause"
  proof -
    obtain c'' out where "step (\<lambda>b. run orchestrator_machine w n b) orchestrator_machine w c' = Halt c'' out"
      and "out = outs \<or> out = outa" and "\<forall>j. out \<noteq> Succeeded j"
      using parallel_fails[OF p ar, of "\<lambda>b. run orchestrator_machine w n b", OF r0 r1 bad] by blast
    then show ?thesis by auto
  qed
  show ?thesis
    apply (intro conjI impI)
    subgoal by (rule orientation_handlers[THEN conjunct1])
    subgoal by (rule orientation_handlers[THEN conjunct2])
    subgoal using orchestrator_no_handlers[of y t' nxt'] by simp
    subgoal using orchestrator_no_handlers[of y t' nxt'] by simp
    subgoal by (rule A) blast+
    subgoal by (rule R) blast+
    subgoal by (rule B) blast+
    subgoal by (rule C) blast+
    done
qed

lemma failing_branch_scripts:
  "\<exists>b0. run orchestrator_machine
      (failing_world (StartExecution ''TransformFormResultStateMachineConstruct'')) 4
      (branch_start
         \<lparr>pos = ProcessParallel,
          doc = JObj [(''scriptsKey'', JStr ''s.pdf''), (''standardAnswerKey'', JStr ''a.pdf'')],
          clock = 0, calls = (\<lambda>r. 0), attempts = 0, trace = [StartPass]\<rparr> ScriptsPass)
    = Some (b0, Failed ''Boom'' ''it broke'')"
  by (simp add: eval_nat_numeral branch_start_def step_def orchestrator_machine_def scriptsPass_def
      exec_pass_def exec_task_def leave_def task_input_def task_output_def envelope_def
      getStateMachineExecution_def StepFunctionsStartExecution_def sample_world_def
      failing_world_def on_error_def caught_def)

lemma failing_branch_answer:
  "\<exists>b1. run orchestrator_machine
      (failing_world (StartExecution ''TransformFormResultStateMachineConstruct'')) 4
      (branch_start
         \<lparr>pos = ProcessParallel,
          doc = JObj [(''scriptsKey'', JStr ''s.pdf''), (''standardAnswerKey'', JStr ''a.pdf'')],
          clock = 0, calls = (\<lambda>r. 0), attempts = 0, trace = [StartPass]\<rparr> StandardAnswerPass)
    = Some (b1, Failed ''Boom'' ''it broke'')"
  by (simp add: eval_nat_numeral branch_start_def step_def orchestrator_machine_def standardAnswerPass_def
      exec_pass_def exec_task_def leave_def task_input_def task_output_def envelope_def
      getStateMachineExecution_def StepFunctionsStartExecution_def sample_world_def
      failing_world_def on_error_def caught_def)

lemma boom_not_transient: "\<not> transient ''Boom''"
  by (simp add: transient_def error_matches_def lambdaServiceRetry_def)

text \<open>
  The detection step entered a second time, after the transient error of its first
  call: the rest of the pipeline runs to its end.
\<close>

lemma retried_detection_run:
  "run orientation_machine (flaky_world (Lambda ''analyze-document-images'')) 4
      \<lparr>pos = analyzeDocumentImagesTask, doc = JObj [(''key'', JStr ''s.pdf'')], clock = 2,
       calls = (\<lambda>r. 0)(Lambda ''analyze-document-images'' := Suc 0), attempts = Suc 0,
       trace = [pdfToImagesTask, skipRotationChoice, analyzeDocumentImagesTask]\<rparr>
    = Some (\<lparr>pos = imagesToPdfTask, doc = JObj [(''key'', JStr ''s.pdf'')], clock = 7,
             calls = (\<lambda>r. 0)(Lambda ''analyze-document-images'' := 2,
                              Lambda ''correct-image-orientation'' := 1,
                              Lambda ''images-to-pdf'' := 1),
             attempts = 0,
             trace = [pdfToImagesTask, skipRotationChoice, analyzeDocumentImagesTask,
                      analyzeDocumentImagesTask, correctImageOrientationTask, Wait_5_seconds,
                      imagesToPdfTask]\<rparr>,
            Succeeded (JObj [(''key'', JStr ''s.pdf'')]))"
proof -
  have e: "(4::nat) = Suc (Suc (Suc (Suc 0)))" by simp
  show ?thesis
    unfolding e
    by (simp add: orientation_machine_def step_def exec_task_def sleep_def leave_def
        getLambdaInvokeTask_def LambdaInvoke_def task_input_def task_output_def envelope_def
        flaky_world_def sample_world_def minutes_def fun_eq_iff)
qed


theorem step_error_fails_execution_witness:
  "retry (getLambdaInvokeTask ''pdf-to-Images'' :: orient task) = [lambdaServiceRetry]
   \<and> catch (getLambdaInvokeTask ''pdf-to-Images'' :: orient task) = []
   \<and> retry (getStateMachineExecution ''GenerateMarkResultStateMachineConstruct'' (Some []) :: orch task) = []
   \<and> catch (getStateMachineExecution ''GenerateMarkResultStateMachineConstruct'' (Some []) :: orch task) = []
   \<and> run orientation_machine (failing_world (Lambda ''analyze-document-images'')) 1
      \<lparr>pos = analyzeDocumentImagesTask, doc = JObj [(''key'', JStr ''s.pdf'')], clock = 0,
       calls = (\<lambda>r. 0), attempts = 0, trace = [pdfToImagesTask, skipRotationChoice]\<rparr>
    = Some (\<lparr>pos = analyzeDocumentImagesTask, doc = JObj [(''key'', JStr ''s.pdf'')], clock = 0,
             calls = (\<lambda>r. 0)(Lambda ''analyze-document-images'' := 1), attempts = 0,
             trace = [pdfToImagesTask, skipRotationChoice, analyzeDocumentImagesTask]\<rparr>,
            Failed ''Boom'' ''it broke'')
   \<and> run orientation_machine (flaky_world (Lambda ''analyze-document-images'')) 5
      \<lparr>pos = analyzeDocumentImagesTask, doc = JObj [(''key'', JStr ''s.pdf'')], clock = 0,
       calls = (\<lambda>r. 0), attempts = 0, trace = [pdfToImagesTask, skipRotationChoice]\<rparr>
    = Some (\<lparr>pos = imagesToPdfTask, doc = JObj [(''key'', JStr ''s.pdf'')], clock = 7,
             calls = (\<lambda>r. 0)(Lambda ''analyze-document-images'' := 2,
                              Lambda ''correct-image-orientation'' := 1,
                              Lambda ''images-to-pdf'' := 1),
             attempts = 0,
             trace = [pdfToImagesTask, skipRotationChoice, analyzeDocumentImagesTask,
                      analyzeDocumentImagesTask, correctImageOrientationTask, Wait_5_seconds,
                      imagesToPdfTask]\<rparr>,
            Succeeded (JObj [(''key'', JStr ''s.pdf'')]))
   \<and> run orchestrator_machine
        (failing_world (StartExecution ''GenerateMarkResultStateMachineConstruct'')) 1
      \<lparr>pos = GenerateMarkResultStateMachineExecution, doc = JObj [(''scripts'', JNull)], clock = 0,
       calls = (\<lambda>r. 0), attempts = 0, trace = [StartPass, ProcessParallel]\<rparr>
    = Some (\<lparr>pos = GenerateMarkResultStateMachineExecution, doc = JObj [(''scripts'', JNull)],
             clock = 0,
             calls = (\<lambda>r. 0)(StartExecution ''GenerateMarkResultStateMachineConstruct'' := 1),
             attempts = 0,
             trace = [StartPass, ProcessParallel, GenerateMarkResultStateMachineExecution]\<rparr>,
            Failed ''Boom'' ''it broke'')
   \<and> (\<exists>c''. run orchestrator_machine
          (failing_world (StartExecution ''TransformFormResultStateMachineConstruct'')) 5
          \<lparr>pos = ProcessParallel,
           doc = JObj [(''scriptsKey'', JStr ''s.pdf''), (''standardAnswerKey'', JStr ''a.pdf'')],
           clock = 0, calls = (\<lambda>r. 0), attempts = 0, trace = [StartPass]\<rparr>
        = Some (c'', Failed ''Boom'' ''it broke''))"
proof -
  let ?w1 = "failing_world (Lambda ''analyze-document-images'')"
  let ?wf = "flaky_world (Lambda ''analyze-document-images'')"
  let ?d = "JObj [(''key'', JStr ''s.pdf'')]"
  let ?c = "\<lparr>pos = analyzeDocumentImagesTask, doc = ?d, clock = 0,
       calls = (\<lambda>r. 0), attempts = 0, trace = [pdfToImagesTask, skipRotationChoice]\<rparr>"
  let ?u = "getLambdaInvokeTask ''analyze-document-images'' :: orient task"
  have a1: "states orientation_machine (pos ?c) = Task ?u (Some correctImageOrientationTask)"
    by (simp add: orientation_machine_def)
  have a2: "task_input (payload ?u) ?w1 (doc ?c) = Some ?d"
    by (simp add: lambda_call)
  have a3: "invoke ?w1 (resource ?u) (calls ?c (resource ?u)) ?d = Inl (''Boom'', ''it broke'')"
    by (simp add: lambda_call failing_world_def)
  have a4: "\<not> transient ''Boom'' \<or> 6 \<le> attempts ?c"
    using boom_not_transient by simp
  have A: "run orientation_machine ?w1 (Suc 0) ?c =
      Some (?c\<lparr>trace := trace ?c @ [pos ?c],
               calls := (calls ?c)(resource ?u := Suc (calls ?c (resource ?u)))\<rparr>,
            Failed ''Boom'' ''it broke'')"
    using step_error_fails_execution[where c="?c" and u="?u" and nxu="Some correctImageOrientationTask"
        and w="?w1" and req="?d" and e="''Boom''" and cause="''it broke''"
        and n=0] a1 a2 a3 a4
    by blast
  from A have A': "run orientation_machine ?w1 1 ?c
    = Some (\<lparr>pos = analyzeDocumentImagesTask, doc = ?d, clock = 0,
             calls = (\<lambda>r. 0)(Lambda ''analyze-document-images'' := 1), attempts = 0,
             trace = [pdfToImagesTask, skipRotationChoice, analyzeDocumentImagesTask]\<rparr>,
            Failed ''Boom'' ''it broke'')"
    by (simp add: lambda_call)
  have f2: "task_input (payload ?u) ?wf (doc ?c) = Some ?d"
    by (simp add: lambda_call)
  have f3: "invoke ?wf (resource ?u) (calls ?c (resource ?u)) ?d
      = Inl (''Lambda.ServiceException'', ''try again'')"
    by (simp add: lambda_call flaky_world_def)
  have f4: "attempts ?c < 6" by simp
  have F: "run orientation_machine ?wf (Suc 4) ?c =
           (if timeoutSeconds orientation_machine < clock ?c + 2 * 2 ^ attempts ?c
            then Some (?c\<lparr>trace := trace ?c @ [pos ?c],
                        calls := (calls ?c)(resource ?u := Suc (calls ?c (resource ?u))),
                        clock := timeoutSeconds orientation_machine\<rparr>,
                      TimedOut)
            else run orientation_machine ?wf 4
                   (?c\<lparr>trace := trace ?c @ [pos ?c],
                      calls := (calls ?c)(resource ?u := Suc (calls ?c (resource ?u))),
                      clock := clock ?c + 2 * 2 ^ attempts ?c,
                      attempts := Suc (attempts ?c)\<rparr>))"
    using step_error_fails_execution[where c="?c" and u="?u" and nxu="Some correctImageOrientationTask"
        and w="?wf" and req="?d" and e="''Lambda.ServiceException''" and cause="''try again''"
        and n=4] a1 f2 f3 f4 service_exception_transient
    by blast
  have F1: "run orientation_machine ?wf (Suc 4) ?c =
      run orientation_machine ?wf 4
        \<lparr>pos = analyzeDocumentImagesTask, doc = ?d, clock = 2,
         calls = (\<lambda>r. 0)(Lambda ''analyze-document-images'' := Suc 0), attempts = Suc 0,
         trace = [pdfToImagesTask, skipRotationChoice, analyzeDocumentImagesTask]\<rparr>"
  proof -
    have tm: "\<not> timeoutSeconds orientation_machine < clock ?c + 2 * 2 ^ attempts ?c"
      by (simp add: orientation_machine_def minutes_def)
    have ce: "?c\<lparr>trace := trace ?c @ [pos ?c],
                      calls := (calls ?c)(resource ?u := Suc (calls ?c (resource ?u))),
                      clock := clock ?c + 2 * 2 ^ attempts ?c,
                      attempts := Suc (attempts ?c)\<rparr>
        = \<lparr>pos = analyzeDocumentImagesTask, doc = ?d, clock = 2,
         calls = (\<lambda>r. 0)(Lambda ''analyze-document-images'' := Suc 0), attempts = Suc 0,
         trace = [pdfToImagesTask, skipRotationChoice, analyzeDocumentImagesTask]\<rparr>"
      by (simp add: lambda_call)
    show ?thesis
      unfolding F by (simp only: tm if_False ce)
  qed
  have "Suc 4 = 5" by simp
  then have F': "run orientation_machine ?wf 5 ?c
    = Some (\<lparr>pos = imagesToPdfTask, doc = ?d, clock = 7,
             calls = (\<lambda>r. 0)(Lambda ''analyze-document-images'' := 2,
                              Lambda ''correct-image-orientation'' := 1,
                              Lambda ''images-to-pdf'' := 1),
             attempts = 0,
             trace = [pdfToImagesTask, skipRotationChoice, analyzeDocumentImagesTask,
                      analyzeDocumentImagesTask, correctImageOrientationTask, Wait_5_seconds,
                      imagesToPdfTask]\<rparr>,
            Succeeded ?d)"
    using F1 retried_detection_run by (simp only:)
  let ?w3 = "failing_world (StartExecution ''GenerateMarkResultStateMachineConstruct'')"
  let ?g = "\<lparr>pos = GenerateMarkResultStateMachineExecution, doc = JObj [(''scripts'', JNull)], clock = 0,
       calls = (\<lambda>r. 0), attempts = 0, trace = [StartPass, ProcessParallel]\<rparr>"
  let ?v = "getStateMachineExecution ''GenerateMarkResultStateMachineConstruct'' (Some []) :: orch task"
  have g1: "states orchestrator_machine (pos ?g) = Task ?v None"
    by (simp add: orchestrator_machine_def)
  have g2: "task_input (payload ?v) ?w3 (doc ?g) = Some (JObj [(''scripts'', JNull)])"
    by (simp add: getStateMachineExecution_def StepFunctionsStartExecution_def task_input_def)
  have g3: "invoke ?w3 (resource ?v) (calls ?g (resource ?v)) (JObj [(''scripts'', JNull)])
      = Inl (''Boom'', ''it broke'')"
    by (simp add: getStateMachineExecution_def StepFunctionsStartExecution_def failing_world_def)
  have G: "run orchestrator_machine ?w3 (Suc 0) ?g =
      Some (?g\<lparr>trace := trace ?g @ [pos ?g],
               calls := (calls ?g)(resource ?v := Suc (calls ?g (resource ?v)))\<rparr>,
            Failed ''Boom'' ''it broke'')"
    using step_error_fails_execution[where c'="?g" and u'="?v" and nxu'="None"
        and w="?w3" and req'="JObj [(''scripts'', JNull)]" and e="''Boom''" and cause="''it broke''"
        and n=0] g1 g2 g3
    by blast
  from G have G': "run orchestrator_machine ?w3 1 ?g
    = Some (\<lparr>pos = GenerateMarkResultStateMachineExecution, doc = JObj [(''scripts'', JNull)],
             clock = 0,
             calls = (\<lambda>r. 0)(StartExecution ''GenerateMarkResultStateMachineConstruct'' := 1),
             attempts = 0,
             trace = [StartPass, ProcessParallel, GenerateMarkResultStateMachineExecution]\<rparr>,
            Failed ''Boom'' ''it broke'')"
    by (simp add: getStateMachineExecution_def StepFunctionsStartExecution_def)
  let ?w2 = "failing_world (StartExecution ''TransformFormResultStateMachineConstruct'')"
  let ?p = "\<lparr>pos = ProcessParallel,
           doc = JObj [(''scriptsKey'', JStr ''s.pdf''), (''standardAnswerKey'', JStr ''a.pdf'')],
           clock = 0, calls = (\<lambda>r. 0), attempts = 0, trace = [StartPass]\<rparr>"
  obtain b0 where r0: "run orchestrator_machine ?w2 4 (branch_start ?p ScriptsPass)
      = Some (b0, Failed ''Boom'' ''it broke'')"
    using failing_branch_scripts by blast
  obtain b1 where r1: "run orchestrator_machine ?w2 4 (branch_start ?p StandardAnswerPass)
      = Some (b1, Failed ''Boom'' ''it broke'')"
    using failing_branch_answer by blast
  have p1: "pos ?p = ProcessParallel" by simp
  have p2: "arrival ?w2 = [0, 1] \<or> arrival ?w2 = [1, 0]"
    by (simp add: failing_world_def sample_world_def)
  have "\<exists>c'' out. run orchestrator_machine ?w2 (Suc 4) ?p = Some (c'', out)
            \<and> (out = Failed ''Boom'' ''it broke'' \<or> out = Failed ''Boom'' ''it broke'')
            \<and> (\<forall>j. out \<noteq> Succeeded j)"
    using step_error_fails_execution[where c'="?p" and w="?w2" and n=4 and bs=b0 and ba=b1
        and outs="Failed ''Boom'' ''it broke''" and outa="Failed ''Boom'' ''it broke''"
        and e="''Boom''" and cause="''it broke''"] p1 p2 r0 r1
    by blast
  then have B: "\<exists>c''. run orchestrator_machine ?w2 5 ?p = Some (c'', Failed ''Boom'' ''it broke'')"
    by (auto simp: eval_nat_numeral)
  have h1: "states orientation_machine pdfToImagesTask
      = Task (getLambdaInvokeTask ''pdf-to-Images'') (Some skipRotationChoice)"
    by (simp add: orientation_machine_def)
  have H1: "retry (getLambdaInvokeTask ''pdf-to-Images'' :: orient task) = [lambdaServiceRetry]
      \<and> catch (getLambdaInvokeTask ''pdf-to-Images'' :: orient task) = []"
    using step_error_fails_execution[where x=pdfToImagesTask
        and t="getLambdaInvokeTask ''pdf-to-Images''" and nxt="Some skipRotationChoice"] h1
    by blast
  have h2: "states orchestrator_machine GenerateMarkResultStateMachineExecution = Task ?v None"
    by (simp add: orchestrator_machine_def)
  have H2: "retry ?v = [] \<and> catch ?v = []"
    using step_error_fails_execution[where y=GenerateMarkResultStateMachineExecution
        and t'="?v" and nxt'=None] h2
    by blast
  show ?thesis using H1 H2 A' F' G' B by blast
qed

text \<open>
  The claim C8 as stated fails for a transient error of the Lambda service. The
  detection step has a retrier; in a world where its first call fails with
  \<^verbatim>\<open>Lambda.ServiceException\<close> and its second call answers, the execution of the
  pipeline on \<^verbatim>\<open>{key}\<close> enters the detection step twice, waits 2 seconds for the
  retry and 5 in the Wait state, and succeeds.
\<close>

theorem transient_error_is_retried:
  "retry (getLambdaInvokeTask ''analyze-document-images'' :: orient task) = [lambdaServiceRetry]
   \<and> invoke (flaky_world (Lambda ''analyze-document-images''))
        (Lambda ''analyze-document-images'') 0 (JObj [(''key'', JStr ''s.pdf'')])
      = Inl (''Lambda.ServiceException'', ''try again'')
   \<and> map_option snd
        (execute orientation_machine (flaky_world (Lambda ''analyze-document-images'')) 7
           (JObj [(''key'', JStr ''s.pdf'')]))
      = Some (Succeeded (JObj [(''key'', JStr ''s.pdf'')]))
   \<and> map_option (trace \<circ> fst)
        (execute orientation_machine (flaky_world (Lambda ''analyze-document-images'')) 7
           (JObj [(''key'', JStr ''s.pdf'')]))
      = Some [pdfToImagesTask, skipRotationChoice, analyzeDocumentImagesTask,
              analyzeDocumentImagesTask, correctImageOrientationTask, Wait_5_seconds,
              imagesToPdfTask]
   \<and> map_option (clock \<circ> fst)
        (execute orientation_machine (flaky_world (Lambda ''analyze-document-images'')) 7
           (JObj [(''key'', JStr ''s.pdf'')]))
      = Some 7"
proof -
  let ?w = "flaky_world (Lambda ''analyze-document-images'')"
  let ?d = "JObj [(''key'', JStr ''s.pdf'')]"
  let ?M = "orientation_machine"
  define c2 where "c2 = \<lparr>pos = analyzeDocumentImagesTask, doc = ?d, clock = 0,
      calls = (\<lambda>r. 0)(Lambda ''pdf-to-Images'' := Suc 0), attempts = 0,
      trace = [pdfToImagesTask, skipRotationChoice]\<rparr>"
  define c3 where "c3 = c2\<lparr>trace := trace c2 @ [analyzeDocumentImagesTask],
      calls := (calls c2)(Lambda ''analyze-document-images'' := Suc 0),
      clock := 2, attempts := Suc 0\<rparr>"
  define c7 where "c7 = c3\<lparr>trace := trace c3 @ [analyzeDocumentImagesTask,
        correctImageOrientationTask, Wait_5_seconds, imagesToPdfTask],
      calls := (calls c3)(Lambda ''analyze-document-images'' := Suc (Suc 0),
                          Lambda ''correct-image-orientation'' := Suc 0,
                          Lambda ''images-to-pdf'' := Suc 0),
      clock := 7, pos := imagesToPdfTask, attempts := 0\<rparr>"
  have a1: "advance ?M ?w (Suc (Suc 0)) (start ?M ?d) = Goto c2"
    by (simp add: c2_def start_def orientation_machine_def step_def exec_task_def exec_choice_def
        getLambdaInvokeTask_def LambdaInvoke_def task_input_def task_output_def envelope_def
        leave_def flaky_world_def sample_world_def)
  have a2: "advance ?M ?w (Suc 0) c2 = Goto c3"
    by (simp add: c3_def c2_def orientation_machine_def step_def exec_task_def on_error_def
        sleep_def error_matches_def lambdaServiceRetry_def minutes_def
        getLambdaInvokeTask_def LambdaInvoke_def task_input_def flaky_world_def)
  have a3: "advance ?M ?w (Suc (Suc (Suc (Suc 0)))) c3 = Halt c7 (Succeeded ?d)"
    by (simp add: c7_def c3_def c2_def orientation_machine_def step_def exec_task_def sleep_def
        getLambdaInvokeTask_def LambdaInvoke_def task_input_def task_output_def envelope_def
        leave_def flaky_world_def sample_world_def minutes_def fun_eq_iff)
  have adv: "advance ?M ?w (Suc (Suc 0) + (Suc 0 + Suc (Suc (Suc (Suc 0))))) (start ?M ?d)
      = Halt c7 (Succeeded ?d)"
    by (simp only: advance_add a1 a2 a3 progress.case)
  have "run ?M ?w (Suc (Suc 0) + (Suc 0 + Suc (Suc (Suc (Suc 0)))) + 0) (start ?M ?d)
      = Some (c7, Succeeded ?d)"
    by (simp only: run_advance[OF flat_orientation] adv progress.case)
  moreover have "Suc (Suc 0) + (Suc 0 + Suc (Suc (Suc (Suc 0)))) + 0 = 7" by simp
  ultimately have ex: "execute ?M ?w 7 ?d = Some (c7, Succeeded ?d)"
    by (simp only: execute_def)
  have i: "invoke ?w (Lambda ''analyze-document-images'') 0 ?d
      = Inl (''Lambda.ServiceException'', ''try again'')"
    by (simp add: flaky_world_def)
  have r: "retry (getLambdaInvokeTask ''analyze-document-images'' :: orient task)
      = [lambdaServiceRetry]"
    by (simp add: getLambdaInvokeTask_def LambdaInvoke_def)
  show ?thesis
    unfolding ex by (simp add: i r c7_def c3_def c2_def)
qed

end
